(* ===== verification/Prelude.thy ===== *)
theory Prelude
  imports Main "HOL-Library.Word" "HOL-Library.Monad_Syntax" "HOL-Library.Multiset"
begin

text \<open>
  Shared vocabulary of the development.

  C code can have undefined behaviour (a read or write outside an object, a null
  dereference, a signed overflow). A definition whose source can do that returns
  \<open>'a option\<close>, and \<open>None\<close> means that the C program has no defined result from
  there on; a null pointer that the code handles is \<open>None\<close> of an inner option.

  A C string is the list of its characters before the terminating NUL; a raw buffer is
  the list of all its characters (or bytes), NULs included.
\<close>

section \<open>Collections and names\<close>

named_theorems c_eval \<open>equations that evaluate the C-level helpers\<close>

type_synonym byte = "8 word"
type_synonym cint = "32 word"

abbreviation NUL :: char where
  "NUL \<equiv> CHR 0x00"

abbreviation newline :: string where
  "newline \<equiv> [CHR 0x0A]"

section \<open>C strings\<close>

text \<open>\<open>s[i]\<close> for an index up to and including the terminator.\<close>

definition char_at :: "string \<Rightarrow> nat \<Rightarrow> char" where
  "char_at s i = (if i < length s then s ! i else NUL)"

text \<open>The C string that starts at the beginning of a buffer.\<close>

definition c_str :: "char list \<Rightarrow> string" where
  "c_str buf = takeWhile (\<lambda>c. c \<noteq> NUL) buf"

text \<open>\<open>strncmp(a, b, n) == 0\<close> for two C strings.\<close>

definition strncmp_eq :: "string \<Rightarrow> string \<Rightarrow> nat \<Rightarrow> bool" where
  "strncmp_eq a b n \<longleftrightarrow> take n a = take n b"

text \<open>\<open>strchr(s, c)\<close> for a character other than NUL: the suffix that starts with it.\<close>

definition strchr :: "string \<Rightarrow> char \<Rightarrow> string option" where
  "strchr s c = (case dropWhile (\<lambda>x. x \<noteq> c) s of [] \<Rightarrow> None | t \<Rightarrow> Some t)"

text \<open>A \<open>char\<close> widened to \<open>int\<close>; \<open>char\<close> is signed on the x86-64 targets of the library.\<close>

definition int_of_c_char :: "char \<Rightarrow> int" where
  "int_of_c_char c = (let n = of_char c in if n < 128 then n else n - 256)"

definition is_c_string :: "string \<Rightarrow> bool" where
  "is_c_string s \<longleftrightarrow> NUL \<notin> set s"

lemma char_at_simps [simp, c_eval]:
  "char_at (c # s) 0 = c"
  "char_at [] i = NUL"
  "char_at (c # s) (Suc i) = char_at s i"
  by (simp_all add: char_at_def)

lemma char_at_one [simp]: "char_at (c # s) 1 = char_at s 0"
  by (simp add: char_at_def)

lemma char_at_0_neq_NUL: "is_c_string s \<Longrightarrow> (char_at s 0 = NUL) = (s = [])"
  by (cases s) (auto simp: is_c_string_def)

lemma is_c_string_Cons [simp]: "is_c_string (c # s) \<longleftrightarrow> c \<noteq> NUL \<and> is_c_string s"
  by (auto simp: is_c_string_def)

lemma is_c_string_Nil [simp]: "is_c_string []"
  by (simp add: is_c_string_def)

lemma c_str_append_NUL: "is_c_string s \<Longrightarrow> c_str (s @ NUL # rest) = s"
  unfolding c_str_def is_c_string_def
  by (subst takeWhile_append2) auto

text \<open>\<open>%u\<close> and \<open>%d\<close>.\<close>

fun decimal :: "nat \<Rightarrow> string" where
  "decimal n = (if n < 10 then [char_of (48 + n)] else decimal (n div 10) @ [char_of (48 + n mod 10)])"

declare decimal.simps [simp del]

definition signed_decimal :: "cint \<Rightarrow> string" where
  "signed_decimal w =
     (if sint w < 0 then CHR ''-'' # decimal (nat (- sint w)) else decimal (nat (sint w)))"

section \<open>Bytes and words\<close>

definition byte_of_char :: "char \<Rightarrow> byte" where
  "byte_of_char c = of_nat (of_char c)"

definition char_of_byte :: "byte \<Rightarrow> char" where
  "char_of_byte b = char_of (unat b)"

text \<open>The 32-bit value with the given bytes, the first the least significant (x86-64).\<close>

definition le32 :: "byte \<Rightarrow> byte \<Rightarrow> byte \<Rightarrow> byte \<Rightarrow> cint" where
  "le32 b0 b1 b2 b3 =
     word_of_nat (unat b0 + 256 * unat b1 + 65536 * unat b2 + 16777216 * unat b3)"

text \<open>The bytes of a 32-bit value in network order (what \<open>htonl\<close> and \<open>memcpy\<close> store).\<close>

definition be32_bytes :: "cint \<Rightarrow> byte list" where
  "be32_bytes w =
     [word_of_nat (unat w div 16777216), word_of_nat (unat w div 65536 mod 256),
      word_of_nat (unat w div 256 mod 256), word_of_nat (unat w mod 256)]"

text \<open>Signed 32-bit addition: overflow is undefined in C.\<close>

definition add_int32 :: "cint \<Rightarrow> cint \<Rightarrow> cint option" where
  "add_int32 a b =
     (let r = sint a + sint b in
      if - (2 ^ 31) \<le> r \<and> r < 2 ^ 31 then Some (word_of_int r) else None)"

lemma char_of_byte_of_char [simp]: "char_of_byte (byte_of_char c) = c"
proof -
  have "(of_char c :: nat) mod 256 < 256" by (rule mod_less_divisor) simp
  then have "(of_char c :: nat) < 256" by simp
  then have "unat (byte_of_char c) = of_char c"
    by (simp add: byte_of_char_def unsigned_of_nat take_bit_nat_eq_self)
  then show ?thesis by (simp add: char_of_byte_def)
qed

lemma length_be32_bytes [simp]: "length (be32_bytes w) = 4"
  by (simp add: be32_bytes_def)

lemma unat_byte [simp]: "n < 256 \<Longrightarrow> unat (word_of_nat n :: byte) = n"
  by (simp add: unsigned_of_nat take_bit_nat_eq_self)

lemma ucast_offset:
  "k < 2 ^ 32 \<Longrightarrow> (ucast (word_of_nat k :: cint) :: 64 word) = word_of_nat k"
  by (simp add: unsigned_of_nat take_bit_nat_eq_self)

lemma unat_offset: "k < 2 ^ 32 \<Longrightarrow> unat (word_of_nat k :: cint) = k"
  by (simp add: unsigned_of_nat take_bit_nat_eq_self)

lemma unat_memsz: "k < 2 ^ 64 \<Longrightarrow> unat (word_of_nat k :: 64 word) = k"
  by (simp add: unsigned_of_nat take_bit_nat_eq_self)

lemma sint_of_nat: "n < 2 ^ 31 \<Longrightarrow> sint (of_nat n :: cint) = int n"
  by (simp add: signed_of_nat signed_take_bit_int_eq_self)

end
