(* ===== verification/Argv_Shuffle.thy ===== *)
theory Argv_Shuffle
  imports Prelude
begin

text \<open>
  The first half of the option scanner of client/src/ogrt-cmdline.c (the reentrant copy
  of glibc's \<open>getopt_long\<close> that gengetopt puts into the file): the scanner's state
  \<open>custom_getopt_data\<close>, and \<open>exchange\<close>, \<open>custom_getopt_initialize\<close> and
  \<open>shuffle_argv\<close>, which permute the argument vector so that operands come after the
  options. A pointer into an argument is the suffix of the argument that it points to; a
  null pointer is \<open>None\<close>.
\<close>

section \<open>Data\<close>

text \<open>\<open>struct option\<close>; \<open>opt_flag\<close> is the address the pointer \<open>flag\<close> holds.\<close>

record option_desc =
  opt_name :: string
  has_arg :: int
  opt_flag :: "nat option"
  opt_val :: int

definition no_argument :: int where
  "no_argument = 0"

definition required_argument :: int where
  "required_argument = 1"

definition optional_argument :: int where
  "optional_argument = 2"

text \<open>
  \<open>struct custom_getopt_data\<close>. The four indices are C ints; the code keeps them between
  0 and \<open>argc\<close> (\<open>scanner_ok\<close> below), so they are natural numbers here.
\<close>

record getopt_data =
  custom_optind :: nat
  custom_opterr :: int
  custom_optopt :: int
  custom_optarg :: "string option"
  initialized :: bool
  nextchar :: "string option"
  first_nonopt :: nat
  last_nonopt :: nat

text \<open>
  What the scanner works on beside its data: the argument vector, the int that
  \<open>longind\<close> points to (\<open>None\<close> for a null \<open>longind\<close>), the ints that \<open>flag\<close> pointers
  point to, and what has been printed to \<open>stderr\<close>.
\<close>

record scanner = getopt_data +
  argv :: "string list"
  longind :: "int option"
  flagmem :: "nat \<Rightarrow> int"
  stderr_out :: string

text \<open>Reading \<open>argv[i]\<close> as a string: undefined past the last argument.\<close>

definition argv_at :: "'a scanner_scheme \<Rightarrow> nat \<Rightarrow> string option" where
  "argv_at s i = (if i < length (argv s) then Some (argv s ! i) else None)"

definition eprintf :: "string \<Rightarrow> 'a scanner_scheme \<Rightarrow> 'a scanner_scheme" where
  "eprintf msg s = s\<lparr>stderr_out := stderr_out s @ msg\<rparr>"

section \<open>Exchanging two adjacent runs of arguments\<close>

text \<open>The loop that swaps \<open>argv[a + i]\<close> and \<open>argv[b + i]\<close> for \<open>i\<close> up to \<open>len\<close>.\<close>

function swap_range :: "nat \<Rightarrow> nat \<Rightarrow> nat \<Rightarrow> nat \<Rightarrow> 'a list \<Rightarrow> 'a list option" where
  "swap_range i len a b xs =
     (if i < len then
        (if a + i < length xs \<and> b + i < length xs then
           swap_range (Suc i) len a b (xs[a + i := xs ! (b + i), b + i := xs ! (a + i)])
         else None)
      else Some xs)"
  by pat_completeness auto
termination
  by (relation "measure (\<lambda>(i, len, a, b, xs). len - i)") auto

declare swap_range.simps [simp del]

function exchange_loop :: "nat \<Rightarrow> nat \<Rightarrow> nat \<Rightarrow> 'a list \<Rightarrow> 'a list option" where
  "exchange_loop bottom middle tp xs =
     (if tp > middle \<and> middle > bottom then
        (if tp - middle > middle - bottom then
           (let len = middle - bottom in
            case swap_range 0 len bottom (tp - (middle - bottom)) xs of
              None \<Rightarrow> None
            | Some ys \<Rightarrow> exchange_loop bottom middle (tp - len) ys)
         else
           (let len = tp - middle in
            case swap_range 0 len bottom middle xs of
              None \<Rightarrow> None
            | Some ys \<Rightarrow> exchange_loop (bottom + len) middle tp ys))
      else Some xs)"
  by pat_completeness auto
termination
  by (relation "measure (\<lambda>(bottom, middle, tp, xs). tp - bottom)") auto

declare exchange_loop.simps [simp del]

definition exchange :: "'a scanner_scheme \<Rightarrow> 'a scanner_scheme option" where
  "exchange s = do {
     xs \<leftarrow> exchange_loop (first_nonopt s) (last_nonopt s) (custom_optind s) (argv s);
     Some (s\<lparr>argv := xs,
             first_nonopt := first_nonopt s + (custom_optind s - last_nonopt s),
             last_nonopt := custom_optind s\<rparr>)
   }"

section \<open>Finding the next option element\<close>

definition custom_getopt_initialize :: "'a scanner_scheme \<Rightarrow> 'a scanner_scheme" where
  "custom_getopt_initialize s =
     s\<lparr>last_nonopt := custom_optind s, first_nonopt := custom_optind s,
       nextchar := None, initialized := True\<rparr>"

definition nonoption :: "string \<Rightarrow> bool" where
  "nonoption a \<longleftrightarrow> char_at a 0 \<noteq> CHR ''-'' \<or> char_at a 1 = NUL"

text \<open>The macro \<open>NONOPTION_P\<close>.\<close>

definition nonoption_p :: "'a scanner_scheme \<Rightarrow> bool option" where
  "nonoption_p s = map_option nonoption (argv_at s (custom_optind s))"

text \<open>Lines 527 to 530: indices moved back by the caller.\<close>

definition shuffle_clamp :: "'a scanner_scheme \<Rightarrow> 'a scanner_scheme" where
  "shuffle_clamp s =
     (let s1 = (if last_nonopt s > custom_optind s
                then s\<lparr>last_nonopt := custom_optind s\<rparr> else s)
      in if first_nonopt s1 > custom_optind s1
         then s1\<lparr>first_nonopt := custom_optind s1\<rparr> else s1)"

text \<open>Lines 535 to 539: options processed after non-options are moved before them.\<close>

definition shuffle_exchange :: "'a scanner_scheme \<Rightarrow> 'a scanner_scheme option" where
  "shuffle_exchange s =
     (if first_nonopt s \<noteq> last_nonopt s \<and> last_nonopt s \<noteq> custom_optind s then exchange s
      else if last_nonopt s \<noteq> custom_optind s
      then Some (s\<lparr>first_nonopt := custom_optind s\<rparr>)
      else Some s)"

text \<open>Lines 544 and 545.\<close>

function skip_nonoptions :: "nat \<Rightarrow> 'a scanner_scheme \<Rightarrow> 'a scanner_scheme option" where
  "skip_nonoptions argc s =
     (if custom_optind s < argc then
        (case nonoption_p s of
           None \<Rightarrow> None
         | Some b \<Rightarrow>
             if b then skip_nonoptions argc (s\<lparr>custom_optind := Suc (custom_optind s)\<rparr>)
             else Some s)
      else Some s)"
  by pat_completeness auto
termination
  by (relation "measure (\<lambda>(argc, s). argc - custom_optind s)") auto

declare skip_nonoptions.simps [simp del]

text \<open>Lines 552 to 561: the argument \<open>--\<close> ends the options.\<close>

definition shuffle_dashdash :: "nat \<Rightarrow> 'a scanner_scheme \<Rightarrow> 'a scanner_scheme option" where
  "shuffle_dashdash argc s =
     (if custom_optind s \<noteq> argc then do {
        a \<leftarrow> argv_at s (custom_optind s);
        (if a = ''--'' then do {
           let s1 = s\<lparr>custom_optind := Suc (custom_optind s)\<rparr>;
           s2 \<leftarrow> (if first_nonopt s1 \<noteq> last_nonopt s1 \<and> last_nonopt s1 \<noteq> custom_optind s1
                 then exchange s1
                 else if first_nonopt s1 = last_nonopt s1
                 then Some (s1\<lparr>first_nonopt := custom_optind s1\<rparr>)
                 else Some s1);
           Some (s2\<lparr>last_nonopt := argc, custom_optind := argc\<rparr>)
         } else Some s)
      } else Some s)"

text \<open>Lines 566 to 588: no argument left, a non-option, or the next option element.\<close>

definition shuffle_finish ::
    "nat \<Rightarrow> bool \<Rightarrow> 'a scanner_scheme \<Rightarrow> (int \<times> 'a scanner_scheme) option" where
  "shuffle_finish argc has_longopts s =
     (if custom_optind s = argc then
        Some (-1, if first_nonopt s \<noteq> last_nonopt s
                  then s\<lparr>custom_optind := first_nonopt s\<rparr> else s)
      else do {
        a \<leftarrow> argv_at s (custom_optind s);
        (if nonoption a then
           Some (1, s\<lparr>custom_optarg := Some a, custom_optind := Suc (custom_optind s)\<rparr>)
         else
           Some (0, s\<lparr>nextchar :=
              Some (drop (1 + (if has_longopts \<and> char_at a 1 = CHR ''-'' then 1 else 0)) a)\<rparr>))
      })"

definition shuffle_argv ::
    "nat \<Rightarrow> bool \<Rightarrow> 'a scanner_scheme \<Rightarrow> (int \<times> 'a scanner_scheme) option" where
  "shuffle_argv argc has_longopts s = do {
     s2 \<leftarrow> shuffle_exchange (shuffle_clamp s);
     s3 \<leftarrow> skip_nonoptions argc s2;
     s4 \<leftarrow> shuffle_dashdash argc (s3\<lparr>last_nonopt := custom_optind s3\<rparr>);
     shuffle_finish argc has_longopts s4
   }"

section \<open>Correctness of the exchange\<close>

lemma swap_range_append:
  assumes "length V = length U" and "length P = a + i" and "length P + length U + length M = b + i"
  shows "swap_range i (i + length U) a b (P @ U @ M @ V @ S) = Some (P @ V @ M @ U @ S)"
  using assms
proof (induction U arbitrary: i P V M)
  case Nil
  then show ?case by (simp add: swap_range.simps)
next
  case (Cons u U)
  then obtain v V' where V: "V = v # V'" and len: "length V' = length U"
    by (cases V) auto
  have ai: "a + i = length P" and bi: "b + i = length (P @ (u # U) @ M)"
    using Cons.prems(2,3) by simp_all
  have upd: "(P @ (u # U) @ M @ (v # V') @ S)[a + i := v, b + i := u]
      = (P @ [v]) @ U @ (M @ [u]) @ V' @ S"
    unfolding ai bi by (simp add: list_update_append)
  have nth: "(P @ (u # U) @ M @ (v # V') @ S) ! (a + i) = u"
    "(P @ (u # U) @ M @ (v # V') @ S) ! (b + i) = v"
    unfolding ai bi by (simp_all add: nth_append)
  have "swap_range (Suc i) (Suc i + length U) a b ((P @ [v]) @ U @ (M @ [u]) @ V' @ S)
      = Some ((P @ [v]) @ V' @ (M @ [u]) @ U @ S)"
    by (rule Cons.IH) (use Cons.prems len in simp_all)
  then show ?case
    using Cons.prems nth upd V by (subst swap_range.simps) simp
qed

lemma exchange_loop_append:
  "exchange_loop (length P) (length P + length A) (length P + length A + length B) (P @ A @ B @ S)
     = Some (P @ B @ A @ S)"
proof (induction "length A + length B" arbitrary: P A B S rule: less_induct)
  case less
  consider "A = [] \<or> B = []" | "A \<noteq> []" "length A < length B"
    | "A \<noteq> []" "B \<noteq> []" "length B \<le> length A"
    by force
  then show ?case
  proof cases
    case 1
    then show ?thesis by (auto simp: exchange_loop.simps)
  next
    case 2
    define B1 where "B1 = take (length B - length A) B"
    define B2 where "B2 = drop (length B - length A) B"
    have B: "B = B1 @ B2" and len: "length B2 = length A" "length B1 \<noteq> 0"
      using 2 by (simp_all add: B1_def B2_def)
    have "swap_range 0 (length A) (length P) (length P + length B1 + length A) (P @ A @ B1 @ B2 @ S)
        = Some (P @ B2 @ B1 @ A @ S)"
      using swap_range_append [of B2 A P "length P" 0 B1 "length P + length B1 + length A" S] len
      by (simp add: B)
    moreover have "exchange_loop (length P) (length P + length B2)
        (length P + length B2 + length B1) (P @ B2 @ B1 @ A @ S) = Some (P @ B1 @ B2 @ A @ S)"
      by (rule less) (use 2 len in \<open>simp add: B\<close>)
    ultimately show ?thesis
      using 2 len by (subst exchange_loop.simps) (simp add: B algebra_simps)
  next
    case 3
    define A1 where "A1 = take (length B) A"
    define A2 where "A2 = drop (length B) A"
    have A: "A = A1 @ A2" and len: "length A1 = length B"
      using 3 by (simp_all add: A1_def A2_def)
    have "swap_range 0 (length B) (length P) (length P + length A) (P @ A1 @ A2 @ B @ S)
        = Some (P @ B @ A2 @ A1 @ S)"
      using swap_range_append [of B A1 P "length P" 0 A2 "length P + length A" S] len
      by (simp add: A algebra_simps)
    moreover have "exchange_loop (length (P @ B)) (length (P @ B) + length A2)
        (length (P @ B) + length A2 + length A1) ((P @ B) @ A2 @ A1 @ S)
        = Some ((P @ B) @ A1 @ A2 @ S)"
      by (rule less) (use 3 len in \<open>simp add: A\<close>)
    ultimately show ?thesis
      using 3 len by (subst exchange_loop.simps) (simp add: A algebra_simps)
  qed
qed

section \<open>The three runs of arguments\<close>

text \<open>
  Between calls the argument vector is the options consumed so far, the operands skipped
  so far (they may stand in the middle of the consumed options) and the rest.
\<close>

definition scanner_ok :: "nat \<Rightarrow> 'a scanner_scheme \<Rightarrow> bool" where
  "scanner_ok argc s \<longleftrightarrow>
     length (argv s) = argc \<and> first_nonopt s \<le> last_nonopt s
     \<and> last_nonopt s \<le> custom_optind s \<and> custom_optind s \<le> argc"

definition consumed :: "'a scanner_scheme \<Rightarrow> string list" where
  "consumed s = take (first_nonopt s) (argv s)
     @ drop (last_nonopt s) (take (custom_optind s) (argv s))"

definition skipped :: "'a scanner_scheme \<Rightarrow> string list" where
  "skipped s = drop (first_nonopt s) (take (last_nonopt s) (argv s))"

definition remaining :: "'a scanner_scheme \<Rightarrow> string list" where
  "remaining s = drop (custom_optind s) (argv s)"

lemma split_at_two:
  assumes "i \<le> j"
  shows "take i xs @ drop i (take j xs) = take j xs"
  using assms by (metis append_take_drop_id min.absorb1 take_take)

lemma scanner_segments:
  assumes "scanner_ok argc s"
  shows "argv s = take (first_nonopt s) (argv s) @ skipped s
           @ drop (last_nonopt s) (take (custom_optind s) (argv s)) @ remaining s"
    and "length (skipped s) = last_nonopt s - first_nonopt s"
    and "length (consumed s) = custom_optind s - length (skipped s)"
    and "length (consumed s) + length (skipped s) = custom_optind s"
    and "length (remaining s) = argc - custom_optind s"
  using assms
  by (simp_all add: scanner_ok_def skipped_def consumed_def remaining_def split_at_two
        flip: append_assoc)

lemma exchange_ok:
  assumes "scanner_ok argc s"
  shows "exchange s = Some (s\<lparr>argv := consumed s @ skipped s @ remaining s,
      first_nonopt := length (consumed s), last_nonopt := custom_optind s\<rparr>)"
proof -
  let ?P = "take (first_nonopt s) (argv s)"
  let ?B = "drop (last_nonopt s) (take (custom_optind s) (argv s))"
  have len: "length ?P = first_nonopt s" "length (skipped s) = last_nonopt s - first_nonopt s"
    "length ?B = custom_optind s - last_nonopt s"
    "first_nonopt s \<le> last_nonopt s" "last_nonopt s \<le> custom_optind s"
    using assms by (simp_all add: scanner_ok_def skipped_def)
  have "exchange_loop (length ?P) (length ?P + length (skipped s))
      (length ?P + length (skipped s) + length ?B) (?P @ skipped s @ ?B @ remaining s)
      = Some (?P @ ?B @ skipped s @ remaining s)"
    by (rule exchange_loop_append)
  then have "exchange_loop (first_nonopt s) (last_nonopt s) (custom_optind s) (argv s)
      = Some (?P @ ?B @ skipped s @ remaining s)"
    using len by (simp flip: scanner_segments(1) [OF assms])
  moreover have "length (consumed s) = first_nonopt s + (custom_optind s - last_nonopt s)"
    using len unfolding consumed_def by simp
  ultimately show ?thesis
    by (simp add: exchange_def consumed_def)
qed

lemma shuffle_exchange_ok:
  assumes "scanner_ok argc s"
  obtains l where "shuffle_exchange (shuffle_clamp s)
    = Some (s\<lparr>argv := consumed s @ skipped s @ remaining s,
              first_nonopt := length (consumed s), last_nonopt := l\<rparr>)"
proof -
  have clamp: "shuffle_clamp s = s"
    using assms by (simp add: shuffle_clamp_def scanner_ok_def)
  consider "first_nonopt s \<noteq> last_nonopt s \<and> last_nonopt s \<noteq> custom_optind s"
    | "first_nonopt s = last_nonopt s" "last_nonopt s \<noteq> custom_optind s"
    | "last_nonopt s = custom_optind s"
    by blast
  then show thesis
  proof cases
    case 1
    then show thesis
      using that exchange_ok [OF assms] by (simp add: shuffle_exchange_def clamp)
  next
    case 2
    then have "skipped s = []" and "length (consumed s) = custom_optind s"
      using scanner_segments [OF assms] by simp_all
    moreover have "consumed s @ remaining s = argv s"
      using 2 assms by (simp add: consumed_def remaining_def scanner_ok_def split_at_two
          flip: append_assoc)
    ultimately show thesis
      using that [of "last_nonopt s"] 2 by (simp add: shuffle_exchange_def clamp)
  next
    case 3
    then have "consumed s @ skipped s @ remaining s = argv s"
      and "length (consumed s) = first_nonopt s"
      using assms by (simp_all add: consumed_def skipped_def remaining_def scanner_ok_def
          split_at_two flip: append_assoc)
    with 3 show thesis
      using that [of "last_nonopt s"] by (simp add: shuffle_exchange_def clamp)
  qed
qed

lemma skip_nonoptions_ok:
  assumes "length (argv s) = argc" and "custom_optind s \<le> argc"
  shows "skip_nonoptions argc s = Some (s\<lparr>custom_optind :=
     custom_optind s + length (takeWhile nonoption (remaining s))\<rparr>)"
  using assms
proof (induction argc s rule: skip_nonoptions.induct)
  case (1 argc s)
  show ?case
  proof (cases "custom_optind s < argc")
    case True
    then have rem: "remaining s = argv s ! custom_optind s # drop (Suc (custom_optind s)) (argv s)"
      using "1.prems" by (simp add: remaining_def Cons_nth_drop_Suc)
    have np: "nonoption_p s = Some (nonoption (argv s ! custom_optind s))"
      using True "1.prems" by (simp add: nonoption_p_def argv_at_def)
    show ?thesis
    proof (cases "nonoption (argv s ! custom_optind s)")
      case yes: True
      have "skip_nonoptions argc (s\<lparr>custom_optind := Suc (custom_optind s)\<rparr>) = Some (s\<lparr>custom_optind :=
          Suc (custom_optind s) + length (takeWhile nonoption (drop (Suc (custom_optind s)) (argv s)))\<rparr>)"
        using "1.IH" [OF True np yes] "1.prems" True by (simp add: remaining_def)
      then show ?thesis
        using True np yes rem by (subst skip_nonoptions.simps) simp
    next
      case False
      then show ?thesis using True np rem by (subst skip_nonoptions.simps) simp
    qed
  next
    case False
    then show ?thesis
      using "1.prems" by (subst skip_nonoptions.simps) (simp add: remaining_def)
  qed
qed

section \<open>What one call of the shuffle does\<close>

lemma shuffle_finish_end:
  assumes "custom_optind s = argc" and "last_nonopt s = argc"
  shows "shuffle_finish argc lo s = Some (-1, s\<lparr>custom_optind := first_nonopt s\<rparr>)"
  using assms by (cases s) (auto simp: shuffle_finish_def)

lemma shuffle_tail_end:
  assumes "length (argv s) = argc" and "custom_optind s = argc" and "last_nonopt s = argc"
  shows "shuffle_dashdash argc s \<bind> shuffle_finish argc lo
    = Some (-1, s\<lparr>custom_optind := first_nonopt s\<rparr>)"
  using assms by (simp add: shuffle_dashdash_def shuffle_finish_end)

lemma shuffle_dashdash_ok:
  assumes "argv s = C @ K @ ''--'' # R" and "argc = length (argv s)"
    and "first_nonopt s = length C" and "last_nonopt s = length C + length K"
    and "custom_optind s = length C + length K"
  shows "shuffle_dashdash argc s = Some (s\<lparr>argv := C @ ''--'' # K @ R,
    first_nonopt := Suc (length C), last_nonopt := argc, custom_optind := argc\<rparr>)"
proof (cases "K = []")
  case True
  with assms show ?thesis
    by (simp add: shuffle_dashdash_def argv_at_def nth_append)
next
  case False
  let ?s = "s\<lparr>custom_optind := Suc (length C + length K)\<rparr>"
  have "scanner_ok argc ?s"
    using assms by (simp add: scanner_ok_def)
  then have "exchange ?s = Some (?s\<lparr>argv := consumed ?s @ skipped ?s @ remaining ?s,
      first_nonopt := length (consumed ?s), last_nonopt := custom_optind ?s\<rparr>)"
    by (rule exchange_ok)
  then have "exchange ?s = Some (?s\<lparr>argv := C @ ''--'' # K @ R,
      first_nonopt := Suc (length C), last_nonopt := Suc (length C + length K)\<rparr>)"
    using assms by (simp add: consumed_def skipped_def remaining_def)
  then show ?thesis
    using assms False by (simp add: shuffle_dashdash_def argv_at_def nth_append)
qed

lemma shuffle_tail_option:
  assumes "argv s = C @ K @ a # R" and "argc = length (argv s)"
    and "custom_optind s = length C + length K" and "\<not> nonoption a" and "a \<noteq> ''--''"
  shows "shuffle_dashdash argc s \<bind> shuffle_finish argc lo = Some (0, s\<lparr>nextchar :=
    Some (drop (1 + (if lo \<and> char_at a 1 = CHR ''-'' then 1 else 0)) a)\<rparr>)"
proof -
  have "argv_at s (custom_optind s) = Some a" and "custom_optind s \<noteq> argc"
    using assms by (simp_all add: argv_at_def nth_append)
  then show ?thesis
    using assms by (simp add: shuffle_dashdash_def shuffle_finish_def)
qed

lemma shuffle_argv_eq:
  assumes "scanner_ok argc s"
    and "K = skipped s @ takeWhile nonoption (remaining s)"
    and "R = dropWhile nonoption (remaining s)"
    and "C = consumed s"
  shows "shuffle_argv argc lo s = Some (case R of
      [] \<Rightarrow> (-1, s\<lparr>argv := C @ K, first_nonopt := length C,
                  last_nonopt := argc, custom_optind := length C\<rparr>)
    | a # R' \<Rightarrow>
        if a = ''--''
        then (-1, s\<lparr>argv := C @ ''--'' # K @ R', first_nonopt := Suc (length C),
                    last_nonopt := argc, custom_optind := Suc (length C)\<rparr>)
        else (0, s\<lparr>argv := C @ K @ R, first_nonopt := length C,
                   last_nonopt := length C + length K, custom_optind := length C + length K,
                   nextchar := Some (drop (1 + (if lo \<and> char_at a 1 = CHR ''-'' then 1 else 0)) a)\<rparr>))"
proof -
  obtain l where ex: "shuffle_exchange (shuffle_clamp s)
      = Some (s\<lparr>argv := C @ skipped s @ remaining s, first_nonopt := length C, last_nonopt := l\<rparr>)"
    (is "_ = Some ?s2")
    using shuffle_exchange_ok [OF assms(1)] assms(4) by blast
  have seg: "length C + length (skipped s) = custom_optind s"
      "length (remaining s) = argc - custom_optind s" "custom_optind s \<le> argc"
    using scanner_segments [OF assms(1)] assms by (simp_all add: scanner_ok_def)
  have rem2: "remaining ?s2 = remaining s"
    using seg by (simp add: remaining_def [of "s\<lparr>argv := _, first_nonopt := _, last_nonopt := _\<rparr>"])
  have len: "length (argv ?s2) = argc"
    using seg by simp
  have "length C + length K
      = custom_optind s + length (takeWhile nonoption (remaining s))"
    using seg assms(2) by simp
  then have skip: "skip_nonoptions argc ?s2 = Some (?s2\<lparr>custom_optind := length C + length K\<rparr>)"
    using skip_nonoptions_ok [OF len] seg rem2 by simp
  have KR: "skipped s @ remaining s = K @ R"
    using assms(2,3) by simp
  let ?s3 = "s\<lparr>argv := C @ K @ R, first_nonopt := length C,
      last_nonopt := length C + length K, custom_optind := length C + length K\<rparr>"
  have total: "argc = length C + length K + length R"
    using len KR by (metis add.assoc length_append scanner.select_convs(1) scanner.surjective
        scanner.update_convs(1) getopt_data.update_convs)
  have swap: "t\<lparr>custom_optind := i, last_nonopt := j\<rparr> = t\<lparr>last_nonopt := j, custom_optind := i\<rparr>"
    for t :: "'a scanner_scheme" and i j
    by (cases t) simp
  have main: "shuffle_argv argc lo s = shuffle_dashdash argc ?s3 \<bind> shuffle_finish argc lo"
    by (simp add: shuffle_argv_def ex [unfolded KR] skip [unfolded KR] swap)
  show ?thesis
  proof (cases R)
    case Nil
    then show ?thesis
      unfolding main using total by (subst shuffle_tail_end) simp_all
  next
    case (Cons a R')
    show ?thesis
    proof (cases "a = ''--''")
      case True
      then have "shuffle_dashdash argc ?s3 = Some (s\<lparr>argv := C @ ''--'' # K @ R',
          first_nonopt := Suc (length C), last_nonopt := argc, custom_optind := argc\<rparr>)"
        using Cons total by (subst shuffle_dashdash_ok) simp_all
      then show ?thesis
        unfolding main using Cons True by (simp add: shuffle_finish_end)
    next
      case False
      have "\<not> nonoption a"
        using Cons assms(3) by (metis hd_dropWhile list.distinct(1) list.sel(1))
      then have "shuffle_dashdash argc ?s3 \<bind> shuffle_finish argc lo = Some (0, ?s3\<lparr>nextchar :=
          Some (drop (1 + (if lo \<and> char_at a 1 = CHR ''-'' then 1 else 0)) a)\<rparr>)"
        using False Cons total by (intro shuffle_tail_option) simp_all
      then show ?thesis
        unfolding main using Cons False by simp
    qed
  qed
qed

end
