(* ===== verification/Getopt.thy ===== *)
theory Getopt
  imports Argv_Shuffle
begin

text \<open>
  The second half of the option scanner of client/src/ogrt-cmdline.c:
  \<open>check_long_opt\<close>, \<open>check_short_opt\<close>, \<open>getopt_internal_r\<close> and the wrappers
  around it, in the order of the source.
\<close>

section \<open>Long options\<close>

text \<open>
  The search of lines 617 to 635: the entry found with its index, whether the match is
  exact, and whether two different entries have the given name as an abbreviation.
\<close>

fun match_long ::
    "option_desc list \<Rightarrow> nat \<Rightarrow> string \<Rightarrow> nat \<Rightarrow> (option_desc \<times> nat) option \<Rightarrow> bool
     \<Rightarrow> (option_desc \<times> nat) option \<times> bool \<times> bool" where
  "match_long [] option_index nc n pfound ambig = (pfound, False, ambig)"
| "match_long (p # ps) option_index nc n pfound ambig =
     (if strncmp_eq (opt_name p) nc n then
        (if (word_of_nat n :: cint) = word_of_nat (length (opt_name p))
         then (Some (p, option_index), True, ambig)
         else
           (case pfound of
              None \<Rightarrow> match_long ps (Suc option_index) nc n (Some (p, option_index)) ambig
            | Some (q, j) \<Rightarrow>
                match_long ps (Suc option_index) nc n pfound
                  (ambig \<or> has_arg q \<noteq> has_arg p \<or> opt_flag q \<noteq> opt_flag p
                   \<or> opt_val q \<noteq> opt_val p)))
      else match_long ps (Suc option_index) nc n pfound ambig)"

definition qmark :: int where
  "qmark = 63"

text \<open>Lines 636 to 646.\<close>

definition long_ambiguous :: "bool \<Rightarrow> 'a scanner_scheme \<Rightarrow> (int \<times> 'a scanner_scheme) option" where
  "long_ambiguous print_errors s = do {
     prog \<leftarrow> argv_at s 0;
     a \<leftarrow> argv_at s (custom_optind s);
     let s1 = (if print_errors
       then eprintf (prog @ '': option `'' @ a @ [CHR 0x27] @ '' is ambiguous'' @ newline) s
       else s);
     Some (qmark, s1\<lparr>nextchar := Some [], custom_optind := Suc (custom_optind s1),
                     custom_optopt := 0\<rparr>)
   }"

text \<open>Lines 666 to 668 and 680 to 682: a known option that is used wrongly.\<close>

definition long_misused ::
    "option_desc \<Rightarrow> int \<Rightarrow> 'a scanner_scheme \<Rightarrow> (int \<times> 'a scanner_scheme) option" where
  "long_misused p r s = Some (r, s\<lparr>nextchar := Some [], custom_optopt := opt_val p\<rparr>)"

text \<open>The message of lines 654 to 665; \<open>s\<close> has already passed the element.\<close>

definition long_no_arg_message ::
    "option_desc \<Rightarrow> bool \<Rightarrow> 'a scanner_scheme \<Rightarrow> 'a scanner_scheme option" where
  "long_no_arg_message p print_errors s = do {
     prog \<leftarrow> argv_at s 0;
     a \<leftarrow> argv_at s (custom_optind s - 1);
     Some (if print_errors then
        (if char_at a 1 = CHR ''-''
         then eprintf (prog @ '': option `--'' @ opt_name p @ [CHR 0x27]
                @ '' doesn'' @ [CHR 0x27] @ ''t allow an argument'' @ newline) s
         else eprintf (prog @ '': option `'' @ [char_at a 0] @ opt_name p @ [CHR 0x27]
                @ '' doesn'' @ [CHR 0x27] @ ''t allow an argument'' @ newline) s)
      else s)
   }"

text \<open>Lines 670 to 684: the argument of an option that requires one.\<close>

definition long_take_arg ::
    "nat \<Rightarrow> 'a scanner_scheme \<Rightarrow> bool \<times> 'a scanner_scheme" where
  "long_take_arg argc s =
     (if custom_optind s < argc
      then (True, s\<lparr>custom_optarg := argv_at s (custom_optind s),
                    custom_optind := Suc (custom_optind s)\<rparr>)
      else (False, s))"

definition long_missing_arg_message ::
    "bool \<Rightarrow> 'a scanner_scheme \<Rightarrow> 'a scanner_scheme option" where
  "long_missing_arg_message print_errors s = do {
     prog \<leftarrow> argv_at s 0;
     a \<leftarrow> argv_at s (custom_optind s - 1);
     Some (if print_errors
       then eprintf (prog @ '': option `'' @ a @ [CHR 0x27] @ '' requires an argument'' @ newline) s
       else s)
   }"

text \<open>Lines 685 to 692: the option is reported to the caller.\<close>

definition long_report ::
    "option_desc \<Rightarrow> nat \<Rightarrow> 'a scanner_scheme \<Rightarrow> (int \<times> 'a scanner_scheme) option" where
  "long_report p option_index s =
     (let s1 = s\<lparr>nextchar := Some [],
                 longind := map_option (\<lambda>_. int option_index) (longind s)\<rparr>
      in case opt_flag p of
           Some a \<Rightarrow> Some (0, s1\<lparr>flagmem := (flagmem s1)(a := opt_val p)\<rparr>)
         | None \<Rightarrow> Some (opt_val p, s1))"

text \<open>Lines 647 to 693; \<open>nameend\<close> is the rest of the element after the name.\<close>

definition long_found ::
    "nat \<Rightarrow> string \<Rightarrow> bool \<Rightarrow> option_desc \<Rightarrow> nat \<Rightarrow> string
     \<Rightarrow> 'a scanner_scheme \<Rightarrow> (int \<times> 'a scanner_scheme) option" where
  "long_found argc optstring print_errors p option_index nameend s =
     (let s1 = s\<lparr>custom_optind := Suc (custom_optind s)\<rparr> in
      if nameend \<noteq> [] then
        (if has_arg p \<noteq> no_argument
         then long_report p option_index (s1\<lparr>custom_optarg := Some (tl nameend)\<rparr>)
         else do {
           s2 \<leftarrow> long_no_arg_message p print_errors s1;
           long_misused p qmark s2
         })
      else if has_arg p = required_argument then
        (case long_take_arg argc s1 of
           (True, s2) \<Rightarrow> long_report p option_index s2
         | (False, s2) \<Rightarrow> do {
             s3 \<leftarrow> long_missing_arg_message print_errors s2;
             long_misused p (if char_at optstring 0 = CHR '':'' then 58 else qmark) s3
           })
      else long_report p option_index s1)"

text \<open>Lines 699 to 716.\<close>

definition long_unknown :: "bool \<Rightarrow> 'a scanner_scheme \<Rightarrow> (int \<times> 'a scanner_scheme) option" where
  "long_unknown print_errors s = do {
     prog \<leftarrow> argv_at s 0;
     a \<leftarrow> argv_at s (custom_optind s);
     nc \<leftarrow> nextchar s;
     let s1 = (if print_errors then
       (if char_at a 1 = CHR ''-''
        then eprintf (prog @ '': unrecognized option `--'' @ nc @ [CHR 0x27] @ newline) s
        else eprintf (prog @ '': unrecognized option `'' @ [char_at a 0] @ nc @ [CHR 0x27] @ newline) s)
       else s);
     Some (qmark, s1\<lparr>nextchar := Some [], custom_optind := Suc (custom_optind s1),
                     custom_optopt := 0\<rparr>)
   }"

definition check_long_opt ::
    "nat \<Rightarrow> string \<Rightarrow> option_desc list \<Rightarrow> bool \<Rightarrow> 'a scanner_scheme
     \<Rightarrow> (int \<times> 'a scanner_scheme) option" where
  "check_long_opt argc optstring longopts print_errors s = do {
     nc \<leftarrow> nextchar s;
     let nameend = dropWhile (\<lambda>c. c \<noteq> CHR ''='') nc;
     let n = length nc - length nameend;
     (case match_long longopts 0 nc n None False of
        (pfound, exact, ambig) \<Rightarrow>
          if ambig \<and> \<not> exact then long_ambiguous print_errors s
          else (case pfound of
                  Some (p, i) \<Rightarrow> long_found argc optstring print_errors p i nameend s
                | None \<Rightarrow> long_unknown print_errors s))
   }"

section \<open>Short options\<close>

text \<open>Lines 735 to 774: an option character that accepts or requires an argument.\<close>

definition short_optional_arg :: "'a scanner_scheme \<Rightarrow> string \<Rightarrow> 'a scanner_scheme" where
  "short_optional_arg s rest =
     (if rest \<noteq> []
      then s\<lparr>custom_optarg := Some rest, custom_optind := Suc (custom_optind s), nextchar := None\<rparr>
      else s\<lparr>custom_optarg := None, nextchar := None\<rparr>)"

definition short_required_arg ::
    "nat \<Rightarrow> string \<Rightarrow> bool \<Rightarrow> char \<Rightarrow> 'a scanner_scheme \<Rightarrow> string
     \<Rightarrow> (int \<times> 'a scanner_scheme) option" where
  "short_required_arg argc optstring print_errors c s rest =
     (if rest \<noteq> []
      then Some (int_of_c_char c,
        s\<lparr>custom_optarg := Some rest, custom_optind := Suc (custom_optind s), nextchar := None\<rparr>)
      else if custom_optind s = argc then do {
        prog \<leftarrow> argv_at s 0;
        let s1 = (if print_errors
          then eprintf (prog @ '': option requires an argument -- '' @ [c] @ newline) s else s);
        Some (if char_at optstring 0 = CHR '':'' then 58 else qmark,
              s1\<lparr>custom_optopt := int_of_c_char c, nextchar := None\<rparr>)
      } else do {
        a \<leftarrow> argv_at s (custom_optind s);
        Some (int_of_c_char c,
          s\<lparr>custom_optarg := Some a, custom_optind := Suc (custom_optind s), nextchar := None\<rparr>)
      })"

text \<open>Lines 728 to 734.\<close>

definition short_invalid ::
    "bool \<Rightarrow> char \<Rightarrow> 'a scanner_scheme \<Rightarrow> (int \<times> 'a scanner_scheme) option" where
  "short_invalid print_errors c s = do {
     prog \<leftarrow> argv_at s 0;
     Some (qmark, (if print_errors
         then eprintf (prog @ '': invalid option -- '' @ [c] @ newline) s else s)
       \<lparr>custom_optopt := int_of_c_char c\<rparr>)
   }"

text \<open>Lines 728 to 775, once the character has been passed.\<close>

definition short_dispatch ::
    "nat \<Rightarrow> string \<Rightarrow> bool \<Rightarrow> char \<Rightarrow> string \<Rightarrow> 'a scanner_scheme
     \<Rightarrow> (int \<times> 'a scanner_scheme) option" where
  "short_dispatch argc optstring print_errors c rest s =
     (case strchr optstring c of
        None \<Rightarrow> short_invalid print_errors c s
      | Some temp \<Rightarrow>
          if c = CHR '':'' then short_invalid print_errors c s
          else if char_at temp 1 = CHR '':'' then
            (if char_at temp 2 = CHR '':''
             then Some (int_of_c_char c, short_optional_arg s rest)
             else short_required_arg argc optstring print_errors c s rest)
          else Some (int_of_c_char c, s))"

definition check_short_opt ::
    "nat \<Rightarrow> string \<Rightarrow> bool \<Rightarrow> 'a scanner_scheme \<Rightarrow> (int \<times> 'a scanner_scheme) option" where
  "check_short_opt argc optstring print_errors s =
     (case nextchar s of
        Some (c # rest) \<Rightarrow>
          short_dispatch argc optstring print_errors c rest
            (if rest = []
             then s\<lparr>nextchar := Some rest, custom_optind := Suc (custom_optind s)\<rparr>
             else s\<lparr>nextchar := Some rest\<rparr>)
      | _ \<Rightarrow> None)"

section \<open>One call of the scanner\<close>

text \<open>Lines 874 to 877.\<close>

definition getopt_dispatch ::
    "nat \<Rightarrow> string \<Rightarrow> option_desc list option \<Rightarrow> bool \<Rightarrow> 'a scanner_scheme
     \<Rightarrow> (int \<times> 'a scanner_scheme) option" where
  "getopt_dispatch argc optstring longopts print_errors s =
     (case longopts of
        Some opts \<Rightarrow> do {
          a \<leftarrow> argv_at s (custom_optind s);
          (if char_at a 1 = CHR ''-''
           then check_long_opt argc optstring opts print_errors s
           else check_short_opt argc optstring print_errors s)
        }
      | None \<Rightarrow> check_short_opt argc optstring print_errors s)"

definition getopt_internal_r ::
    "nat \<Rightarrow> string \<Rightarrow> option_desc list option \<Rightarrow> 'a scanner_scheme
     \<Rightarrow> (int \<times> 'a scanner_scheme) option" where
  "getopt_internal_r argc optstring longopts s =
     (let print_errors = (custom_opterr s \<noteq> 0 \<and> char_at optstring 0 \<noteq> CHR '':'') in
      if argc < 1 then Some (-1, s)
      else do {
        let s1 = s\<lparr>custom_optarg := None\<rparr>;
        let s2 = (if custom_optind s1 = 0 \<or> \<not> initialized s1
          then custom_getopt_initialize
                 (if custom_optind s1 = 0 then s1\<lparr>custom_optind := 1\<rparr> else s1)
          else s1);
        (r, s3) \<leftarrow> (if nextchar s2 = None \<or> nextchar s2 = Some []
          then shuffle_argv argc (longopts \<noteq> None) s2 else Some (0, s2));
        (if r \<noteq> 0 then Some (r, s3)
         else getopt_dispatch argc optstring longopts print_errors s3)
      })"

text \<open>
  The file's static variables \<open>custom_optarg\<close> etc., and the wrapper that passes them to
  the scanner's own static data and back.
\<close>

record getopt_globals = scanner +
  glob_optarg :: "string option"
  glob_optind :: nat
  glob_opterr :: int
  glob_optopt :: int

definition custom_getopt_internal ::
    "nat \<Rightarrow> string \<Rightarrow> option_desc list option \<Rightarrow> 'a getopt_globals_scheme
     \<Rightarrow> (int \<times> 'a getopt_globals_scheme) option" where
  "custom_getopt_internal argc optstring longopts s = do {
     (result, s1) \<leftarrow> getopt_internal_r argc optstring longopts
        (s\<lparr>custom_optind := glob_optind s, custom_opterr := glob_opterr s\<rparr>);
     Some (result, s1\<lparr>glob_optind := custom_optind s1, glob_optarg := custom_optarg s1,
                       glob_optopt := custom_optopt s1\<rparr>)
   }"

definition custom_getopt_long ::
    "nat \<Rightarrow> string \<Rightarrow> option_desc list \<Rightarrow> 'a getopt_globals_scheme
     \<Rightarrow> (int \<times> 'a getopt_globals_scheme) option" where
  "custom_getopt_long argc options long_options s =
     custom_getopt_internal argc options (Some long_options) s"

end
