(* ===== verification/Token_Loop.thy ===== *)
theory Token_Loop
  imports Prelude
begin

text \<open>
  The shape of the parser's loop, and the interface between a source that reports tokens
  (the option scanner) and the client that loops over it (the parser): what the source
  promises, what the client's body does with a token, and what the whole loop computes.
\<close>

text \<open>
  \<open>while (1) { c = call(); if (c == -1) break; body(c); } finish()\<close> with \<open>fuel\<close>
  iterations: \<open>None\<close> when the fuel runs out or the behaviour is undefined. The body ends
  the loop with \<open>Inr\<close>.
\<close>

fun drive ::
    "nat \<Rightarrow> ('s \<Rightarrow> (int \<times> 's) option) \<Rightarrow> (int \<Rightarrow> 's \<Rightarrow> ('s + 'o) option) \<Rightarrow> ('s \<Rightarrow> 'o)
     \<Rightarrow> 's \<Rightarrow> 'o option" where
  "drive 0 call body finish s = None"
| "drive (Suc fuel) call body finish s =
     (case call s of
        None \<Rightarrow> None
      | Some (c, s1) \<Rightarrow>
          if c = -1 then Some (finish s1)
          else (case body c s1 of
                  None \<Rightarrow> None
                | Some (Inl s2) \<Rightarrow> drive fuel call body finish s2
                | Some (Inr r) \<Rightarrow> Some r))"

text \<open>The abstract run: one step per token until a step ends it.\<close>

fun run_tokens :: "('t \<Rightarrow> 'a \<Rightarrow> 'a + 'b) \<Rightarrow> ('a \<Rightarrow> 'b) \<Rightarrow> 't list \<Rightarrow> 'a \<Rightarrow> 'b" where
  "run_tokens astep adone [] a = adone a"
| "run_tokens astep adone (t # ts) a =
     (case astep t a of Inl a' \<Rightarrow> run_tokens astep adone ts a' | Inr b \<Rightarrow> b)"

locale token_source =
  fixes call :: "'s \<Rightarrow> (int \<times> 's) option"
    and ok :: "'s \<Rightarrow> bool"
    and toks :: "'s \<Rightarrow> 't list"
    and says :: "'t \<Rightarrow> 's \<Rightarrow> int \<Rightarrow> 's \<Rightarrow> bool"
    and ends :: "'s \<Rightarrow> 's \<Rightarrow> bool"
  assumes source_end: "ok s \<Longrightarrow> toks s = [] \<Longrightarrow> \<exists>s1. call s = Some (-1, s1) \<and> ends s s1"
    and source_step: "ok s \<Longrightarrow> toks s = t # ts \<Longrightarrow>
      \<exists>c s1. call s = Some (c, s1) \<and> says t s c s1 \<and> ok s1 \<and> toks s1 = ts"
begin

lemma source_defined: "ok s \<Longrightarrow> \<exists>c s1. call s = Some (c, s1)"
  using source_end source_step by (cases "toks s") blast+

end

locale token_client = token_source +
  fixes body :: "int \<Rightarrow> 's \<Rightarrow> ('s + 'o) option"
    and finish :: "'s \<Rightarrow> 'o"
    and astep :: "'t \<Rightarrow> 'a \<Rightarrow> 'a + 'b"
    and adone :: "'a \<Rightarrow> 'b"
    and rel :: "'s \<Rightarrow> 'a \<Rightarrow> bool"
    and orel :: "'o \<Rightarrow> 'b \<Rightarrow> bool"
  assumes client_end: "ok s \<Longrightarrow> rel s a \<Longrightarrow> ends s s1 \<Longrightarrow> orel (finish s1) (adone a)"
    and client_step: "ok s \<Longrightarrow> rel s a \<Longrightarrow> toks s = t # ts \<Longrightarrow> says t s c s1 \<Longrightarrow> ok s1 \<Longrightarrow>
      c \<noteq> -1 \<and>
      (case astep t a of
         Inl a' \<Rightarrow> \<exists>s2. body c s1 = Some (Inl s2) \<and> ok s2 \<and> toks s2 = toks s1 \<and> rel s2 a'
       | Inr b \<Rightarrow> \<exists>r. body c s1 = Some (Inr r) \<and> orel r b)"
begin

lemma drive_refines:
  assumes "ok s" and "rel s a" and "length (toks s) < fuel"
  shows "\<exists>r. drive fuel call body finish s = Some r
    \<and> orel r (run_tokens astep adone (toks s) a)"
  using assms
proof (induction fuel arbitrary: s a)
  case (Suc fuel)
  show ?case
  proof (cases "toks s")
    case Nil
    then show ?thesis
      using source_end [OF Suc.prems(1)] client_end [OF Suc.prems(1,2)] by fastforce
  next
    case (Cons t ts)
    obtain c s1 where call: "call s = Some (c, s1)" "says t s c s1" "ok s1" "toks s1 = ts"
      using source_step [OF Suc.prems(1) Cons] by blast
    note step = client_step [OF Suc.prems(1,2) Cons call(2,3)]
    show ?thesis
    proof (cases "astep t a")
      case (Inl a')
      then obtain s2 where s2: "body c s1 = Some (Inl s2)" "ok s2" "toks s2 = ts" "rel s2 a'"
        using step call(4) by auto
      have "\<exists>r. drive fuel call body finish s2 = Some r
          \<and> orel r (run_tokens astep adone (toks s2) a')"
        by (rule Suc.IH) (use s2 Suc.prems(3) Cons in simp_all)
      then show ?thesis
        using call(1) step s2 Cons Inl by auto
    next
      case (Inr b)
      then show ?thesis using call(1) step Cons by auto
    qed
  qed
qed simp

end

end
