(* ===== verification/Cmdline.thy ===== *)
theory Cmdline
  imports Getopt Token_Loop
begin

text \<open>
  The command line parser of client/src/ogrt-cmdline.c above the option scanner:
  \<open>struct gengetopt_args_info\<close> with its initialisation and release, \<open>update_arg\<close>,
  \<open>check_modes\<close>, the loop \<open>cmdline_parser_internal\<close>, and the entry points
  \<open>cmdline_parser\<close>, \<open>cmdline_parser2\<close> and \<open>cmdline_parser_ext\<close>.

  \<open>malloc\<close> is the parameter \<open>mok\<close>: whether the \<open>i\<close>-th call made by the parser
  succeeds. \<open>live_strings\<close> counts the strings allocated and not yet freed.
\<close>

section \<open>Texts\<close>

definition gengetopt_args_info_purpose :: string where
  "gengetopt_args_info_purpose = ''''"

definition gengetopt_args_info_usage :: string where
  "gengetopt_args_info_usage = ''Usage: ogrt [OPTIONS]...''"

definition gengetopt_args_info_versiontext :: string where
  "gengetopt_args_info_versiontext = ''''"

definition gengetopt_args_info_description :: string where
  "gengetopt_args_info_description = ''''"

definition gengetopt_args_info_help :: "string list" where
  "gengetopt_args_info_help =
     [''  -h, --help                 Print help and exit'',
      ''  -V, --version              Print version and exit'',
      newline @ '' Mode: link-info'',
      ''      --generate-signature   generate signature object file'',
      ''      --show-signature=file  show signature of ELF'']"

definition CMDLINE_PARSER_PACKAGE :: string where
  "CMDLINE_PARSER_PACKAGE = ''ogrt''"

definition CMDLINE_PARSER_PACKAGE_NAME :: string where
  "CMDLINE_PARSER_PACKAGE_NAME = ''ogrt''"

section \<open>Data\<close>

record args_info =
  help_help :: string
  version_help :: string
  generate_signature_help :: string
  show_signature_arg :: "string option"
  show_signature_orig :: "string option"
  show_signature_help :: string
  help_given :: cint
  version_given :: cint
  generate_signature_given :: cint
  show_signature_given :: cint
  link_info_mode_counter :: cint

record parser_params =
  p_override :: bool
  p_initialize :: bool
  p_check_required :: bool
  p_check_ambiguity :: bool
  p_print_errors :: bool

datatype arg_type = ARG_NO | ARG_STRING

text \<open>
  The parser's own state on top of the scanner's: the static \<open>package_name\<close>, standard
  output, the caller's and the local options structure, and the locals \<open>optarg\<close>,
  \<open>optind\<close>, \<open>opterr\<close>, \<open>optopt\<close> of \<open>cmdline_parser_internal\<close>.
\<close>

record parser_state = getopt_globals +
  package_name :: "string option"
  stdout_out :: string
  ai :: args_info
  local_ai :: args_info
  v_optarg :: "string option"
  v_optind :: nat
  v_opterr :: int
  v_optopt :: int
  malloc_calls :: nat
  live_strings :: int

definition printf_out :: "string \<Rightarrow> parser_state \<Rightarrow> parser_state" where
  "printf_out msg st = st\<lparr>stdout_out := stdout_out st @ msg\<rparr>"

section \<open>The options structure\<close>

definition clear_given :: "args_info \<Rightarrow> args_info" where
  "clear_given a = a\<lparr>help_given := 0, version_given := 0, generate_signature_given := 0,
     show_signature_given := 0, link_info_mode_counter := 0\<rparr>"

definition clear_args :: "args_info \<Rightarrow> args_info" where
  "clear_args a = a\<lparr>show_signature_arg := None, show_signature_orig := None\<rparr>"

definition init_args_info :: "args_info \<Rightarrow> args_info" where
  "init_args_info a = a\<lparr>help_help := gengetopt_args_info_help ! 0,
     version_help := gengetopt_args_info_help ! 1,
     generate_signature_help := gengetopt_args_info_help ! 3,
     show_signature_help := gengetopt_args_info_help ! 4\<rparr>"

definition cmdline_parser_init :: "args_info \<Rightarrow> args_info" where
  "cmdline_parser_init a = init_args_info (clear_args (clear_given a))"

text \<open>\<open>free_string_field\<close>: the field afterwards, and how many strings were freed.\<close>

definition free_string_field :: "string option \<Rightarrow> string option \<times> int" where
  "free_string_field s = (case s of Some _ \<Rightarrow> (None, 1) | None \<Rightarrow> (None, 0))"

definition cmdline_parser_release :: "args_info \<Rightarrow> args_info \<times> int" where
  "cmdline_parser_release a =
     (case free_string_field (show_signature_arg a) of
        (f1, n1) \<Rightarrow>
          (case free_string_field (show_signature_orig a) of
             (f2, n2) \<Rightarrow>
               (clear_given (a\<lparr>show_signature_arg := f1, show_signature_orig := f2\<rparr>), n1 + n2)))"

definition release_ai :: "parser_state \<Rightarrow> parser_state" where
  "release_ai st = (case cmdline_parser_release (ai st) of
     (a, n) \<Rightarrow> st\<lparr>ai := a, live_strings := live_strings st - n\<rparr>)"

definition release_local_ai :: "parser_state \<Rightarrow> parser_state" where
  "release_local_ai st = (case cmdline_parser_release (local_ai st) of
     (a, n) \<Rightarrow> st\<lparr>local_ai := a, live_strings := live_strings st - n\<rparr>)"

definition cmdline_parser_free :: "parser_state \<Rightarrow> parser_state" where
  "cmdline_parser_free st = release_ai st"

definition cmdline_parser_free_local :: "parser_state \<Rightarrow> parser_state" where
  "cmdline_parser_free_local st = release_local_ai st"

definition cmdline_parser_params_init :: "parser_params \<Rightarrow> parser_params" where
  "cmdline_parser_params_init p = p\<lparr>p_override := False, p_initialize := True,
     p_check_required := True, p_check_ambiguity := False, p_print_errors := True\<rparr>"

text \<open>
  \<open>cmdline_parser_params_create\<close>: the block that \<open>malloc\<close> returned (with whatever it
  holds), or a null pointer that \<open>cmdline_parser_params_init\<close> leaves alone.
\<close>

definition cmdline_parser_params_create :: "parser_params option \<Rightarrow> parser_params option" where
  "cmdline_parser_params_create block = map_option cmdline_parser_params_init block"

section \<open>Printing\<close>

text \<open>\<open>version\<close> is the value the build puts in for \<open>CMDLINE_PARSER_VERSION\<close>.\<close>

definition version_lines :: "string \<Rightarrow> string" where
  "version_lines version =
     (if length CMDLINE_PARSER_PACKAGE_NAME \<noteq> 0
      then CMDLINE_PARSER_PACKAGE_NAME else CMDLINE_PARSER_PACKAGE)
     @ '' '' @ version @ newline
     @ (if length gengetopt_args_info_versiontext > 0
        then newline @ gengetopt_args_info_versiontext @ newline else [])"

definition cmdline_parser_print_version :: "string \<Rightarrow> parser_state \<Rightarrow> parser_state" where
  "cmdline_parser_print_version version st = printf_out (version_lines version) st"

definition print_help_common :: "string \<Rightarrow> parser_state \<Rightarrow> parser_state" where
  "print_help_common version st =
     (let st1 = cmdline_parser_print_version version st;
          st2 = (if length gengetopt_args_info_purpose > 0
                 then printf_out (newline @ gengetopt_args_info_purpose @ newline) st1 else st1);
          st3 = (if length gengetopt_args_info_usage > 0
                 then printf_out (newline @ gengetopt_args_info_usage @ newline) st2 else st2);
          st4 = printf_out newline st3
      in if length gengetopt_args_info_description > 0
         then printf_out (gengetopt_args_info_description @ newline @ newline) st4 else st4)"

fun print_help_loop :: "string list \<Rightarrow> parser_state \<Rightarrow> parser_state" where
  "print_help_loop [] st = st"
| "print_help_loop (l # ls) st = print_help_loop ls (printf_out (l @ newline) st)"

definition cmdline_parser_print_help :: "string \<Rightarrow> parser_state \<Rightarrow> parser_state" where
  "cmdline_parser_print_help version st =
     print_help_loop gengetopt_args_info_help (print_help_common version st)"

text \<open>What \<open>cmdline_parser_dump\<close> writes to the file, and its return value.\<close>

definition write_into_file :: "string \<Rightarrow> string option \<Rightarrow> string" where
  "write_into_file opt arg =
     (case arg of
        Some a \<Rightarrow> opt @ ''='' @ [CHR 0x22] @ a @ [CHR 0x22] @ newline
      | None \<Rightarrow> opt @ newline)"

definition cmdline_parser_dump :: "bool \<Rightarrow> args_info \<Rightarrow> int \<times> string \<times> string" where
  "cmdline_parser_dump outfile a =
     (if \<not> outfile
      then (1, [], CMDLINE_PARSER_PACKAGE @ '': cannot dump options to stream'' @ newline)
      else (0,
        (if help_given a \<noteq> 0 then write_into_file ''help'' None else [])
        @ (if version_given a \<noteq> 0 then write_into_file ''version'' None else [])
        @ (if generate_signature_given a \<noteq> 0 then write_into_file ''generate-signature'' None else [])
        @ (if show_signature_given a \<noteq> 0
           then write_into_file ''show-signature'' (show_signature_orig a) else []), []))"

text \<open>\<open>opened\<close>: whether \<open>fopen(filename, "w")\<close> succeeds.\<close>

definition cmdline_parser_file_save :: "bool \<Rightarrow> string \<Rightarrow> args_info \<Rightarrow> int \<times> string \<times> string" where
  "cmdline_parser_file_save opened filename a =
     (if \<not> opened
      then (1, [], CMDLINE_PARSER_PACKAGE @ '': cannot open file for writing: '' @ filename @ newline)
      else cmdline_parser_dump True a)"

definition cmdline_parser_required :: "args_info \<Rightarrow> string \<Rightarrow> int" where
  "cmdline_parser_required a prog_name = 0"

section \<open>Storing an option\<close>

definition gengetopt_strdup ::
    "(nat \<Rightarrow> bool) \<Rightarrow> string option \<Rightarrow> parser_state \<Rightarrow> string option \<times> parser_state" where
  "gengetopt_strdup mok s st =
     (case s of
        None \<Rightarrow> (None, st)
      | Some str \<Rightarrow>
          if mok (malloc_calls st)
          then (Some str, st\<lparr>malloc_calls := Suc (malloc_calls st),
                             live_strings := live_strings st + 1\<rparr>)
          else (None, st\<lparr>malloc_calls := Suc (malloc_calls st)\<rparr>))"

text \<open>
  What \<open>update_arg\<close>'s pointer arguments point to; \<open>None\<close> is a null pointer argument.
\<close>

record arg_slots =
  s_field :: "string option option"
  s_orig :: "string option option"
  s_given :: "cint option"
  s_prev :: "cint option"

definition incr_slot :: "cint option \<Rightarrow> cint option" where
  "incr_slot g = map_option (\<lambda>n. n + 1) g"

definition free_one :: "string option \<Rightarrow> parser_state \<Rightarrow> parser_state" where
  "free_one s st = (case s of Some _ \<Rightarrow> st\<lparr>live_strings := live_strings st - 1\<rparr> | None \<Rightarrow> st)"

text \<open>The string cases of the two switches, lines 969 to 997.\<close>

definition store_field ::
    "(nat \<Rightarrow> bool) \<Rightarrow> bool \<Rightarrow> arg_type \<Rightarrow> string option \<Rightarrow> arg_slots \<Rightarrow> parser_state
     \<Rightarrow> (arg_slots \<times> parser_state) option" where
  "store_field mok no_free arg_type val sl st =
     (if arg_type = ARG_STRING \<and> val \<noteq> None then
        (case s_field sl of
           None \<Rightarrow> None
         | Some old \<Rightarrow>
             let st1 = (if \<not> no_free then free_one old st else st) in
             (case gengetopt_strdup mok val st1 of
                (new, st2) \<Rightarrow> Some (sl\<lparr>s_field := Some new\<rparr>, st2)))
      else Some (sl, st))"

definition store_orig ::
    "(nat \<Rightarrow> bool) \<Rightarrow> bool \<Rightarrow> arg_type \<Rightarrow> string option \<Rightarrow> arg_slots \<Rightarrow> parser_state
     \<Rightarrow> arg_slots \<times> parser_state" where
  "store_orig mok no_free arg_type value_arg sl st =
     (if arg_type \<noteq> ARG_NO \<and> value_arg \<noteq> None then
        (case s_orig sl of
           None \<Rightarrow> (sl, st)
         | Some old \<Rightarrow>
             if no_free then (sl\<lparr>s_orig := Some value_arg\<rparr>, st)
             else
               (case gengetopt_strdup mok value_arg (free_one old st) of
                  (new, st2) \<Rightarrow> (sl\<lparr>s_orig := Some new\<rparr>, st2)))
      else (sl, st))"

definition given_twice_message :: "parser_state \<Rightarrow> string \<Rightarrow> char \<Rightarrow> string option \<Rightarrow> string" where
  "given_twice_message st long_opt short_opt additional_error =
     (case package_name st of Some n \<Rightarrow> n | None \<Rightarrow> ''(null)'')
     @ '': `--'' @ long_opt @ [CHR 0x27]
     @ (if short_opt \<noteq> CHR ''-'' then '' (`-'' @ [short_opt] @ [CHR 0x27] @ '')'' else [])
     @ '' option given more than once''
     @ (case additional_error of Some e \<Rightarrow> e | None \<Rightarrow> []) @ newline"

text \<open>
  The condition of line 945 on \<open>prev_given\<close> and \<open>field_given\<close>; the second is read
  without a test for a null pointer.
\<close>

definition given_before :: "bool \<Rightarrow> arg_slots \<Rightarrow> bool option" where
  "given_before check_ambiguity sl =
     (case s_prev sl of
        None \<Rightarrow> Some False
      | Some p \<Rightarrow>
          if p \<noteq> 0 then Some True
          else if check_ambiguity then map_option (\<lambda>g. g \<noteq> 0) (s_given sl)
          else Some False)"

definition update_arg ::
    "(nat \<Rightarrow> bool) \<Rightarrow> arg_slots \<Rightarrow> string option \<Rightarrow> string list option \<Rightarrow> arg_type \<Rightarrow> bool \<Rightarrow> bool
     \<Rightarrow> bool \<Rightarrow> bool \<Rightarrow> string \<Rightarrow> char \<Rightarrow> string option \<Rightarrow> parser_state
     \<Rightarrow> (bool \<times> arg_slots \<times> parser_state) option" where
  "update_arg mok sl value_arg possible_values arg_type check_ambiguity override
     no_free multiple_option long_opt short_opt additional_error st =
    do {
      again \<leftarrow> (if multiple_option then Some False else given_before check_ambiguity sl);
      (if again
       then Some (True, sl, eprintf (given_twice_message st long_opt short_opt additional_error) st)
       else if (case s_given sl of None \<Rightarrow> False | Some g \<Rightarrow> g \<noteq> 0) \<and> \<not> override
       then Some (False, sl, st)
       else do {
        let sl1 = sl\<lparr>s_prev := incr_slot (s_prev sl), s_given := incr_slot (s_given sl)\<rparr>;
        let val = (case possible_values of
                     None \<Rightarrow> value_arg
                   | Some [] \<Rightarrow> None
                   | Some (v # _) \<Rightarrow> Some v);
        (sl2, st2) \<leftarrow> store_field mok no_free arg_type val sl1 st;
        let (sl3, st3) = store_orig mok no_free arg_type value_arg sl2 st2;
        Some (False, sl3, st3)
      })
    }"

section \<open>Conflicts between modes\<close>

text \<open>
  \<open>check_modes\<close>: the arrays \<open>given1\<close>, \<open>given2\<close> (ended by a negative number) with the
  option names beside them. The index \<open>j\<close> of the inner loop is not reset, so it is the
  rest of the second array that is passed on. Running off an array is undefined.
\<close>

fun check_modes_inner ::
    "string \<Rightarrow> string \<Rightarrow> (int \<times> string) list \<Rightarrow> nat \<Rightarrow> string
     \<Rightarrow> ((int \<times> string) list \<times> nat \<times> string) option" where
  "check_modes_inner prog opt1 [] errors err = None"
| "check_modes_inner prog opt1 ((g, opt2) # rest) errors err =
     (if g \<ge> 0 then
        (if g \<noteq> 0
         then check_modes_inner prog opt1 rest (Suc errors)
                (err @ prog @ '': option '' @ opt1 @ '' conflicts with option '' @ opt2 @ newline)
         else check_modes_inner prog opt1 rest errors err)
      else Some ((g, opt2) # rest, errors, err))"

fun check_modes_loop ::
    "string \<Rightarrow> (int \<times> string) list \<Rightarrow> (int \<times> string) list \<Rightarrow> nat \<Rightarrow> string
     \<Rightarrow> (nat \<times> string) option" where
  "check_modes_loop prog [] m2 errors err = None"
| "check_modes_loop prog ((g, opt1) # rest) m2 errors err =
     (if g \<ge> 0 then
        (if g \<noteq> 0
         then (case check_modes_inner prog opt1 m2 errors err of
                 None \<Rightarrow> None
               | Some (m2', errors', err') \<Rightarrow> check_modes_loop prog rest m2' errors' err')
         else check_modes_loop prog rest m2 errors err)
      else Some (errors, err))"

definition check_modes ::
    "string \<Rightarrow> (int \<times> string) list \<Rightarrow> (int \<times> string) list \<Rightarrow> (nat \<times> string) option" where
  "check_modes prog m1 m2 = check_modes_loop prog m1 m2 0 []"

section \<open>The parser loop\<close>

definition long_options :: "option_desc list" where
  "long_options =
     [\<lparr>opt_name = ''help'', has_arg = 0, opt_flag = None, opt_val = 104\<rparr>,
      \<lparr>opt_name = ''version'', has_arg = 0, opt_flag = None, opt_val = 86\<rparr>,
      \<lparr>opt_name = ''generate-signature'', has_arg = 0, opt_flag = None, opt_val = 0\<rparr>,
      \<lparr>opt_name = ''show-signature'', has_arg = 1, opt_flag = None, opt_val = 0\<rparr>]"

datatype 's outcome =
    Returned int 's
  | Exited int 's
  | Aborted 's

text \<open>Lines 1065 to 1085: one call of the scanner, with the statics set and read back.\<close>

definition next_option :: "nat \<Rightarrow> parser_state \<Rightarrow> (int \<times> parser_state) option" where
  "next_option argc st = do {
     (c, s1) \<leftarrow> custom_getopt_long argc ''hV'' long_options
       (st\<lparr>longind := Some 0, glob_optarg := v_optarg st, glob_optind := v_optind st,
           glob_opterr := v_opterr st, glob_optopt := v_optopt st\<rparr>);
     Some (c, s1\<lparr>v_optarg := glob_optarg s1, v_optind := glob_optind s1,
                 v_opterr := glob_opterr s1, v_optopt := glob_optopt s1\<rparr>)
   }"

text \<open>The label \<open>failure\<close>: what the parser returns to its caller.\<close>

definition parse_failure :: "parser_state \<Rightarrow> parser_state outcome" where
  "parse_failure st = Returned 1 (release_local_ai st)"

text \<open>Lines 1104 to 1117.\<close>

definition parse_generate_signature ::
    "(nat \<Rightarrow> bool) \<Rightarrow> parser_params \<Rightarrow> string option \<Rightarrow> parser_state
     \<Rightarrow> (parser_state + parser_state outcome) option" where
  "parse_generate_signature mok params additional_error st =
     (let st1 = st\<lparr>ai := (ai st)\<lparr>link_info_mode_counter := link_info_mode_counter (ai st) + 1\<rparr>\<rparr> in
      do {
        (failed, sl, st2) \<leftarrow> update_arg mok
          \<lparr>s_field = None, s_orig = None, s_given = Some (generate_signature_given (ai st1)),
           s_prev = Some (generate_signature_given (local_ai st1))\<rparr>
          (v_optarg st1) None ARG_NO (p_check_ambiguity params) (p_override params) False False
          ''generate-signature'' (CHR ''-'') additional_error st1;
        let st3 = st2\<lparr>ai := (ai st2)\<lparr>generate_signature_given := the (s_given sl)\<rparr>,
                      local_ai := (local_ai st2)\<lparr>generate_signature_given := the (s_prev sl)\<rparr>\<rparr>;
        Some (if failed then Inr (parse_failure st3) else Inl st3)
      })"

text \<open>Lines 1119 to 1132.\<close>

definition parse_show_signature ::
    "(nat \<Rightarrow> bool) \<Rightarrow> parser_params \<Rightarrow> string option \<Rightarrow> parser_state
     \<Rightarrow> (parser_state + parser_state outcome) option" where
  "parse_show_signature mok params additional_error st =
     (let st1 = st\<lparr>ai := (ai st)\<lparr>link_info_mode_counter := link_info_mode_counter (ai st) + 1\<rparr>\<rparr> in
      do {
        (failed, sl, st2) \<leftarrow> update_arg mok
          \<lparr>s_field = Some (show_signature_arg (ai st1)), s_orig = Some (show_signature_orig (ai st1)),
           s_given = Some (show_signature_given (ai st1)),
           s_prev = Some (show_signature_given (local_ai st1))\<rparr>
          (v_optarg st1) None ARG_STRING (p_check_ambiguity params) (p_override params) False False
          ''show-signature'' (CHR ''-'') additional_error st1;
        let st3 = st2\<lparr>ai := (ai st2)\<lparr>show_signature_arg := the (s_field sl),
                        show_signature_orig := the (s_orig sl),
                        show_signature_given := the (s_given sl)\<rparr>,
                      local_ai := (local_ai st2)\<lparr>show_signature_given := the (s_prev sl)\<rparr>\<rparr>;
        Some (if failed then Inr (parse_failure st3) else Inl st3)
      })"

text \<open>The \<open>switch\<close> of lines 1089 to 1142.\<close>

definition parse_switch ::
    "(nat \<Rightarrow> bool) \<Rightarrow> string \<Rightarrow> parser_params \<Rightarrow> string option \<Rightarrow> int \<Rightarrow> parser_state
     \<Rightarrow> (parser_state + parser_state outcome) option" where
  "parse_switch mok version params additional_error c st =
     (if c = 104 then
        Some (Inr (Exited 0 (cmdline_parser_free_local (cmdline_parser_print_help version st))))
      else if c = 86 then
        Some (Inr (Exited 0 (cmdline_parser_free_local (cmdline_parser_print_version version st))))
      else if c = 0 then
        (case longind st of
           None \<Rightarrow> None
         | Some i \<Rightarrow>
             if 0 \<le> i \<and> nat i < length long_options then
               (if opt_name (long_options ! nat i) = ''generate-signature''
                then parse_generate_signature mok params additional_error st
                else if opt_name (long_options ! nat i) = ''show-signature''
                then parse_show_signature mok params additional_error st
                else Some (Inl st))
             else None)
      else if c = qmark then Some (Inr (parse_failure st))
      else Some (Inr (Aborted (eprintf (CMDLINE_PARSER_PACKAGE @ '': option unknown: ''
             @ [char_of (nat (c mod 256))]
             @ (case additional_error of Some e \<Rightarrow> e | None \<Rightarrow> []) @ newline) st))))"

text \<open>
  The loop \<open>while (1)\<close> is \<open>drive\<close> with this number of iterations, which is enough for
  every command line (\<open>parse_fuel_enough\<close> in Cmdline_Spec).
\<close>

definition parse_fuel :: "string list \<Rightarrow> nat" where
  "parse_fuel args = Suc (sum_list (map length args))"

definition cmdline_parser_internal ::
    "(nat \<Rightarrow> bool) \<Rightarrow> string \<Rightarrow> nat \<Rightarrow> parser_params \<Rightarrow> string option \<Rightarrow> parser_state
     \<Rightarrow> parser_state outcome option" where
  "cmdline_parser_internal mok version argc params additional_error st =
     (let st1 = st\<lparr>package_name := argv_at st 0\<rparr>;
          st2 = (if p_initialize params then st1\<lparr>ai := cmdline_parser_init (ai st1)\<rparr> else st1);
          st3 = st2\<lparr>local_ai := cmdline_parser_init (local_ai st2),
                    v_optarg := None, v_optind := 0,
                    v_opterr := (if p_print_errors params then 1 else 0), v_optopt := qmark\<rparr>
      in drive (parse_fuel (argv st)) (next_option argc)
           (parse_switch mok version params additional_error)
           (\<lambda>s. Returned 0 (release_local_ai s)) st3)"

text \<open>Both entry points end the process when the parser fails.\<close>

definition exit_on_failure :: "parser_state outcome \<Rightarrow> parser_state outcome" where
  "exit_on_failure r =
     (case r of
        Returned n s \<Rightarrow> if n = 1 then Exited 1 (cmdline_parser_free s) else Returned n s
      | _ \<Rightarrow> r)"

definition cmdline_parser_ext ::
    "(nat \<Rightarrow> bool) \<Rightarrow> string \<Rightarrow> nat \<Rightarrow> parser_params \<Rightarrow> parser_state \<Rightarrow> parser_state outcome option" where
  "cmdline_parser_ext mok version argc params st =
     map_option exit_on_failure (cmdline_parser_internal mok version argc params None st)"

definition cmdline_parser2 ::
    "(nat \<Rightarrow> bool) \<Rightarrow> string \<Rightarrow> nat \<Rightarrow> bool \<Rightarrow> bool \<Rightarrow> bool \<Rightarrow> parser_state
     \<Rightarrow> parser_state outcome option" where
  "cmdline_parser2 mok version argc override initialize check_required st =
     map_option exit_on_failure
       (cmdline_parser_internal mok version argc
          \<lparr>p_override = override, p_initialize = initialize, p_check_required = check_required,
           p_check_ambiguity = False, p_print_errors = True\<rparr> None st)"

definition cmdline_parser ::
    "(nat \<Rightarrow> bool) \<Rightarrow> string \<Rightarrow> nat \<Rightarrow> parser_state \<Rightarrow> parser_state outcome option" where
  "cmdline_parser mok version argc st = cmdline_parser2 mok version argc False True True st"

end
