(* ===== verification/Getopt_Spec.thy ===== *)
theory Getopt_Spec
  imports Getopt
begin

text \<open>
  What the scanner of client/src/ogrt-cmdline.c promises: a reference reading of a
  command line that knows no index, pointer or permutation (\<open>ref_scan\<close>), and the proof
  that each call of \<open>getopt_internal_r\<close> reports the next token of that reading, keeps
  the scanner's invariant, permutes the arguments only, and has a defined result
  (\<open>getopt_step\<close>, \<open>getopt_first_step\<close>).
\<close>

section \<open>The reference reading of a command line\<close>

definition same_kind :: "option_desc \<Rightarrow> option_desc \<Rightarrow> bool" where
  "same_kind q p \<longleftrightarrow>
     has_arg q = has_arg p \<and> opt_flag q = opt_flag p \<and> opt_val q = opt_val p"

fun abbreviated :: "option_desc list \<Rightarrow> nat \<Rightarrow> string \<Rightarrow> (option_desc \<times> nat) list" where
  "abbreviated [] i name = []"
| "abbreviated (p # ps) i name =
     (if take (length name) (opt_name p) = name
      then (p, i) # abbreviated ps (Suc i) name else abbreviated ps (Suc i) name)"

definition exactly :: "option_desc list \<Rightarrow> nat \<Rightarrow> string \<Rightarrow> (option_desc \<times> nat) list" where
  "exactly ps i name = filter (\<lambda>(p, _). opt_name p = name) (abbreviated ps i name)"

datatype resolution = Found option_desc nat | Ambiguous | Unknown

definition resolve_long :: "option_desc list \<Rightarrow> string \<Rightarrow> resolution" where
  "resolve_long opts name =
     (case exactly opts 0 name of
        (p, i) # _ \<Rightarrow> Found p i
      | [] \<Rightarrow>
          (case abbreviated opts 0 name of
             [] \<Rightarrow> Unknown
           | (p, i) # rest \<Rightarrow>
               if list_all (\<lambda>(q, _). same_kind p q) rest then Found p i else Ambiguous))"

definition names_ok :: "option_desc list \<Rightarrow> bool" where
  "names_ok opts \<longleftrightarrow> list_all (\<lambda>p. length (opt_name p) < 2 ^ 32) opts"

lemma name_length_cast:
  assumes "m < 2 ^ 32" and "n \<le> m"
  shows "(word_of_nat n :: cint) = word_of_nat m \<longleftrightarrow> n = m"
  using assms by (simp add: word_of_nat_eq_iff take_bit_nat_eq_self)

lemma strncmp_eq_name:
  assumes "n \<le> length nc"
  shows "strncmp_eq a nc n \<longleftrightarrow> take (length (take n nc)) a = take n nc"
  using assms by (auto simp: strncmp_eq_def min_def)

subsection \<open>Names\<close>

text \<open>What the search returns, from the entries that the name abbreviates.\<close>

definition long_match ::
    "option_desc list \<Rightarrow> nat \<Rightarrow> string \<Rightarrow> (option_desc \<times> nat) option \<Rightarrow> bool
     \<Rightarrow> (option_desc \<times> nat) option \<Rightarrow> bool \<Rightarrow> bool \<Rightarrow> bool" where
  "long_match ps i name pf amb r e am \<longleftrightarrow>
     (case exactly ps i name of
            x # _ \<Rightarrow> r = Some x \<and> e
          | [] \<Rightarrow> \<not> e \<and>
              (case pf of
                 Some (q, j) \<Rightarrow> r = pf \<and>
                   am = (amb \<or> \<not> list_all (\<lambda>(p, _). same_kind q p) (abbreviated ps i name))
               | None \<Rightarrow>
                   (case abbreviated ps i name of
                      [] \<Rightarrow> r = None \<and> am = amb
                    | (q, j) # rest \<Rightarrow> r = Some (q, j) \<and>
                        am = (amb \<or> \<not> list_all (\<lambda>(p, _). same_kind q p) rest))))"

lemma match_long_spec:
  assumes "names_ok ps" and "n \<le> length nc"
    and "match_long ps i nc n pf amb = (r, e, am)"
  shows "long_match ps i (take n nc) pf amb r e am"
  using assms
proof (induction ps i nc n pf amb rule: match_long.induct)
  case (1 i nc n pf amb)
  then show ?case by (auto simp: long_match_def exactly_def split: option.splits)
next
  case (2 p ps i nc n pf amb)
  define name where "name = take n nc"
  have len: "length name = n" using "2.prems"(2) by (simp add: name_def)
  have ok: "names_ok ps" and plen: "length (opt_name p) < 2 ^ 32"
    using "2.prems"(1) by (simp_all add: names_ok_def)
  have hit_iff: "strncmp_eq (opt_name p) nc n \<longleftrightarrow> take (length name) (opt_name p) = name"
    unfolding name_def by (rule strncmp_eq_name) (rule "2.prems"(2))
  show ?case
    unfolding name_def [symmetric]
  proof (cases "strncmp_eq (opt_name p) nc n")
    case hit: True
    then have pre: "take (length name) (opt_name p) = name"
      using hit_iff by blast
    then have le: "n \<le> length (opt_name p)"
      using len by (metis length_take min.cobounded1)
    have ex: "(word_of_nat n :: cint) = word_of_nat (length (opt_name p)) \<longleftrightarrow> opt_name p = name"
      using name_length_cast [OF plen le] pre len by (metis take_all_iff order_refl)
    have abbr: "abbreviated (p # ps) i name = (p, i) # abbreviated ps (Suc i) name"
      using pre by simp
    show "long_match (p # ps) i name pf amb r e am"
    proof (cases "opt_name p = name")
      case True
      then show ?thesis using "2.prems"(3) hit ex unfolding long_match_def exactly_def abbr by simp
    next
      case False
      then have exn: "exactly (p # ps) i name = exactly ps (Suc i) name"
        unfolding exactly_def abbr by simp
      have nex: "(word_of_nat n :: cint) \<noteq> word_of_nat (length (opt_name p))"
        using ex False by simp
      show ?thesis
      proof (cases pf)
        case None
        then show ?thesis
          using "2.IH"(1) [OF hit nex None ok "2.prems"(2)] "2.prems"(3) hit nex
          unfolding long_match_def exn abbr name_def [symmetric] by (simp split: list.splits)
      next
        case (Some qj)
        obtain q j where qj: "qj = (q, j)" by (cases qj)
        show ?thesis
          using "2.IH"(2) [OF hit nex Some qj [symmetric] ok "2.prems"(2)] "2.prems"(3) hit nex Some qj
          unfolding long_match_def exn abbr name_def [symmetric]
          by (auto simp: same_kind_def split: list.splits)
      qed
    qed
  next
    case False
    then have "take (length name) (opt_name p) \<noteq> name"
      using hit_iff by blast
    then have abbr: "abbreviated (p # ps) i name = abbreviated ps (Suc i) name"
      by simp
    then have exn: "exactly (p # ps) i name = exactly ps (Suc i) name"
      unfolding exactly_def by simp
    show "long_match (p # ps) i name pf amb r e am"
      using "2.IH"(3) [OF False ok "2.prems"(2)] "2.prems"(3) False
      unfolding long_match_def exn abbr name_def [symmetric] by simp
  qed
qed

lemma match_long_resolve:
  assumes "names_ok opts" and "n \<le> length nc"
    and "match_long opts 0 nc n None False = (r, e, am)"
  shows "case resolve_long opts (take n nc) of
      Found p i \<Rightarrow> r = Some (p, i) \<and> (e \<or> \<not> am)
    | Ambiguous \<Rightarrow> am \<and> \<not> e
    | Unknown \<Rightarrow> r = None \<and> \<not> am"
  using match_long_spec [OF assms] unfolding long_match_def resolve_long_def
  by (auto split: list.splits if_splits prod.splits)


subsection \<open>The reference scanner\<close>

text \<open>
  The same command line read without indices, pointers or permutation: \<open>ref_scan\<close>
  takes the rest of a cluster of short options and the arguments after it, and returns
  what the calls report in order, and the operands.
\<close>

datatype token =
    Opt int "string option" "nat option"
  | Bad int

definition opt_code :: "option_desc \<Rightarrow> int" where
  "opt_code p = (if opt_flag p = None then opt_val p else 0)"

definition missing_code :: "string \<Rightarrow> int" where
  "missing_code optstring = (if char_at optstring 0 = CHR '':'' then 58 else qmark)"

definition long_token ::
    "string \<Rightarrow> option_desc list \<Rightarrow> string \<Rightarrow> string list \<Rightarrow> token \<times> string list" where
  "long_token optstring opts nc as =
     (let v = dropWhile (\<lambda>c. c \<noteq> CHR ''='') nc in
      case resolve_long opts (takeWhile (\<lambda>c. c \<noteq> CHR ''='') nc) of
        Unknown \<Rightarrow> (Bad qmark, as)
      | Ambiguous \<Rightarrow> (Bad qmark, as)
      | Found p i \<Rightarrow>
          if v \<noteq> [] then
            (if has_arg p \<noteq> no_argument then (Opt (opt_code p) (Some (tl v)) (Some i), as)
             else (Bad qmark, as))
          else if has_arg p = required_argument then
            (case as of
               [] \<Rightarrow> (Bad (missing_code optstring), [])
             | b # bs \<Rightarrow> (Opt (opt_code p) (Some b) (Some i), bs))
          else (Opt (opt_code p) None (Some i), as))"

definition short_token ::
    "string \<Rightarrow> char \<Rightarrow> string \<Rightarrow> string list \<Rightarrow> token \<times> string \<times> string list" where
  "short_token optstring c cs as =
     (case strchr optstring c of
        None \<Rightarrow> (Bad qmark, cs, as)
      | Some t \<Rightarrow>
          if c = CHR '':'' then (Bad qmark, cs, as)
          else if char_at t 1 = CHR '':'' then
            (if char_at t 2 = CHR '':'' then
               (Opt (int_of_c_char c) (if cs = [] then None else Some cs) None, [], as)
             else if cs \<noteq> [] then (Opt (int_of_c_char c) (Some cs) None, [], as)
             else (case as of
                     [] \<Rightarrow> (Bad (missing_code optstring), [], [])
                   | b # bs \<Rightarrow> (Opt (int_of_c_char c) (Some b) None, [], bs)))
          else (Opt (int_of_c_char c) None None, cs, as))"

lemma long_token_shrinks:
  "long_token optstring opts nc as = (t, as') \<Longrightarrow> length as' \<le> length as"
  by (auto simp: long_token_def Let_def split: resolution.splits list.splits if_splits)

lemma short_token_shrinks:
  "short_token optstring c cs as = (t, cs', as') \<Longrightarrow> length cs' \<le> length cs \<and> length as' \<le> length as"
  by (auto simp: short_token_def split: option.splits list.splits if_splits)

function ref_scan ::
    "string \<Rightarrow> option_desc list \<Rightarrow> string \<Rightarrow> string list \<Rightarrow> token list \<times> string list" where
  "ref_scan optstring opts (c # cs) as =
     (case short_token optstring c cs as of
        (t, cs', as') \<Rightarrow> apfst ((#) t) (ref_scan optstring opts cs' as'))"
| "ref_scan optstring opts [] [] = ([], [])"
| "ref_scan optstring opts [] (a # as) =
     (if a = ''--'' then ([], as)
      else if nonoption a then apsnd ((#) a) (ref_scan optstring opts [] as)
      else if char_at a 1 = CHR ''-'' then
        (case long_token optstring opts (drop 2 a) as of
           (t, as') \<Rightarrow> apfst ((#) t) (ref_scan optstring opts [] as'))
      else ref_scan optstring opts (tl a) as)"
  by pat_completeness auto
termination
  by (relation "measures [\<lambda>(os, ps, cs, as). length as, \<lambda>(os, ps, cs, as). length cs]")
    (auto dest!: sym [THEN short_token_shrinks] sym [THEN long_token_shrinks])

declare ref_scan.simps [simp del]

definition cluster :: "'a scanner_scheme \<Rightarrow> string" where
  "cluster s = (case nextchar s of None \<Rightarrow> [] | Some cs \<Rightarrow> cs)"

definition pending ::
    "string \<Rightarrow> option_desc list \<Rightarrow> 'a scanner_scheme \<Rightarrow> token list \<times> string list" where
  "pending optstring opts s =
     (case ref_scan optstring opts (cluster s)
             (if cluster s = [] then remaining s else tl (remaining s)) of
        (ts, ops) \<Rightarrow> (ts, skipped s @ ops))"

definition getopt_ok :: "nat \<Rightarrow> 'a scanner_scheme \<Rightarrow> bool" where
  "getopt_ok argc s \<longleftrightarrow> scanner_ok argc s \<and> initialized s \<and> 0 < first_nonopt s
     \<and> (cluster s \<noteq> [] \<longrightarrow> remaining s \<noteq> [] \<and> char_at (hd (remaining s)) 1 \<noteq> CHR ''-'')"

definition scan_frame :: "'a scanner_scheme \<Rightarrow> 'a scanner_scheme \<Rightarrow> bool" where
  "scan_frame s t \<longleftrightarrow> argv t = argv s \<and> first_nonopt t = first_nonopt s
     \<and> last_nonopt t = last_nonopt s \<and> initialized t = initialized s
     \<and> custom_optind s \<le> custom_optind t \<and> scanner.more t = scanner.more s"

text \<open>The value and the state in which a call reports a token.\<close>

definition reports :: "token \<Rightarrow> 'a scanner_scheme \<Rightarrow> int \<Rightarrow> 'a scanner_scheme \<Rightarrow> bool" where
  "reports t s r s' \<longleftrightarrow>
     (case t of
        Opt code a li \<Rightarrow> r = code \<and> custom_optarg s' = a
          \<and> longind s' = (case li of None \<Rightarrow> longind s
                          | Some i \<Rightarrow> map_option (\<lambda>_. int i) (longind s))
      | Bad code \<Rightarrow> r = code)"

lemma scan_frame_segments:
  assumes "scan_frame s t"
  shows "skipped t = skipped s"
  using assms by (simp add: scan_frame_def skipped_def)

lemma eprintf_simps [simp]:
  "argv (eprintf m s) = argv s" "custom_optind (eprintf m s) = custom_optind s"
  "first_nonopt (eprintf m s) = first_nonopt s" "last_nonopt (eprintf m s) = last_nonopt s"
  "initialized (eprintf m s) = initialized s" "nextchar (eprintf m s) = nextchar s"
  "custom_optarg (eprintf m s) = custom_optarg s" "longind (eprintf m s) = longind s"
  "scanner.more (eprintf m s) = scanner.more s" "argv_at (eprintf m s) i = argv_at s i"
  by (simp_all add: eprintf_def argv_at_def)

lemma remaining_Cons:
  assumes "length (argv s) = argc" and "remaining s = a # as"
  shows "custom_optind s < argc" and "argv_at s (custom_optind s) = Some a"
    and "argv_at s 0 = Some (argv s ! 0)" and "Suc (custom_optind s) + length as = argc"
    and "drop (Suc (custom_optind s)) (argv s) = as"
proof -
  have split: "argv s = take (custom_optind s) (argv s) @ a # as"
    using assms(2) by (metis append_take_drop_id remaining_def)
  show lt: "custom_optind s < argc"
    using assms by (metis drop_all list.distinct(1) not_le_imp_less remaining_def)
  show "Suc (custom_optind s) + length as = argc"
    using arg_cong [OF split, of length] assms(1) lt by simp
  show "argv_at s (custom_optind s) = Some a" "argv_at s 0 = Some (argv s ! 0)"
    using assms lt by (auto simp: argv_at_def remaining_def dest: nth_via_drop)
  show "drop (Suc (custom_optind s)) (argv s) = as"
    using assms(2) by (metis drop_Suc list.sel(3) remaining_def tl_drop)
qed

lemma long_report_reports:
  assumes "scan_frame s s1" and "remaining s1 = as" and "custom_optind s1 \<le> argc"
    and "custom_optarg s1 = v" and "longind s1 = longind s"
  shows "\<exists>r s'. long_report p i s1 = Some (r, s') \<and> scan_frame s s' \<and> custom_optind s' \<le> argc
    \<and> nextchar s' = Some [] \<and> remaining s' = as \<and> reports (Opt (opt_code p) v (Some i)) s r s'"
  using assms
  by (cases "opt_flag p")
    (simp_all add: long_report_def Let_def scan_frame_def remaining_def reports_def opt_code_def)

lemma long_found_reports:
  assumes len: "length (argv s) = argc" and rem: "remaining s = a # as"
    and arg: "custom_optarg s = None"
    and tok: "(if v \<noteq> [] then
            (if has_arg p \<noteq> no_argument then (Opt (opt_code p) (Some (tl v)) (Some i), as)
             else (Bad qmark, as))
          else if has_arg p = required_argument then
            (case as of
               [] \<Rightarrow> (Bad (missing_code optstring), [])
             | b # bs \<Rightarrow> (Opt (opt_code p) (Some b) (Some i), bs))
          else (Opt (opt_code p) None (Some i), as)) = (t, as')"
  shows "\<exists>r s'. long_found argc optstring pe p i v s = Some (r, s')
    \<and> scan_frame s s' \<and> custom_optind s' \<le> argc \<and> nextchar s' = Some []
    \<and> remaining s' = as' \<and> reports t s r s'"
proof -
  note at = remaining_Cons [OF len rem]
  let ?s1 = "s\<lparr>custom_optind := Suc (custom_optind s)\<rparr>"
  have at1: "argv_at ?s1 j = argv_at s j" for j by (simp add: argv_at_def)
  have rem1: "remaining ?s1 = as" using at(5) by (simp add: remaining_def)
  have fr1: "scan_frame s ?s1" by (simp add: scan_frame_def)
  consider (val) "v \<noteq> []" "has_arg p \<noteq> no_argument" | (noval) "v \<noteq> []" "has_arg p = no_argument"
    | (miss) "v = []" "has_arg p = required_argument" "as = []"
    | (sep) b bs where "v = []" "has_arg p = required_argument" "as = b # bs"
    | (plain) "v = []" "has_arg p \<noteq> required_argument"
    by (cases as) auto
  then show ?thesis
  proof cases
    case val
    have "\<exists>r s'. long_report p i (?s1\<lparr>custom_optarg := Some (tl v)\<rparr>) = Some (r, s')
      \<and> scan_frame s s' \<and> custom_optind s' \<le> argc \<and> nextchar s' = Some []
      \<and> remaining s' = as \<and> reports (Opt (opt_code p) (Some (tl v)) (Some i)) s r s'"
      using at(1) rem1 by (intro long_report_reports) (simp_all add: scan_frame_def remaining_def)
    then show ?thesis using val tok by (simp add: Let_def long_found_def)
  next
    case noval
    then show ?thesis
      using tok at at1 rem1
      by (auto simp: Let_def long_found_def long_no_arg_message_def long_misused_def scan_frame_def
          remaining_def reports_def)
  next
    case miss
    then show ?thesis
      using tok at at1 rem1
      by (auto simp: Let_def long_found_def no_argument_def required_argument_def long_take_arg_def
          long_missing_arg_message_def long_misused_def scan_frame_def remaining_def
          reports_def missing_code_def)
  next
    case sep
    let ?s2 = "?s1\<lparr>custom_optarg := argv_at ?s1 (custom_optind ?s1),
        custom_optind := Suc (custom_optind ?s1)\<rparr>"
    have lt: "Suc (custom_optind s) < argc" using at(4) sep(3) by simp
    note at' = remaining_Cons [of ?s1 argc b bs, OF _ rem1 [unfolded sep(3)], simplified, OF len]
    have "\<exists>r s'. long_report p i ?s2 = Some (r, s')
      \<and> scan_frame s s' \<and> custom_optind s' \<le> argc \<and> nextchar s' = Some []
      \<and> remaining s' = bs \<and> reports (Opt (opt_code p) (Some b) (Some i)) s r s'"
      using at' lt by (intro long_report_reports) (simp_all add: scan_frame_def remaining_def)
    then show ?thesis
      using sep tok lt by (simp add: Let_def long_found_def long_take_arg_def)
  next
    case plain
    have "\<exists>r s'. long_report p i ?s1 = Some (r, s')
      \<and> scan_frame s s' \<and> custom_optind s' \<le> argc \<and> nextchar s' = Some []
      \<and> remaining s' = as \<and> reports (Opt (opt_code p) None (Some i)) s r s'"
      using at(1) rem1 fr1 arg by (intro long_report_reports) simp_all
    then show ?thesis using plain tok by (simp add: Let_def long_found_def)
  qed
qed

lemma long_failed_reports:
  assumes len: "length (argv s) = argc" and rem: "remaining s = a # as"
    and nc: "nextchar s = Some nc"
  shows "\<exists>s'. long_ambiguous pe s = Some (qmark, s') \<and> scan_frame s s' \<and> custom_optind s' \<le> argc
      \<and> nextchar s' = Some [] \<and> remaining s' = as"
    and "\<exists>s'. long_unknown pe s = Some (qmark, s') \<and> scan_frame s s' \<and> custom_optind s' \<le> argc
      \<and> nextchar s' = Some [] \<and> remaining s' = as"
  using remaining_Cons [OF len rem] nc
  by (auto simp: Let_def long_ambiguous_def long_unknown_def scan_frame_def remaining_def)

lemma check_long_opt_reports:
  assumes len: "length (argv s) = argc" and rem: "remaining s = a # as"
    and nc: "nextchar s = Some nc" and arg: "custom_optarg s = None" and ok: "names_ok opts"
    and tok: "long_token optstring opts nc as = (t, as')"
  shows "\<exists>r s'. check_long_opt argc optstring opts pe s = Some (r, s')
    \<and> scan_frame s s' \<and> custom_optind s' \<le> argc \<and> nextchar s' = Some []
    \<and> remaining s' = as' \<and> reports t s r s'"
proof -
  define name where "name = takeWhile (\<lambda>c. c \<noteq> CHR ''='') nc"
  define v where "v = dropWhile (\<lambda>c. c \<noteq> CHR ''='') nc"
  have n: "length nc - length v = length name"
    unfolding name_def v_def by (metis diff_add_inverse2 length_append takeWhile_dropWhile_id)
  have tk: "take (length name) nc = name"
    unfolding name_def by (metis takeWhile_eq_take length_takeWhile_le take_all_iff order_refl take_take min.idem)
  have le: "length name \<le> length nc"
    unfolding name_def by (rule length_takeWhile_le)
  obtain r e am where m: "match_long opts 0 nc (length name) None False = (r, e, am)"
    by (cases "match_long opts 0 nc (length name) None False")
  note res = match_long_resolve [OF ok le m, unfolded tk]
  have chk: "check_long_opt argc optstring opts pe s =
      (if am \<and> \<not> e then long_ambiguous pe s
       else case r of Some (p, i) \<Rightarrow> long_found argc optstring pe p i v s
                    | None \<Rightarrow> long_unknown pe s)"
    using n m unfolding v_def by (simp add: check_long_opt_def nc)
  show ?thesis
  proof (cases "resolve_long opts name")
    case (Found p i)
    then have "check_long_opt argc optstring opts pe s = long_found argc optstring pe p i v s"
      using res chk by auto
    moreover have "\<exists>r s'. long_found argc optstring pe p i v s = Some (r, s')
      \<and> scan_frame s s' \<and> custom_optind s' \<le> argc \<and> nextchar s' = Some []
      \<and> remaining s' = as' \<and> reports t s r s'"
      by (rule long_found_reports [OF len rem arg])
        (use tok [unfolded long_token_def Let_def, folded name_def v_def] Found in simp)
    ultimately show ?thesis by simp
  next
    case Ambiguous
    then have "check_long_opt argc optstring opts pe s = long_ambiguous pe s"
      and "t = Bad qmark" "as' = as"
      using res chk tok [unfolded long_token_def Let_def, folded name_def v_def] by auto
    then show ?thesis
      using long_failed_reports(1) [OF len rem nc, of pe] by (auto simp: reports_def)
  next
    case Unknown
    then have "check_long_opt argc optstring opts pe s = long_unknown pe s"
      and "t = Bad qmark" "as' = as"
      using res chk tok [unfolded long_token_def Let_def, folded name_def v_def] by auto
    then show ?thesis
      using long_failed_reports(2) [OF len rem nc, of pe] by (auto simp: reports_def)
  qed
qed

subsection \<open>Every call agrees with the reference\<close>

lemma scan_frame_trans: "scan_frame s t \<Longrightarrow> scan_frame t u \<Longrightarrow> scan_frame s u"
  by (simp add: scan_frame_def)

text \<open>After a character has been taken from the cluster.\<close>

text \<open>What a short option's branch comes to: the token, and the rest of the arguments.\<close>

definition dispatched where
  "dispatched argc s a t cs' as' run \<longleftrightarrow> (\<exists>r s'. run = Some (r, s')
     \<and> scan_frame s s' \<and> custom_optind s' \<le> argc \<and> cluster s' = cs'
     \<and> remaining s' = (if cs' = [] then as' else a # as') \<and> reports t s r s')"

lemmas dispatched_defs = dispatched_def scan_frame_def cluster_def remaining_def reports_def
  short_dispatch_def short_token_def

lemma short_dispatch_optional:
  assumes len: "length (argv s) = argc" and ind: "custom_optind s \<le> argc"
    and cl: "nextchar s = Some cs" and arg: "custom_optarg s = None"
    and rem: "remaining s = (if cs = [] then as else a # as)"
    and tok: "short_token optstring c cs as = (t, cs', as')"
    and some: "strchr optstring c = Some temp"
    and opt: "c \<noteq> CHR '':''" "char_at temp 1 = CHR '':''" "char_at temp 2 = CHR '':''"
  shows "dispatched argc s a t cs' as' (short_dispatch argc optstring pe c cs s)"
proof (cases "cs = []")
  case True
  moreover have "drop (custom_optind s) (argv s) = as"
    using rem True by (simp add: remaining_def)
  ultimately show ?thesis
    using opt some tok ind by (auto simp: dispatched_defs short_optional_arg_def)
next
  case False
  then show ?thesis
    using opt some tok remaining_Cons [OF len, of a as] rem
    by (auto simp: dispatched_defs short_optional_arg_def)
qed

lemma short_dispatch_required:
  assumes len: "length (argv s) = argc" and ind: "custom_optind s \<le> argc" and pos: "0 < argc"
    and cl: "nextchar s = Some cs" and arg: "custom_optarg s = None"
    and rem: "remaining s = (if cs = [] then as else a # as)"
    and tok: "short_token optstring c cs as = (t, cs', as')"
    and some: "strchr optstring c = Some temp"
    and req: "c \<noteq> CHR '':''" "char_at temp 1 = CHR '':''" "char_at temp 2 \<noteq> CHR '':''"
  shows "dispatched argc s a t cs' as' (short_dispatch argc optstring pe c cs s)"
proof (cases "cs = []")
  case nil: True
  have prog: "argv_at s 0 = Some (argv s ! 0)" using len pos by (simp add: argv_at_def)
  have drp: "drop (custom_optind s) (argv s) = as"
    using rem nil by (simp add: remaining_def)
  show ?thesis
  proof (cases as)
    case Nil
    then have "custom_optind s = argc"
      using rem nil len ind by (simp add: remaining_def)
    then show ?thesis
      using req nil Nil some tok prog drp
      by (auto simp: dispatched_defs short_required_arg_def Let_def missing_code_def)
  next
    case (Cons b bs)
    then have "remaining s = b # bs" using rem nil by simp
    note at = remaining_Cons [OF len this]
    show ?thesis
      using req nil Cons some tok at by (auto simp: dispatched_defs short_required_arg_def)
  qed
next
  case False
  then show ?thesis
    using req some tok remaining_Cons [OF len, of a as] rem
    by (auto simp: dispatched_defs short_required_arg_def)
qed

lemma short_dispatch_reports:
  assumes len: "length (argv s) = argc" and ind: "custom_optind s \<le> argc" and pos: "0 < argc"
    and cl: "nextchar s = Some cs" and arg: "custom_optarg s = None"
    and rem: "remaining s = (if cs = [] then as else a # as)"
    and tok: "short_token optstring c cs as = (t, cs', as')"
  shows "\<exists>r s'. short_dispatch argc optstring pe c cs s = Some (r, s')
    \<and> scan_frame s s' \<and> custom_optind s' \<le> argc \<and> cluster s' = cs'
    \<and> remaining s' = (if cs' = [] then as' else a # as') \<and> reports t s r s'"
proof -
  have prog: "argv_at s 0 = Some (argv s ! 0)" using len pos by (simp add: argv_at_def)
  have drp: "drop (custom_optind s) (argv s) = (if cs = [] then as else a # as)"
    using rem by (simp add: remaining_def)
  have invalid: "dispatched argc s a (Bad qmark) cs as (short_invalid pe c s)"
    using prog ind cl drp by (auto simp: dispatched_defs short_invalid_def)
  have "dispatched argc s a t cs' as' (short_dispatch argc optstring pe c cs s)"
  proof (cases "strchr optstring c")
    case None
    then show ?thesis
      using invalid tok by (auto simp: short_dispatch_def short_token_def)
  next
    case (Some temp)
    consider (colon) "c = CHR '':''" | (plain) "c \<noteq> CHR '':''" "char_at temp 1 \<noteq> CHR '':''"
      | (opt) "c \<noteq> CHR '':''" "char_at temp 1 = CHR '':''" "char_at temp 2 = CHR '':''"
      | (req) "c \<noteq> CHR '':''" "char_at temp 1 = CHR '':''" "char_at temp 2 \<noteq> CHR '':''"
      by blast
    then show ?thesis
    proof cases
      case colon
      then show ?thesis
        using Some invalid tok by (auto simp: short_dispatch_def short_token_def)
    next
      case plain
      then show ?thesis
        using Some tok ind cl rem arg
        by (auto simp: dispatched_def short_dispatch_def short_token_def scan_frame_def cluster_def
            reports_def)
    next
      case opt
      show ?thesis by (rule short_dispatch_optional [OF len ind cl arg rem tok Some opt])
    next
      case req
      show ?thesis by (rule short_dispatch_required [OF len ind pos cl arg rem tok Some req])
    qed
  qed
  then show ?thesis by (simp add: dispatched_def)
qed

lemma check_short_opt_reports:
  assumes len: "length (argv s) = argc" and rem: "remaining s = a # as"
    and nc: "nextchar s = Some (c # cs)" and arg: "custom_optarg s = None"
    and tok: "short_token optstring c cs as = (t, cs', as')"
  shows "\<exists>r s'. check_short_opt argc optstring pe s = Some (r, s')
    \<and> scan_frame s s' \<and> custom_optind s' \<le> argc \<and> cluster s' = cs'
    \<and> remaining s' = (if cs' = [] then as' else a # as') \<and> reports t s r s'"
proof -
  note at = remaining_Cons [OF len rem]
  have drp: "drop (custom_optind s) (argv s) = a # as"
    using rem by (simp add: remaining_def)
  define s2 where "s2 = (if cs = []
     then s\<lparr>nextchar := Some cs, custom_optind := Suc (custom_optind s)\<rparr>
     else s\<lparr>nextchar := Some cs\<rparr>)"
  have "\<exists>r s'. short_dispatch argc optstring pe c cs s2 = Some (r, s')
    \<and> scan_frame s2 s' \<and> custom_optind s' \<le> argc \<and> cluster s' = cs'
    \<and> remaining s' = (if cs' = [] then as' else a # as') \<and> reports t s2 r s'"
    by (rule short_dispatch_reports [OF _ _ _ _ _ _ tok])
      (use at arg drp len in \<open>auto simp: s2_def remaining_def\<close>)
  moreover have "scan_frame s s2" and li: "longind s2 = longind s"
    by (simp_all add: s2_def scan_frame_def)
  then have "scan_frame s2 s' \<Longrightarrow> scan_frame s s'" for s'
    by (blast intro: scan_frame_trans)
  moreover have "reports t s2 r s' = reports t s r s'" for r s'
    unfolding reports_def li ..
  moreover have "check_short_opt argc optstring pe s = short_dispatch argc optstring pe c cs s2"
    by (simp add: check_short_opt_def nc s2_def)
  ultimately show ?thesis by metis
qed

lemma pending_ref:
  assumes "cluster s = cs" and "remaining s = (if cs = [] then as else a # as)"
  shows "pending os opts s = apsnd ((@) (skipped s)) (ref_scan os opts cs as)"
  using assms by (simp add: pending_def split: prod.split)

lemma dispatch_long:
  assumes ok: "scanner_ok argc s" "initialized s" "0 < first_nonopt s"
    and rem: "remaining s = a # as" and dash: "char_at a 1 = CHR ''-''"
    and nc: "nextchar s = Some nc" and arg: "custom_optarg s = None" and names: "names_ok opts"
    and tok: "long_token os opts nc as = (t, as')"
  shows "\<exists>r s'. getopt_dispatch argc os (Some opts) pe s = Some (r, s') \<and> reports t s r s'
    \<and> getopt_ok argc s' \<and> argv s' = argv s \<and> scanner.more s' = scanner.more s
    \<and> pending os opts s' = apsnd ((@) (skipped s)) (ref_scan os opts [] as')"
proof -
  have len: "length (argv s) = argc" using ok by (simp add: scanner_ok_def)
  obtain r s' where step: "check_long_opt argc os opts pe s = Some (r, s')"
    "scan_frame s s'" "custom_optind s' \<le> argc" "nextchar s' = Some []"
    "remaining s' = as'" "reports t s r s'"
    using check_long_opt_reports [OF len rem nc arg names tok] by blast
  have cl: "cluster s' = []" using step(4) by (simp add: cluster_def)
  have "getopt_ok argc s'"
    using ok step(2,3) cl by (auto simp: getopt_ok_def scanner_ok_def scan_frame_def)
  moreover have "pending os opts s' = apsnd ((@) (skipped s)) (ref_scan os opts [] as')"
    using pending_ref [OF cl, of as'] step(5) scan_frame_segments [OF step(2)] by simp
  ultimately show ?thesis
    using step remaining_Cons(2) [OF len rem] dash
    by (auto simp: getopt_dispatch_def scan_frame_def)
qed

lemma dispatch_short:
  assumes ok: "scanner_ok argc s" "initialized s" "0 < first_nonopt s"
    and rem: "remaining s = a # as" and dash: "char_at a 1 \<noteq> CHR ''-''"
    and nc: "nextchar s = Some (c # cs)" and arg: "custom_optarg s = None"
    and tok: "short_token os c cs as = (t, cs', as')"
  shows "\<exists>r s'. getopt_dispatch argc os (Some opts) pe s = Some (r, s') \<and> reports t s r s'
    \<and> getopt_ok argc s' \<and> argv s' = argv s \<and> scanner.more s' = scanner.more s
    \<and> pending os opts s' = apsnd ((@) (skipped s)) (ref_scan os opts cs' as')"
proof -
  have len: "length (argv s) = argc" using ok by (simp add: scanner_ok_def)
  obtain r s' where step: "check_short_opt argc os pe s = Some (r, s')"
    "scan_frame s s'" "custom_optind s' \<le> argc" "cluster s' = cs'"
    "remaining s' = (if cs' = [] then as' else a # as')" "reports t s r s'"
    using check_short_opt_reports [OF len rem nc arg tok] by blast
  have "getopt_ok argc s'"
    using ok step(2-5) dash by (auto simp: getopt_ok_def scanner_ok_def scan_frame_def)
  moreover have "pending os opts s' = apsnd ((@) (skipped s)) (ref_scan os opts cs' as')"
    using pending_ref [OF step(4,5)] scan_frame_segments [OF step(2)] by simp
  ultimately show ?thesis
    using step remaining_Cons(2) [OF len rem] dash
    by (auto simp: getopt_dispatch_def scan_frame_def)
qed

lemma ref_scan_skip:
  "ref_scan os opts [] as
     = apsnd ((@) (takeWhile nonoption as)) (ref_scan os opts [] (dropWhile nonoption as))"
proof (induction as)
  case (Cons a as)
  show ?case
  proof (cases "nonoption a")
    case True
    then have "a \<noteq> ''--''" by (auto simp: nonoption_def)
    then show ?thesis
      using True Cons
      by (cases "ref_scan os opts [] (dropWhile nonoption as)") (simp add: ref_scan.simps)
  next
    case False
    then show ?thesis
      by (cases "ref_scan os opts [] (a # as)") simp
  qed
qed (simp add: ref_scan.simps)

lemma mset_segments:
  assumes "scanner_ok argc s"
  shows "mset (argv s) = mset (consumed s) + mset (skipped s) + mset (remaining s)"
  by (subst scanner_segments(1) [OF assms]) (simp add: consumed_def)

definition permuted :: "'a scanner_scheme \<Rightarrow> 'a scanner_scheme \<Rightarrow> bool" where
  "permuted s s' \<longleftrightarrow> mset (argv s') = mset (argv s) \<and> argv s' ! 0 = argv s ! 0
     \<and> scanner.more s' = scanner.more s"

lemma consumed_first:
  assumes "scanner_ok argc s" and "0 < first_nonopt s"
  shows "(consumed s @ xs) ! 0 = argv s ! 0" and "0 < length (consumed s)"
  using assms by (auto simp: scanner_ok_def consumed_def nth_append)

text \<open>One call, from its result: the first pending token is reported, or the scan ends.\<close>

definition agrees ::
    "nat \<Rightarrow> string \<Rightarrow> option_desc list \<Rightarrow> 'a scanner_scheme \<Rightarrow> (int \<times> 'a scanner_scheme) option \<Rightarrow> bool" where
  "agrees argc os opts s result \<longleftrightarrow>
     (case pending os opts s of
        ([], ops) \<Rightarrow> \<exists>s'. result = Some (-1, s')
          \<and> drop (custom_optind s') (argv s') = ops \<and> permuted s s'
      | (t # ts, ops) \<Rightarrow> \<exists>r s'. result = Some (r, s') \<and> reports t s r s'
          \<and> getopt_ok argc s' \<and> pending os opts s' = (ts, ops) \<and> permuted s s')"

lemma reports_cong:
  assumes "longind q = longind s"
  shows "reports t q r s' = reports t s r s'"
  unfolding reports_def assms ..

lemma agrees_token:
  assumes "\<exists>r s'. result = Some (r, s') \<and> reports t q r s' \<and> getopt_ok argc s'
      \<and> argv s' = argv q \<and> scanner.more s' = scanner.more q
      \<and> pending os opts s' = apsnd ((@) K) (ref_scan os opts cs' as')"
    and "pending os opts s = apsnd ((@) K) (apfst ((#) t) (ref_scan os opts cs' as'))"
    and "longind q = longind s" and "permuted s q"
  shows "agrees argc os opts s result"
  using assms(1,2,4) reports_cong [OF assms(3)]
  by (cases "ref_scan os opts cs' as'") (auto simp: agrees_def permuted_def)

text \<open>Inside a cluster of short options.\<close>

lemma getopt_step_cluster:
  assumes ok: "getopt_ok argc s" and cl: "cluster s = c # cs"
  shows "agrees argc os opts s (getopt_dispatch argc os (Some opts) pe (s\<lparr>custom_optarg := None\<rparr>))"
    (is "agrees _ _ _ _ (getopt_dispatch _ _ _ _ ?q)")
proof -
  have sok: "scanner_ok argc s" "initialized s" "0 < first_nonopt s"
    using ok by (simp_all add: getopt_ok_def)
  obtain a as where rem: "remaining s = a # as" and a: "char_at a 1 \<noteq> CHR ''-''"
    using ok cl by (cases "remaining s") (auto simp: getopt_ok_def)
  obtain t cs' as' where tok: "short_token os c cs as = (t, cs', as')"
    by (cases "short_token os c cs as") auto
  have nc: "nextchar ?q = Some (c # cs)"
    using cl by (auto simp: cluster_def split: option.splits)
  have q: "scanner_ok argc ?q" "remaining ?q = a # as" "skipped ?q = skipped s"
    using sok(1) rem by (simp_all add: scanner_ok_def remaining_def skipped_def)
  have "\<exists>r s'. getopt_dispatch argc os (Some opts) pe ?q = Some (r, s') \<and> reports t ?q r s'
    \<and> getopt_ok argc s' \<and> argv s' = argv ?q \<and> scanner.more s' = scanner.more ?q
    \<and> pending os opts s' = apsnd ((@) (skipped ?q)) (ref_scan os opts cs' as')"
    using sok q a nc tok by (intro dispatch_short) simp_all
  then show ?thesis
    unfolding q(3)
    by (rule agrees_token)
      (use pending_ref [OF cl, of as a] rem tok in \<open>simp_all add: ref_scan.simps permuted_def\<close>)
qed

text \<open>At a new option element, after the shuffle.\<close>

lemma getopt_step_element:
  assumes ok: "scanner_ok argc q" "initialized q" "0 < first_nonopt q"
    and rem: "remaining q = a # as" and opt: "\<not> nonoption a" "a \<noteq> ''--''"
    and nc: "nextchar q = Some (drop (1 + (if char_at a 1 = CHR ''-'' then 1 else 0)) a)"
    and arg: "custom_optarg q = None" and names: "names_ok opts"
    and pen: "pending os opts s = apsnd ((@) (skipped q)) (ref_scan os opts [] (a # as))"
    and "longind q = longind s" and "permuted s q"
  shows "agrees argc os opts s (getopt_dispatch argc os (Some opts) pe q)"
proof (cases "char_at a 1 = CHR ''-''")
  case True
  obtain t as' where tok: "long_token os opts (drop 2 a) as = (t, as')"
    by (cases "long_token os opts (drop 2 a) as")
  have "\<exists>r s'. getopt_dispatch argc os (Some opts) pe q = Some (r, s') \<and> reports t q r s'
    \<and> getopt_ok argc s' \<and> argv s' = argv q \<and> scanner.more s' = scanner.more q
    \<and> pending os opts s' = apsnd ((@) (skipped q)) (ref_scan os opts [] as')"
    using ok rem True nc arg names tok by (intro dispatch_long) (simp_all add: numeral_2_eq_2)
  then show ?thesis
    by (rule agrees_token) (use assms True tok in \<open>simp_all add: ref_scan.simps\<close>)
next
  case False
  obtain c cs where cs: "tl a = c # cs"
    using opt by (cases a; cases "tl a") (auto simp: nonoption_def)
  obtain t cs' as' where tok: "short_token os c cs as = (t, cs', as')"
    by (cases "short_token os c cs as") auto
  have "\<exists>r s'. getopt_dispatch argc os (Some opts) pe q = Some (r, s') \<and> reports t q r s'
    \<and> getopt_ok argc s' \<and> argv s' = argv q \<and> scanner.more s' = scanner.more q
    \<and> pending os opts s' = apsnd ((@) (skipped q)) (ref_scan os opts cs' as')"
    using ok rem False nc arg tok cs by (intro dispatch_short) (simp_all add: drop_Suc)
  then show ?thesis
    by (rule agrees_token) (use assms False cs tok in \<open>simp_all add: ref_scan.simps\<close>)
qed

lemma getopt_internal_r_started:
  assumes "initialized s" and "0 < custom_optind s" and "0 < argc"
    and "pe = (custom_opterr s \<noteq> 0 \<and> char_at os 0 \<noteq> CHR '':'')"
  shows "getopt_internal_r argc os (Some opts) s =
     (if cluster s = [] then shuffle_argv argc True (s\<lparr>custom_optarg := None\<rparr>)
      else Some (0, s\<lparr>custom_optarg := None\<rparr>)) \<bind>
       (\<lambda>(r, s3). if r \<noteq> 0 then Some (r, s3) else getopt_dispatch argc os (Some opts) pe s3)"
  using assms
  by (auto simp: getopt_internal_r_def cluster_def Let_def split: option.split)

lemma getopt_step_shuffle:
  assumes ok: "getopt_ok argc s" and cl: "cluster s = []" and names: "names_ok opts"
  shows "agrees argc os opts s (shuffle_argv argc True (s\<lparr>custom_optarg := None\<rparr>) \<bind>
       (\<lambda>(r, s3). if r \<noteq> 0 then Some (r, s3) else getopt_dispatch argc os (Some opts) pe s3))"
proof -
  let ?q = "s\<lparr>custom_optarg := None\<rparr>"
  have sok: "scanner_ok argc s" "initialized s" "0 < first_nonopt s"
    using ok by (simp_all add: getopt_ok_def)
  have q: "consumed ?q = consumed s" "skipped ?q = skipped s" "remaining ?q = remaining s"
    "scanner_ok argc ?q"
    using sok(1) by (simp_all add: consumed_def skipped_def remaining_def scanner_ok_def)
  define N where "N = takeWhile nonoption (remaining s)"
  define R where "R = dropWhile nonoption (remaining s)"
  define C where "C = consumed s"
  define K where "K = skipped s @ N"
  note shuffle = shuffle_argv_eq [OF q(4) refl refl refl, of True,
      unfolded q, folded N_def R_def C_def, folded K_def]
  have "skipped s @ remaining s = K @ R" by (simp add: K_def N_def R_def)
  then have "mset (skipped s) + mset (remaining s) = mset K + mset R"
    by (metis mset_append)
  then have ms: "mset (argv s) = mset C + mset K + mset R"
    using mset_segments [OF sok(1)] by (simp add: C_def add.assoc)
  have len: "length C + length K + length R = argc"
    using arg_cong [OF ms, of size] sok(1) by (simp add: scanner_ok_def)
  have pen: "pending os opts s = apsnd ((@) K) (ref_scan os opts [] R)"
    using pending_ref [OF cl, of "remaining s"] ref_scan_skip [of os opts "remaining s"]
    by (cases "ref_scan os opts [] R") (simp add: K_def N_def R_def)
  have first: "(C @ xs) ! 0 = argv s ! 0" "0 < length C" for xs
    using consumed_first [OF sok(1,3)] by (simp_all add: C_def)
  consider (last) "R = []" | (dashes) R' where "R = ''--'' # R'"
    | (element) a R' where "R = a # R'" "a \<noteq> ''--''"
    by (cases R) auto
  then show ?thesis
  proof cases
    case element
    then have "\<not> nonoption a"
      unfolding R_def by (metis hd_dropWhile list.distinct(1) list.sel(1))
    then show ?thesis
      unfolding shuffle using element pen len first sok(2) ms names
      by (auto intro!: getopt_step_element
          simp: scanner_ok_def remaining_def skipped_def permuted_def)
  qed (use shuffle pen ms first in \<open>auto simp: agrees_def ref_scan.simps permuted_def\<close>)
qed

lemma getopt_step:
  assumes "getopt_ok argc s" and "names_ok opts"
  shows "agrees argc os opts s (getopt_internal_r argc os (Some opts) s)"
proof -
  have "initialized s" "0 < custom_optind s" "0 < argc"
    using assms(1) by (auto simp: getopt_ok_def scanner_ok_def)
  note int = getopt_internal_r_started [OF this refl]
  show ?thesis
  proof (cases "cluster s")
    case Nil
    then show ?thesis
      unfolding int using getopt_step_shuffle [OF assms(1) Nil assms(2)] by simp
  next
    case (Cons c cs)
    then show ?thesis
      unfolding int using getopt_step_cluster [OF assms(1) Cons] by simp
  qed
qed

text \<open>The first call: \<open>custom_optind\<close> is 0, so the scanner initializes itself.\<close>

lemma getopt_first_step:
  assumes len: "length (argv s) = argc" "0 < argc" and start: "custom_optind s = 0"
  shows "getopt_internal_r argc os (Some opts) s
      = getopt_internal_r argc os (Some opts) (custom_getopt_initialize (s\<lparr>custom_optind := 1\<rparr>))"
    and "getopt_ok argc (custom_getopt_initialize (s\<lparr>custom_optind := 1\<rparr>))"
    and "pending os opts (custom_getopt_initialize (s\<lparr>custom_optind := 1\<rparr>))
      = ref_scan os opts [] (tl (argv s))"
    and "permuted s (custom_getopt_initialize (s\<lparr>custom_optind := 1\<rparr>))"
proof -
  let ?i = "custom_getopt_initialize (s\<lparr>custom_optind := 1\<rparr>)"
  show "getopt_internal_r argc os (Some opts) s = getopt_internal_r argc os (Some opts) ?i"
    using start len by (cases s) (simp add: getopt_internal_r_def custom_getopt_initialize_def)
  have cl: "cluster ?i = []" by (simp add: cluster_def custom_getopt_initialize_def)
  show "getopt_ok argc ?i"
    using len cl by (simp add: getopt_ok_def scanner_ok_def custom_getopt_initialize_def)
  have "remaining ?i = tl (argv s)"
    by (simp add: remaining_def custom_getopt_initialize_def drop_Suc)
  moreover have "skipped ?i = []"
    by (simp add: skipped_def custom_getopt_initialize_def)
  ultimately show "pending os opts ?i = ref_scan os opts [] (tl (argv s))"
    using pending_ref [OF cl, of "tl (argv s)"]
    by (cases "ref_scan os opts [] (tl (argv s))") simp
  show "permuted s ?i" by (simp add: permuted_def custom_getopt_initialize_def)
qed

end
