(* ===== verification/Cmdline_Spec.thy ===== *)
theory Cmdline_Spec
  imports Cmdline Getopt_Spec
begin

text \<open>
  What the command line parser promises: the reference interpretation of a command line
  (\<open>cli_result\<close>), the interpretations of the token interface on the scanner and on the
  parser's loop, and the refinement of the one by the other.
\<close>

section \<open>The scanner as a token source\<close>

definition begun :: "parser_state \<Rightarrow> parser_state" where
  "begun st = (if v_optind st = 0
     then custom_getopt_initialize (st\<lparr>custom_optind := 1\<rparr>) else st)"

definition unread :: "parser_state \<Rightarrow> token list \<times> string list" where
  "unread st = pending ''hV'' long_options (begun st)"

text \<open>The tokens that the program's option table can give.\<close>

definition known_token :: "token \<Rightarrow> bool" where
  "known_token t \<longleftrightarrow>
     (case t of
        Bad code \<Rightarrow> code = qmark
      | Opt code a li \<Rightarrow>
          code = 104 \<or> code = 86
          \<or> code = 0 \<and> (li = Some 2 \<and> a = None \<or> li = Some 3 \<and> a \<noteq> None))"

definition parser_ok :: "nat \<Rightarrow> parser_state \<Rightarrow> bool" where
  "parser_ok argc st \<longleftrightarrow> 0 < argc \<and> length (argv st) = argc
     \<and> (v_optind st \<noteq> 0 \<longrightarrow> getopt_ok argc st \<and> custom_optind st = v_optind st)
     \<and> list_all known_token (fst (unread st))"

text \<open>What a call of the scanner leaves alone.\<close>

definition parser_frame :: "parser_state \<Rightarrow> parser_state \<Rightarrow> bool" where
  "parser_frame st st1 \<longleftrightarrow> mset (argv st1) = mset (argv st) \<and> argv st1 ! 0 = argv st ! 0
     \<and> ai st1 = ai st \<and> local_ai st1 = local_ai st \<and> stdout_out st1 = stdout_out st
     \<and> malloc_calls st1 = malloc_calls st \<and> live_strings st1 = live_strings st
     \<and> package_name st1 = package_name st"

definition says_token :: "token \<Rightarrow> parser_state \<Rightarrow> int \<Rightarrow> parser_state \<Rightarrow> bool" where
  "says_token t st c st1 \<longleftrightarrow> parser_frame st st1 \<and> snd (unread st1) = snd (unread st) \<and>
     (case t of
        Opt code a li \<Rightarrow> c = code \<and> v_optarg st1 = a
          \<and> longind st1 = Some (case li of None \<Rightarrow> 0 | Some i \<Rightarrow> int i)
      | Bad code \<Rightarrow> c = code)"

definition ends_scan :: "parser_state \<Rightarrow> parser_state \<Rightarrow> bool" where
  "ends_scan st st1 \<longleftrightarrow> parser_frame st st1
     \<and> drop (custom_optind st1) (argv st1) = snd (unread st)"

lemma names_ok_long_options: "names_ok long_options"
  by (simp add: names_ok_def long_options_def)

lemma more_fields:
  fixes s t :: parser_state
  assumes "scanner.more s = scanner.more t"
  shows "ai s = ai t" "local_ai s = local_ai t" "stdout_out s = stdout_out t"
    "malloc_calls s = malloc_calls t" "live_strings s = live_strings t"
    "package_name s = package_name t"
  using assms by (cases s; cases t; simp)+

text \<open>The state in which \<open>next_option\<close> enters the scanner.\<close>

definition entered :: "parser_state \<Rightarrow> parser_state" where
  "entered st = st\<lparr>longind := Some 0, glob_optarg := v_optarg st, glob_optind := v_optind st,
     glob_opterr := v_opterr st, glob_optopt := v_optopt st,
     custom_optind := v_optind st, custom_opterr := v_opterr st\<rparr>"

lemma next_option_eq:
  "next_option argc st = (case getopt_internal_r argc ''hV'' (Some long_options) (entered st) of
     None \<Rightarrow> None
   | Some (c, s1) \<Rightarrow> Some (c, s1\<lparr>glob_optind := custom_optind s1, glob_optarg := custom_optarg s1,
       glob_optopt := custom_optopt s1, v_optarg := custom_optarg s1, v_optind := custom_optind s1,
       v_opterr := glob_opterr s1, v_optopt := custom_optopt s1\<rparr>))"
  by (simp add: next_option_def custom_getopt_long_def custom_getopt_internal_def entered_def
      split: option.split prod.split)

lemma scanner_fields_cong:
  assumes "argv q = argv s" "first_nonopt q = first_nonopt s" "last_nonopt q = last_nonopt s"
    "custom_optind q = custom_optind s" "nextchar q = nextchar s" "initialized q = initialized s"
  shows "pending os opts q = pending os opts s" "getopt_ok argc q = getopt_ok argc s"
  using assms
  by (simp_all add: pending_def cluster_def remaining_def skipped_def getopt_ok_def scanner_ok_def)

lemma entered_started:
  assumes "parser_ok argc st"
  obtains q where "getopt_internal_r argc ''hV'' (Some long_options) (entered st)
      = getopt_internal_r argc ''hV'' (Some long_options) q"
    and "getopt_ok argc q" and "pending ''hV'' long_options q = unread st"
    and "permuted (entered st) q" and "longind q = Some 0"
proof (cases "v_optind st = 0")
  case True
  let ?i = "custom_getopt_initialize ((entered st)\<lparr>custom_optind := 1\<rparr>)"
  have e: "length (argv (entered st)) = argc" "0 < argc" "custom_optind (entered st) = 0"
    using assms True by (simp_all add: parser_ok_def entered_def)
  have "pending ''hV'' long_options ?i = pending ''hV'' long_options (begun st)"
    using True by (intro scanner_fields_cong(1))
      (simp_all add: begun_def entered_def custom_getopt_initialize_def)
  moreover have "longind ?i = Some 0"
    by (simp add: entered_def custom_getopt_initialize_def)
  ultimately show thesis
    using that getopt_first_step [OF e] by (simp add: unread_def)
next
  case False
  then have st: "getopt_ok argc st" "custom_optind st = v_optind st"
    using assms by (simp_all add: parser_ok_def)
  have "getopt_ok argc (entered st) = getopt_ok argc st"
    using st(2) by (intro scanner_fields_cong(2)) (simp_all add: entered_def)
  moreover have "pending ''hV'' long_options (entered st) = pending ''hV'' long_options st"
    using st(2) by (intro scanner_fields_cong(1)) (simp_all add: entered_def)
  ultimately show thesis
    using that [of "entered st"] st False
    by (simp add: unread_def begun_def permuted_def) (simp add: entered_def)
qed

text \<open>The state that \<open>next_option\<close> returns, from the scanner's.\<close>

definition left :: "parser_state \<Rightarrow> parser_state" where
  "left s1 = s1\<lparr>glob_optind := custom_optind s1, glob_optarg := custom_optarg s1,
       glob_optopt := custom_optopt s1, v_optarg := custom_optarg s1, v_optind := custom_optind s1,
       v_opterr := glob_opterr s1, v_optopt := custom_optopt s1\<rparr>"

lemma left_frame:
  assumes "permuted (entered st) s1"
  shows "parser_frame st (left s1)"
  using assms more_fields [of s1 "entered st"]
  by (simp add: permuted_def parser_frame_def left_def entered_def)

lemma next_option_end:
  assumes ok: "parser_ok argc st" and none: "fst (unread st) = []"
  shows "\<exists>s1. next_option argc st = Some (-1, s1) \<and> ends_scan st s1"
proof -
  obtain q where q: "getopt_internal_r argc ''hV'' (Some long_options) (entered st)
      = getopt_internal_r argc ''hV'' (Some long_options) q"
    "getopt_ok argc q" "pending ''hV'' long_options q = unread st"
    "permuted (entered st) q" "longind q = Some 0"
    using entered_started [OF ok] by blast
  have "agrees argc ''hV'' long_options q (getopt_internal_r argc ''hV'' (Some long_options) q)"
    by (rule getopt_step [OF q(2) names_ok_long_options])
  then obtain s1 where s1: "getopt_internal_r argc ''hV'' (Some long_options) q = Some (-1, s1)"
    "drop (custom_optind s1) (argv s1) = snd (unread st)" "permuted q s1"
    using q(3) none by (cases "unread st") (auto simp: agrees_def)
  have "permuted (entered st) s1"
    using q(4) s1(3) by (simp add: permuted_def)
  then have "ends_scan st (left s1)"
    using left_frame s1(2) by (simp add: ends_scan_def) (simp add: left_def)
  then show ?thesis
    using s1(1) q(1) by (simp add: next_option_eq left_def)
qed

lemma next_option_token:
  assumes ok: "parser_ok argc st" and some: "fst (unread st) = t # ts"
  shows "\<exists>c s1. next_option argc st = Some (c, s1) \<and> says_token t st c s1
    \<and> parser_ok argc s1 \<and> fst (unread s1) = ts"
proof -
  obtain q where q: "getopt_internal_r argc ''hV'' (Some long_options) (entered st)
      = getopt_internal_r argc ''hV'' (Some long_options) q"
    "getopt_ok argc q" "pending ''hV'' long_options q = unread st"
    "permuted (entered st) q" "longind q = Some 0"
    using entered_started [OF ok] by blast
  have "agrees argc ''hV'' long_options q (getopt_internal_r argc ''hV'' (Some long_options) q)"
    by (rule getopt_step [OF q(2) names_ok_long_options])
  then obtain c s1 where s1: "getopt_internal_r argc ''hV'' (Some long_options) q = Some (c, s1)"
    "reports t q c s1" "getopt_ok argc s1"
    "pending ''hV'' long_options s1 = (ts, snd (unread st))" "permuted q s1"
    using q(3) some by (cases "unread st") (auto simp: agrees_def)
  have frame: "parser_frame st (left s1)"
    using q(4) s1(5) by (intro left_frame) (simp add: permuted_def)
  have pos: "0 < custom_optind s1"
    using s1(3) by (auto simp: getopt_ok_def scanner_ok_def)
  have same: "pending ''hV'' long_options (left s1) = pending ''hV'' long_options s1"
    "getopt_ok argc (left s1) = getopt_ok argc s1"
    by (rule scanner_fields_cong; simp add: left_def)+
  have unread: "unread (left s1) = (ts, snd (unread st))"
    using same(1) s1(4) pos by (simp add: unread_def begun_def) (simp add: left_def)
  have "parser_ok argc (left s1)"
    using ok some unread same(2) s1(3) frame
    by (auto simp: parser_ok_def scanner_ok_def getopt_ok_def left_def)
  moreover have "says_token t st c (left s1)"
    using s1(2) frame unread q(5)
    by (auto simp: says_token_def reports_def left_def split: token.splits option.splits)
  ultimately show ?thesis
    using s1(1) q(1) unread by (simp add: next_option_eq left_def)
qed

interpretation scan: token_source "next_option argc" "parser_ok argc" "\<lambda>st. fst (unread st)"
    says_token ends_scan for argc
  by unfold_locales (rule next_option_end next_option_token; assumption)+

section \<open>The reference interpretation of the tokens\<close>

text \<open>
  What the program does with a command line: help, version, an error, or a run with
  \<open>--generate-signature\<close> given or not and the file of \<open>--show-signature\<close>.
\<close>

datatype cli_result =
    CliHelp
  | CliVersion
  | CliError
  | CliRun bool "string option"

fun cli_step :: "token \<Rightarrow> bool \<times> string option \<Rightarrow> (bool \<times> string option) + cli_result" where
  "cli_step (Bad _) (g, sh) = Inr CliError"
| "cli_step (Opt code a li) (g, sh) =
     (if code = 104 then Inr CliHelp
      else if code = 86 then Inr CliVersion
      else if li = Some 2 then (if g then Inr CliError else Inl (True, sh))
      else (if sh \<noteq> None then Inr CliError else Inl (g, a)))"

definition cli_done :: "bool \<times> string option \<Rightarrow> cli_result" where
  "cli_done a = CliRun (fst a) (snd a)"

definition cli_result :: "string list \<Rightarrow> cli_result" where
  "cli_result args =
     run_tokens cli_step cli_done (fst (ref_scan ''hV'' long_options [] args)) (False, None)"

definition cli_operands :: "string list \<Rightarrow> string list" where
  "cli_operands args = snd (ref_scan ''hV'' long_options [] args)"

definition help_text :: "string \<Rightarrow> string" where
  "help_text version = ''ogrt '' @ version @ newline @ newline @ ''Usage: ogrt [OPTIONS]...''
     @ newline @ newline @ concat (map (\<lambda>l. l @ newline) gengetopt_args_info_help)"

definition version_text :: "string \<Rightarrow> string" where
  "version_text version = ''ogrt '' @ version @ newline"

section \<open>The parser's loop as a client\<close>

definition std_params :: parser_params where
  "std_params = \<lparr>p_override = False, p_initialize = True, p_check_required = True,
     p_check_ambiguity = False, p_print_errors = True\<rparr>"

text \<open>The options structure that stands for a run with the given options.\<close>

definition ai_holds :: "args_info \<Rightarrow> bool \<Rightarrow> string option \<Rightarrow> bool" where
  "ai_holds a g sh \<longleftrightarrow> help_given a = 0 \<and> version_given a = 0
     \<and> generate_signature_given a = (if g then 1 else 0)
     \<and> show_signature_given a = (if sh = None then 0 else 1)
     \<and> show_signature_arg a = sh \<and> show_signature_orig a = sh
     \<and> link_info_mode_counter a = (if g then 1 else 0) + (if sh = None then 0 else 1)"

definition local_ai_holds :: "args_info \<Rightarrow> bool \<Rightarrow> string option \<Rightarrow> bool" where
  "local_ai_holds a g sh \<longleftrightarrow> generate_signature_given a = (if g then 1 else 0)
     \<and> show_signature_given a = (if sh = None then 0 else 1)
     \<and> show_signature_arg a = None \<and> show_signature_orig a = None"

definition live_for :: "string option \<Rightarrow> int" where
  "live_for sh = (if sh = None then 0 else 2)"

definition parser_rel ::
    "string multiset \<Rightarrow> string \<Rightarrow> int \<Rightarrow> string list \<Rightarrow> parser_state \<Rightarrow> bool \<times> string option \<Rightarrow> bool" where
  "parser_rel args out live ops st = (\<lambda>(g, sh).
     mset (argv st) = args \<and> stdout_out st = out \<and> live_strings st = live + live_for sh
     \<and> snd (unread st) = ops \<and> ai_holds (ai st) g sh \<and> local_ai_holds (local_ai st) g sh)"

definition result_rel ::
    "string multiset \<Rightarrow> string \<Rightarrow> int \<Rightarrow> string list \<Rightarrow> string \<Rightarrow> parser_state outcome
     \<Rightarrow> cli_result \<Rightarrow> bool" where
  "result_rel args out live ops version r cli =
     (case cli of
        CliHelp \<Rightarrow> \<exists>s. r = Exited 0 s \<and> stdout_out s = out @ help_text version
      | CliVersion \<Rightarrow> \<exists>s. r = Exited 0 s \<and> stdout_out s = out @ version_text version
      | CliError \<Rightarrow> \<exists>s sh. r = Returned 1 s \<and> stdout_out s = out
          \<and> show_signature_arg (ai s) = sh \<and> show_signature_orig (ai s) = sh
          \<and> live_strings s = live + live_for sh
      | CliRun g sh \<Rightarrow> \<exists>s. r = Returned 0 s \<and> stdout_out s = out \<and> ai_holds (ai s) g sh
          \<and> live_strings s = live + live_for sh
          \<and> mset (argv s) = args \<and> drop (custom_optind s) (argv s) = ops)"

lemma print_help_loop_out:
  "print_help_loop ls st = st\<lparr>stdout_out := stdout_out st @ concat (map (\<lambda>l. l @ newline) ls)\<rparr>"
  by (induction ls arbitrary: st) (simp_all add: printf_out_def)

lemma print_version_out:
  "cmdline_parser_print_version version st
     = st\<lparr>stdout_out := stdout_out st @ version_text version\<rparr>"
  by (simp add: cmdline_parser_print_version_def printf_out_def version_lines_def version_text_def
      CMDLINE_PARSER_PACKAGE_NAME_def gengetopt_args_info_versiontext_def)

lemma print_help_out:
  "cmdline_parser_print_help version st = st\<lparr>stdout_out := stdout_out st @ help_text version\<rparr>"
  by (simp add: cmdline_parser_print_help_def print_help_loop_out print_help_common_def
      print_version_out printf_out_def version_text_def help_text_def
      gengetopt_args_info_purpose_def gengetopt_args_info_usage_def
      gengetopt_args_info_description_def)

lemma release_null:
  assumes "show_signature_arg a = None" and "show_signature_orig a = None"
  shows "cmdline_parser_release a = (clear_given a, 0)"
  using assms
  by (cases a) (simp add: cmdline_parser_release_def free_string_field_def clear_given_def)

lemma release_local_fields:
  assumes "local_ai_holds (local_ai st) g sh"
  shows "release_local_ai st = st\<lparr>local_ai := clear_given (local_ai st)\<rparr>"
  using assms release_null [of "local_ai st"]
  by (cases st) (simp add: release_local_ai_def local_ai_holds_def)

text \<open>What \<open>update_arg\<close> does for the two options, when allocation succeeds.\<close>

lemma update_generate:
  assumes "gg = pg" and "pg = (if g then 1 else 0)"
  shows "update_arg mok \<lparr>s_field = None, s_orig = None, s_given = Some gg, s_prev = Some pg\<rparr>
      v None ARG_NO False False False False opt short None st
    = Some (if g then (True, \<lparr>s_field = None, s_orig = None, s_given = Some gg, s_prev = Some pg\<rparr>,
              eprintf (given_twice_message st opt short None) st)
            else (False, \<lparr>s_field = None, s_orig = None, s_given = Some 1, s_prev = Some 1\<rparr>, st))"
  using assms
  by (simp add: update_arg_def given_before_def store_field_def store_orig_def incr_slot_def)

lemma update_show:
  assumes "sg = ps" and "ps = (if sh = None then 0 else 1)" and "\<And>i. mok i"
  shows "update_arg mok \<lparr>s_field = Some sh, s_orig = Some sh, s_given = Some sg, s_prev = Some ps\<rparr>
      (Some v) None ARG_STRING False False False False opt short None st
    = Some (if sh \<noteq> None
            then (True, \<lparr>s_field = Some sh, s_orig = Some sh, s_given = Some sg, s_prev = Some ps\<rparr>,
                  eprintf (given_twice_message st opt short None) st)
            else (False, \<lparr>s_field = Some (Some v), s_orig = Some (Some v), s_given = Some 1,
                  s_prev = Some 1\<rparr>, st\<lparr>malloc_calls := malloc_calls st + 2,
                                       live_strings := live_strings st + 2\<rparr>))"
  using assms
  by (cases st; cases sh) (simp_all add: update_arg_def given_before_def store_field_def store_orig_def
      incr_slot_def gengetopt_strdup_def free_one_def Let_def)


section \<open>The tokens of the program's option table\<close>

lemma abbreviated_entry:
  "(p, i) \<in> set (abbreviated ps k name) \<Longrightarrow> \<exists>j < length ps. i = k + j \<and> p = ps ! j"
proof (induction ps arbitrary: k)
  case (Cons q qs)
  show ?case
  proof (cases "(p, i) = (q, k)")
    case False
    then have "(p, i) \<in> set (abbreviated qs (Suc k) name)"
      using Cons.prems by (auto split: if_splits)
    then obtain j where "j < length qs" "i = Suc k + j" "p = qs ! j"
      using Cons.IH by blast
    then show ?thesis by (intro exI [of _ "Suc j"]) simp
  qed auto
qed simp

lemma resolve_long_entry:
  assumes "resolve_long opts name = Found p i"
  shows "i < length opts \<and> p = opts ! i"
proof -
  have "(p, i) \<in> set (abbreviated opts 0 name)"
  proof (cases "exactly opts 0 name")
    case Nil
    then show ?thesis using assms by (auto simp: resolve_long_def split: list.splits if_splits)
  next
    case (Cons x xs)
    then have "(p, i) \<in> set (exactly opts 0 name)"
      using assms by (auto simp: resolve_long_def split: prod.splits)
    then show ?thesis by (simp add: exactly_def)
  qed
  then show ?thesis using abbreviated_entry by fastforce
qed

lemma known_long_token:
  "known_token (fst (long_token ''hV'' long_options nc as))"
proof (cases "resolve_long long_options (takeWhile (\<lambda>c. c \<noteq> CHR ''='') nc)")
  case (Found p i)
  have "i = 0 \<and> opt_code p = 104 \<and> has_arg p = 0 \<or> i = 1 \<and> opt_code p = 86 \<and> has_arg p = 0
    \<or> i = 2 \<and> opt_code p = 0 \<and> has_arg p = 0 \<or> i = 3 \<and> opt_code p = 0 \<and> has_arg p = 1"
    using resolve_long_entry [OF Found]
    by (auto simp: long_options_def opt_code_def less_Suc_eq numeral_eq_Suc)
  then show ?thesis
    unfolding long_token_def Let_def Found
    by (auto simp: known_token_def missing_code_def no_argument_def required_argument_def
        split: list.splits)
qed (simp_all add: long_token_def known_token_def)

lemma known_short_token:
  "known_token (fst (short_token ''hV'' c cs as))"
  by (auto simp: short_token_def known_token_def strchr_def int_of_c_char_def char_at_def Let_def)

lemma known_tokens:
  "list_all known_token (fst (ref_scan ''hV'' long_options cs as))"
proof (induction "''hV''" "long_options" cs as rule: ref_scan.induct)
  case (1 c cs as)
  then show ?case using known_short_token [of c cs as]
    by (auto simp: ref_scan.simps split: prod.splits)
next
  case (3 a as)
  then show ?case using known_long_token [of "drop 2 a" as]
    by (auto simp: ref_scan.simps split: prod.splits)
qed (simp_all add: ref_scan.simps)

lemma token_count:
  "length (fst (ref_scan os opts cs as)) \<le> length cs + sum_list (map length as)"
proof (induction os opts cs as rule: ref_scan.induct)
  case (1 os opts c cs as)
  obtain t cs' as' where tok: "short_token os c cs as = (t, cs', as')"
    by (cases "short_token os c cs as")
  moreover have "length cs' \<le> length cs \<and> sum_list (map length as') \<le> sum_list (map length as)"
    using tok by (auto simp: short_token_def split: option.splits list.splits if_splits)
  ultimately show ?case using 1 [OF tok [symmetric]] by (simp add: ref_scan.simps)
next
  case (3 os opts a as)
  obtain t as' where tok: "long_token os opts (drop 2 a) as = (t, as')"
    by (cases "long_token os opts (drop 2 a) as")
  have le: "sum_list (map length as') \<le> sum_list (map length as)"
    using tok by (auto simp: long_token_def Let_def split: resolution.splits list.splits if_splits)
  show ?case
  proof (cases "a = ''--'' \<or> nonoption a")
    case True
    then show ?thesis using 3(1) by (auto simp: ref_scan.simps)
  next
    case False
    then have "1 \<le> length a" by (cases a) (auto simp: nonoption_def char_at_def)
    then show ?thesis
      using False 3(2) [OF _ _ _ tok [symmetric]] 3(3) le
      by (cases "char_at a 1 = CHR ''-''") (simp_all add: ref_scan.simps tok)
  qed
qed (simp add: ref_scan.simps)


section \<open>The parser's body on a token\<close>

text \<open>Whatever the body writes, the rest of the command line stays as it is.\<close>

lemma parser_fields_cong:
  fixes s q :: parser_state
  assumes "argv q = argv s" "first_nonopt q = first_nonopt s" "last_nonopt q = last_nonopt s"
    "custom_optind q = custom_optind s" "nextchar q = nextchar s" "initialized q = initialized s"
    "v_optind q = v_optind s"
  shows "unread q = unread s" "parser_ok argc q = parser_ok argc s"
proof -
  show u: "unread q = unread s"
    unfolding unread_def
    by (rule scanner_fields_cong(1))
      (use assms in \<open>simp_all add: begun_def custom_getopt_initialize_def\<close>)
  show "parser_ok argc q = parser_ok argc s"
    using scanner_fields_cong(2) [OF assms(1-6)] assms u by (simp add: parser_ok_def)
qed

lemma says_rel:
  assumes "parser_rel args out live ops st a" and "says_token t st c s1"
  shows "parser_rel args out live ops s1 a"
  using assms by (cases a) (simp add: parser_rel_def says_token_def parser_frame_def)

lemma args_info_same:
  "generate_signature_given a = n \<Longrightarrow> a\<lparr>generate_signature_given := n\<rparr> = a"
  "show_signature_given a = n \<Longrightarrow> a\<lparr>show_signature_given := n\<rparr> = a"
  "show_signature_arg a = v \<Longrightarrow> a\<lparr>show_signature_arg := v\<rparr> = a"
  "show_signature_orig a = v \<Longrightarrow> a\<lparr>show_signature_orig := v\<rparr> = a"
  by (cases a; simp)+

lemma infos_same:
  fixes s :: parser_state
  shows "ai s = a \<Longrightarrow> local_ai s = l \<Longrightarrow> s\<lparr>ai := a, local_ai := l\<rparr> = s"
  by (cases s) simp

lemma eprintf_parser [simp]:
  fixes s :: parser_state
  shows "ai (eprintf m s) = ai s" "local_ai (eprintf m s) = local_ai s"
    "stdout_out (eprintf m s) = stdout_out s" "live_strings (eprintf m s) = live_strings s"
    "package_name (eprintf m s) = package_name s" "v_optind (eprintf m s) = v_optind s"
  by (simp_all add: eprintf_def)

definition counted :: "parser_state \<Rightarrow> parser_state" where
  "counted s = s\<lparr>ai := (ai s)\<lparr>link_info_mode_counter := link_info_mode_counter (ai s) + 1\<rparr>\<rparr>"

lemma parse_generate_eq:
  assumes "ai_holds (ai s) g sh" and "local_ai_holds (local_ai s) g sh"
  shows "parse_generate_signature mok std_params None s = Some
    (if g then Inr (parse_failure (eprintf
            (given_twice_message s ''generate-signature'' (CHR ''-'') None) (counted s)))
     else Inl ((counted s)\<lparr>ai := (ai (counted s))\<lparr>generate_signature_given := 1\<rparr>,
                 local_ai := (local_ai s)\<lparr>generate_signature_given := 1\<rparr>\<rparr>))"
proof -
  have gg: "generate_signature_given (ai (counted s)) = generate_signature_given (local_ai (counted s))"
    "generate_signature_given (local_ai (counted s)) = (if g then 1 else 0)"
    using assms by (simp_all add: counted_def ai_holds_def local_ai_holds_def)
  have msg: "given_twice_message (counted s) o1 o2 e = given_twice_message s o1 o2 e" for o1 o2 e
    by (simp add: given_twice_message_def counted_def)
  note upd = update_generate [OF gg, of mok]
  show ?thesis
  proof (cases g)
    case True
    then show ?thesis
      using upd gg unfolding parse_generate_signature_def counted_def [symmetric] Let_def
      by (simp add: std_params_def msg args_info_same infos_same)
  next
    case False
    then show ?thesis
      using upd gg unfolding parse_generate_signature_def counted_def [symmetric] Let_def
      by (simp add: std_params_def counted_def)
  qed
qed


lemma parse_show_eq:
  assumes "ai_holds (ai s) g sh" and "local_ai_holds (local_ai s) g sh"
    and "v_optarg s = Some v"
  shows "parse_show_signature (\<lambda>_. True) std_params None s = Some
    (if sh \<noteq> None then Inr (parse_failure (eprintf
            (given_twice_message s ''show-signature'' (CHR ''-'') None) (counted s)))
     else Inl ((counted s)\<lparr>malloc_calls := malloc_calls s + 2, live_strings := live_strings s + 2,
                 ai := (ai (counted s))\<lparr>show_signature_arg := Some v, show_signature_orig := Some v,
                         show_signature_given := 1\<rparr>,
                 local_ai := (local_ai s)\<lparr>show_signature_given := 1\<rparr>\<rparr>))"
proof -
  have gg: "show_signature_given (ai (counted s)) = show_signature_given (local_ai (counted s))"
    "show_signature_given (local_ai (counted s)) = (if sh = None then 0 else 1)"
    and arg: "show_signature_arg (ai (counted s)) = sh" "show_signature_orig (ai (counted s)) = sh"
      "v_optarg (counted s) = Some v"
    using assms by (simp_all add: counted_def ai_holds_def local_ai_holds_def)
  have msg: "given_twice_message (counted s) o1 o2 e = given_twice_message s o1 o2 e" for o1 o2 e
    by (simp add: given_twice_message_def counted_def)
  note upd = update_show [OF gg, of "\<lambda>_. True" v]
  show ?thesis
  proof (cases sh)
    case (Some x)
    then show ?thesis
      using upd gg arg unfolding parse_show_signature_def counted_def [symmetric] Let_def
      by (simp add: std_params_def msg args_info_same infos_same)
  next
    case None
    then show ?thesis
      using upd gg arg unfolding parse_show_signature_def counted_def [symmetric] Let_def
      by (simp add: std_params_def) (simp add: counted_def)
  qed
qed

lemma parse_failure_rel:
  assumes "parser_rel args out live ops s (g, sh)" and "local_ai s1 = local_ai s"
    and "stdout_out s1 = stdout_out s" and "live_strings s1 = live_strings s"
    and "show_signature_arg (ai s1) = show_signature_arg (ai s)"
    and "show_signature_orig (ai s1) = show_signature_orig (ai s)"
  shows "result_rel args out live ops version (parse_failure s1) CliError"
  using assms release_local_fields [of s1 g sh]
  by (simp add: parse_failure_def result_rel_def parser_rel_def ai_holds_def)

text \<open>The body does on a token what \<open>cli_step\<close> does.\<close>

text \<open>What the switch makes of a token, and what the token means, agree.\<close>

definition step_agrees where
  "step_agrees args out live ops version argc s1 t a run \<longleftrightarrow>
     (case cli_step t a of
        Inl a' \<Rightarrow> \<exists>s2. run = Some (Inl s2)
          \<and> parser_ok argc s2 \<and> fst (unread s2) = fst (unread s1) \<and> parser_rel args out live ops s2 a'
      | Inr b \<Rightarrow> \<exists>r. run = Some (Inr r) \<and> result_rel args out live ops version r b)"

lemma failed_again:
  assumes "parser_rel args out live ops s1 (g, sh)"
  shows "result_rel args out live ops version (parse_failure (eprintf m (counted s1))) CliError"
  by (rule parse_failure_rel [OF assms]) (simp_all add: counted_def)

lemma generate_step:
  assumes ok1: "parser_ok argc s1" and rel1: "parser_rel args out live ops s1 (g, sh)"
  shows "step_agrees args out live ops version argc s1 (Opt 0 None (Some 2)) (g, sh)
    (parse_generate_signature (\<lambda>_. True) std_params None s1)"
proof -
  have holds: "ai_holds (ai s1) g sh" "local_ai_holds (local_ai s1) g sh"
    using rel1 by (simp_all add: parser_rel_def)
  show ?thesis
  proof (cases g)
    case True
    then show ?thesis
      using failed_again [OF rel1] by (simp add: step_agrees_def parse_generate_eq [OF holds])
  next
    case False
    define s2 where "s2 = (counted s1)\<lparr>ai := (ai (counted s1))\<lparr>generate_signature_given := 1\<rparr>,
               local_ai := (local_ai s1)\<lparr>generate_signature_given := 1\<rparr>\<rparr>"
    have "unread s2 = unread s1" "parser_ok argc s2 = parser_ok argc s1"
      by (rule parser_fields_cong; simp add: s2_def counted_def)+
    moreover have "parser_rel args out live ops s2 (True, sh)"
      using rel1 False calculation(1)
      by (simp add: parser_rel_def ai_holds_def local_ai_holds_def) (simp add: s2_def counted_def)
    ultimately show ?thesis
      using False ok1 by (simp add: step_agrees_def parse_generate_eq [OF holds] s2_def)
  qed
qed

lemma show_step:
  assumes ok1: "parser_ok argc s1" and rel1: "parser_rel args out live ops s1 (g, sh)"
    and arg: "v_optarg s1 = Some v"
  shows "step_agrees args out live ops version argc s1 (Opt 0 (Some v) (Some 3)) (g, sh)
    (parse_show_signature (\<lambda>_. True) std_params None s1)"
proof -
  have holds: "ai_holds (ai s1) g sh" "local_ai_holds (local_ai s1) g sh"
    using rel1 by (simp_all add: parser_rel_def)
  show ?thesis
  proof (cases "sh = None")
    case False
    then show ?thesis
      using failed_again [OF rel1] by (simp add: step_agrees_def parse_show_eq [OF holds arg])
  next
    case True
    define s2 where "s2 = (counted s1)\<lparr>malloc_calls := malloc_calls s1 + 2,
       live_strings := live_strings s1 + 2,
       ai := (ai (counted s1))\<lparr>show_signature_arg := Some v, show_signature_orig := Some v,
         show_signature_given := 1\<rparr>,
       local_ai := (local_ai s1)\<lparr>show_signature_given := 1\<rparr>\<rparr>"
    have "unread s2 = unread s1" "parser_ok argc s2 = parser_ok argc s1"
      by (rule parser_fields_cong; simp add: s2_def counted_def)+
    moreover have "parser_rel args out live ops s2 (g, Some v)"
      using rel1 True calculation(1)
      by (simp add: parser_rel_def ai_holds_def local_ai_holds_def live_for_def)
        (simp add: s2_def counted_def)
    ultimately show ?thesis
      using True ok1 by (simp add: step_agrees_def parse_show_eq [OF holds arg] s2_def)
  qed
qed

lemma parse_switch_step:
  assumes ok: "parser_ok argc st" and ok1: "parser_ok argc s1"
    and rel: "parser_rel args out live ops st a" and says: "says_token t st c s1"
    and known: "known_token t"
  shows "c \<noteq> -1 \<and>
    (case cli_step t a of
       Inl a' \<Rightarrow> \<exists>s2. parse_switch (\<lambda>_. True) version std_params None c s1 = Some (Inl s2)
         \<and> parser_ok argc s2 \<and> fst (unread s2) = fst (unread s1) \<and> parser_rel args out live ops s2 a'
     | Inr b \<Rightarrow> \<exists>r. parse_switch (\<lambda>_. True) version std_params None c s1 = Some (Inr r)
         \<and> result_rel args out live ops version r b)"
proof -
  obtain g sh where a: "a = (g, sh)" by (cases a)
  have rel1: "parser_rel args out live ops s1 (g, sh)"
    using says_rel [OF rel says] a by simp
  then have holds: "ai_holds (ai s1) g sh" "local_ai_holds (local_ai s1) g sh"
    by (simp_all add: parser_rel_def)
  have printed: "release_local_ai (s1\<lparr>stdout_out := x\<rparr>)
      = s1\<lparr>stdout_out := x, local_ai := clear_given (local_ai s1)\<rparr>" for x
    using release_local_fields [of "s1\<lparr>stdout_out := x\<rparr>" g sh] holds by simp
  consider (asks) li v where "t = Opt 104 v li" | (version) li v where "t = Opt 86 v li"
    | (gen) "t = Opt 0 None (Some 2)" | (sho) v where "t = Opt 0 (Some v) (Some 3)"
    | (bad) "t = Bad qmark"
    using known by (auto simp: known_token_def split: token.splits)
  then show ?thesis
  proof cases
    case asks
    then show ?thesis
      using says rel1
      by (simp add: says_token_def a parse_switch_def print_help_out cmdline_parser_free_local_def
          result_rel_def parser_rel_def printed)
  next
    case version
    then show ?thesis
      using says rel1
      by (simp add: says_token_def a parse_switch_def print_version_out cmdline_parser_free_local_def
          result_rel_def parser_rel_def printed)
  next
    case gen
    then have c: "c = 0" "longind s1 = Some 2"
      using says by (simp_all add: says_token_def)
    have "parse_switch (\<lambda>_. True) version std_params None 0 s1
        = parse_generate_signature (\<lambda>_. True) std_params None s1"
      by (simp add: parse_switch_def c(2) long_options_def)
    then show ?thesis
      using generate_step [OF ok1 rel1, of version] by (simp add: step_agrees_def gen a c(1) split: if_splits)
  next
    case (sho v)
    then have c: "c = 0" "longind s1 = Some 3" "v_optarg s1 = Some v"
      using says by (simp_all add: says_token_def)
    have "parse_switch (\<lambda>_. True) version std_params None 0 s1
        = parse_show_signature (\<lambda>_. True) std_params None s1"
      by (simp add: parse_switch_def c(2) long_options_def)
    then show ?thesis
      using show_step [OF ok1 rel1 c(3), of version] by (simp add: step_agrees_def sho a c(1) split: if_splits)
  next
    case bad
    have c: "c = qmark" using bad says by (simp add: says_token_def)
    have "result_rel args out live ops version (parse_failure s1) CliError"
      by (rule parse_failure_rel [OF rel1]) simp_all
    then show ?thesis
      using bad c by (simp add: a parse_switch_def qmark_def)
  qed
qed

interpretation parser: token_client "next_option argc" "parser_ok argc" "\<lambda>st. fst (unread st)"
    says_token ends_scan "parse_switch (\<lambda>_. True) version std_params None"
    "\<lambda>s. Returned 0 (release_local_ai s)" cli_step cli_done "parser_rel args out live ops"
    "result_rel args out live ops version"
  for argc version args out live ops
proof unfold_locales
  fix s a s1
  assume "parser_rel args out live ops s a" and "ends_scan s s1"
  then show "result_rel args out live ops version (Returned 0 (release_local_ai s1)) (cli_done a)"
    using release_local_fields [of s1 "fst a" "snd a"]
    by (cases a) (simp add: parser_rel_def ends_scan_def parser_frame_def cli_done_def result_rel_def)
next
  fix s :: parser_state and a t ts c s1
  assume "parser_ok argc s" and "parser_rel args out live ops s a" and "fst (unread s) = t # ts"
    and "says_token t s c s1" and "parser_ok argc s1"
  then show "c \<noteq> -1 \<and>
      (case cli_step t a of
         Inl a' \<Rightarrow> \<exists>s2. parse_switch (\<lambda>_. True) version std_params None c s1 = Some (Inl s2)
           \<and> parser_ok argc s2 \<and> fst (unread s2) = fst (unread s1) \<and> parser_rel args out live ops s2 a'
       | Inr b \<Rightarrow> \<exists>r. parse_switch (\<lambda>_. True) version std_params None c s1 = Some (Inr r)
           \<and> result_rel args out live ops version r b)"
    using parse_switch_step [of argc s s1] by (simp add: parser_ok_def)
qed

text \<open>The state in which the loop of \<open>cmdline_parser_internal\<close> starts.\<close>

definition started :: "parser_state \<Rightarrow> parser_state" where
  "started st = st\<lparr>package_name := argv_at st 0, ai := cmdline_parser_init (ai st),
     local_ai := cmdline_parser_init (local_ai st),
     v_optarg := None, v_optind := 0, v_opterr := 1, v_optopt := qmark\<rparr>"

lemma init_holds:
  "ai_holds (cmdline_parser_init a) False None" "local_ai_holds (cmdline_parser_init a) False None"
  by (simp_all add: ai_holds_def local_ai_holds_def cmdline_parser_init_def init_args_info_def
      clear_args_def clear_given_def)

lemma started_unread:
  assumes "argv st = name # args"
  shows "unread (started st) = ref_scan ''hV'' long_options [] args"
  using assms
  by (simp add: unread_def begun_def started_def pending_def cluster_def remaining_def skipped_def
      custom_getopt_initialize_def)

lemma started_ok:
  assumes "argv st = name # args"
  shows "parser_ok (length (argv st)) (started st)"
  using known_tokens [of "[]" args] started_unread [OF assms] assms
  by (simp add: parser_ok_def) (simp add: started_def)

lemma parse_fuel_enough:
  assumes "argv st = name # args"
  shows "length (fst (unread (started st))) < parse_fuel (argv st)"
  using token_count [of "''hV''" long_options "[]" args] started_unread [OF assms] assms
  by (simp add: parse_fuel_def)

lemma cmdline_parser_internal_refines:
  assumes args: "argv st = name # args" and len: "length (argv st) = argc"
  shows "\<exists>r. cmdline_parser_internal (\<lambda>_. True) version argc std_params None st = Some r
    \<and> result_rel (mset (argv st)) (stdout_out st) (live_strings st) (cli_operands args) version r
        (cli_result args)"
proof -
  have start: "cmdline_parser_internal (\<lambda>_. True) version argc std_params None st
    = drive (parse_fuel (argv st)) (next_option argc) (parse_switch (\<lambda>_. True) version std_params None)
        (\<lambda>s. Returned 0 (release_local_ai s)) (started st)"
    by (simp add: cmdline_parser_internal_def std_params_def started_def Let_def)
  have rel: "parser_rel (mset (argv st)) (stdout_out st) (live_strings st) (cli_operands args)
      (started st) (False, None)"
    using init_holds started_unread [OF args]
    by (simp add: parser_rel_def cli_operands_def live_for_def) (simp add: started_def)
  show ?thesis
    using parser.drive_refines [OF started_ok [OF args, unfolded len] rel parse_fuel_enough [OF args],
        of version]
    by (simp add: start cli_result_def started_unread [OF args])
qed

text \<open>What the caller of \<open>cmdline_parser\<close> sees.\<close>

definition parser_outcome ::
    "string \<Rightarrow> parser_state \<Rightarrow> parser_state outcome \<Rightarrow> bool" where
  "parser_outcome version st r =
     (case cli_result (tl (argv st)) of
        CliHelp \<Rightarrow> \<exists>s. r = Exited 0 s \<and> stdout_out s = stdout_out st @ help_text version
      | CliVersion \<Rightarrow> \<exists>s. r = Exited 0 s \<and> stdout_out s = stdout_out st @ version_text version
      | CliError \<Rightarrow> \<exists>s. r = Exited 1 s \<and> stdout_out s = stdout_out st
          \<and> live_strings s = live_strings st
      | CliRun g sh \<Rightarrow> \<exists>s. r = Returned 0 s \<and> stdout_out s = stdout_out st \<and> ai_holds (ai s) g sh
          \<and> live_strings s = live_strings st + live_for sh \<and> mset (argv s) = mset (argv st)
          \<and> drop (custom_optind s) (argv s) = cli_operands (tl (argv st)))"

lemma release_ai_live:
  assumes "show_signature_arg (ai s) = sh" and "show_signature_orig (ai s) = sh"
  shows "stdout_out (cmdline_parser_free s) = stdout_out s"
    "live_strings (cmdline_parser_free s) = live_strings s - live_for sh"
  using assms
  by (auto simp: cmdline_parser_free_def release_ai_def cmdline_parser_release_def
      free_string_field_def live_for_def split: option.splits)

lemma exit_on_failure_refines:
  assumes "result_rel (mset (argv st)) (stdout_out st) (live_strings st) (cli_operands args) version r
        (cli_result args)" and "argv st = name # args"
  shows "parser_outcome version st (exit_on_failure r)"
  using assms release_ai_live
  by (cases "cli_result args") (auto simp: parser_outcome_def result_rel_def exit_on_failure_def)

lemma cmdline_parser_refines:
  assumes "argv st \<noteq> []" and "length (argv st) = argc"
  shows "\<exists>r. cmdline_parser (\<lambda>_. True) version argc st = Some r \<and> parser_outcome version st r"
proof -
  obtain name args where args: "argv st = name # args" using assms by (cases "argv st") auto
  then show ?thesis
    using cmdline_parser_internal_refines [OF args assms(2), of version]
      exit_on_failure_refines [OF _ args, of version]
    by (auto simp: cmdline_parser_def cmdline_parser2_def std_params_def)
qed

end
