(* ===== verification/Cmdline_Properties.thy ===== *)
theory Cmdline_Properties
  imports Cmdline_Spec
begin

text \<open>
  The properties of the command line component (client/src/ogrt-cmdline.c): first the
  option scanner, then the parser on top of it. The proofs are in Argv_Shuffle,
  Getopt_Spec and Cmdline_Spec.
\<close>

section \<open>Properties of the scanner\<close>

text \<open>A scanner in the middle of \<open>ogrt a -V b --show-signature f c\<close>: one operand skipped.\<close>

definition sample_scanner :: scanner where
  "sample_scanner = \<lparr>custom_optind = 3, custom_opterr = 1, custom_optopt = 63,
     custom_optarg = None, initialized = True, nextchar = Some [], first_nonopt = 1,
     last_nonopt = 2,
     argv = [''ogrt'', ''a'', ''-V'', ''b'', ''--show-signature'', ''f'', ''c''],
     longind = Some 0, flagmem = (\<lambda>_. 0), stderr_out = []\<rparr>"

lemma sample_scanner_ok: "scanner_ok 7 sample_scanner" "getopt_ok 7 sample_scanner"
  by (simp_all add: sample_scanner_def scanner_ok_def getopt_ok_def cluster_def)

text \<open>
  \<open>exchange\<close> rotates the skipped operands behind the options that follow them: the
  vector keeps its consumed options, then come the operands in their order, then what is
  unread, and the operands' bounds are moved with them.
\<close>

theorem exchange_rotates:
  assumes "scanner_ok argc s"
  shows "exchange s = Some (s\<lparr>argv := consumed s @ skipped s @ remaining s,
      first_nonopt := length (consumed s), last_nonopt := custom_optind s\<rparr>)
    \<and> mset (consumed s @ skipped s @ remaining s) = mset (argv s)
    \<and> length (consumed s) + length (skipped s) = custom_optind s"
  using exchange_ok [OF assms] mset_segments [OF assms] scanner_segments [OF assms] by simp

theorem exchange_rotates_witness:
  "exchange sample_scanner = Some (sample_scanner\<lparr>
     argv := [''ogrt'', ''-V'', ''a'', ''b'', ''--show-signature'', ''f'', ''c''],
     first_nonopt := 2, last_nonopt := 3\<rparr>)"
  using exchange_rotates [OF sample_scanner_ok(1)]
  by (simp add: consumed_def skipped_def remaining_def) (simp add: sample_scanner_def)

text \<open>
  C18: \<open>shuffle_argv\<close> never leaves the argument vector: from a well-formed scanner it
  skips the operands, puts them behind the options consumed so far, and stops at the end of
  the vector (value -1, operands from \<open>custom_optind\<close>), after \<open>--\<close> (value -1), or at the
  next option, whose text it leaves in \<open>nextchar\<close>.
\<close>

theorem shuffle_argv_correct:
  assumes "scanner_ok argc s"
  shows "let C = consumed s; K = skipped s @ takeWhile nonoption (remaining s) in
    shuffle_argv argc lo s = Some (case dropWhile nonoption (remaining s) of
      [] \<Rightarrow> (-1, s\<lparr>argv := C @ K, first_nonopt := length C,
                  last_nonopt := argc, custom_optind := length C\<rparr>)
    | a # R' \<Rightarrow>
        if a = ''--''
        then (-1, s\<lparr>argv := C @ ''--'' # K @ R', first_nonopt := Suc (length C),
                    last_nonopt := argc, custom_optind := Suc (length C)\<rparr>)
        else (0, s\<lparr>argv := C @ K @ a # R', first_nonopt := length C,
                   last_nonopt := length C + length K, custom_optind := length C + length K,
                   nextchar := Some (drop (1 + (if lo \<and> char_at a 1 = CHR ''-'' then 1 else 0)) a)\<rparr>))"
  using shuffle_argv_eq [OF assms refl refl refl, of lo]
  by (cases "dropWhile nonoption (remaining s)")
    (simp_all add: Let_def del: dropWhile_eq_Nil_conv)

theorem shuffle_argv_correct_witness:
  "shuffle_argv 7 True sample_scanner = Some (0, sample_scanner\<lparr>
     argv := [''ogrt'', ''-V'', ''a'', ''b'', ''--show-signature'', ''f'', ''c''],
     first_nonopt := 2, last_nonopt := 4, custom_optind := 4,
     nextchar := Some ''show-signature''\<rparr>)"
  using shuffle_argv_correct [OF sample_scanner_ok(1), of True]
  by (simp add: consumed_def skipped_def remaining_def nonoption_def Let_def)
    (simp add: sample_scanner_def nonoption_def)

text \<open>
  The search for a long option finds what the reference resolution finds: an exact
  match wins, an abbreviation is accepted when every entry it abbreviates is of the same
  kind, and it is ambiguous otherwise.
\<close>

theorem match_long_correct:
  assumes "names_ok opts" and "n \<le> length nc"
    and "match_long opts 0 nc n None False = (r, e, am)"
  shows "case resolve_long opts (take n nc) of
      Found p i \<Rightarrow> r = Some (p, i) \<and> (e \<or> \<not> am)
    | Ambiguous \<Rightarrow> am \<and> \<not> e
    | Unknown \<Rightarrow> r = None \<and> \<not> am"
  using match_long_resolve [OF assms] .

theorem match_long_correct_witness:
  "resolve_long long_options ''show'' = Found (long_options ! 3) 3
   \<and> match_long long_options 0 ''show=f'' 4 None False = (Some (long_options ! 3, 3), False, False)"
  using match_long_correct [OF names_ok_long_options, of 4 "''show=f''"]
  by (simp add: long_options_def resolve_long_def exactly_def strncmp_eq_def names_ok_def)

text \<open>
  C17: every call of \<open>getopt_internal_r\<close> on a well-formed scanner is defined and reports
  the next token of the reference scanner, which reads the same command line without
  indices, pointers or permutation: the option's value, its argument and its index, or the
  end of the options with the operands in their original order. The vector stays a
  permutation of itself with its first element in place.
\<close>

theorem getopt_call_correct:
  assumes "getopt_ok argc s" and "names_ok opts"
  shows "case pending os opts s of
      ([], ops) \<Rightarrow> \<exists>s'. getopt_internal_r argc os (Some opts) s = Some (-1, s')
        \<and> drop (custom_optind s') (argv s') = ops \<and> permuted s s'
    | (t # ts, ops) \<Rightarrow> \<exists>r s'. getopt_internal_r argc os (Some opts) s = Some (r, s')
        \<and> reports t s r s' \<and> getopt_ok argc s' \<and> pending os opts s' = (ts, ops) \<and> permuted s s'"
  using getopt_step [OF assms] by (simp add: agrees_def)

theorem getopt_call_correct_witness:
  "\<exists>r s'. getopt_internal_r 7 ''hV'' (Some long_options) sample_scanner = Some (r, s')
    \<and> r = 0 \<and> custom_optarg s' = Some ''f'' \<and> longind s' = Some 3"
proof -
  have "pending ''hV'' long_options sample_scanner
      = ([Opt 0 (Some ''f'') (Some 3)], [''a'', ''b'', ''c''])"
    by code_simp
  then show ?thesis
    using getopt_call_correct [OF sample_scanner_ok(2) names_ok_long_options, of "''hV''"]
    by (fastforce simp: reports_def sample_scanner_def)
qed

section \<open>Properties of the parser\<close>

text \<open>The state in which a program starts: all statics zero.\<close>

definition zero_info :: args_info where
  "zero_info = \<lparr>help_help = [], version_help = [], generate_signature_help = [],
     show_signature_arg = None, show_signature_orig = None, show_signature_help = [],
     help_given = 0, version_given = 0, generate_signature_given = 0, show_signature_given = 0,
     link_info_mode_counter = 0\<rparr>"

definition fresh_parser :: "string list \<Rightarrow> parser_state" where
  "fresh_parser args = \<lparr>custom_optind = 0, custom_opterr = 0, custom_optopt = 0,
     custom_optarg = None, initialized = False, nextchar = None, first_nonopt = 0,
     last_nonopt = 0, argv = args, longind = None, flagmem = (\<lambda>_. 0), stderr_out = [],
     glob_optarg = None, glob_optind = 1, glob_opterr = 1, glob_optopt = 63,
     package_name = None, stdout_out = [], ai = zero_info, local_ai = zero_info,
     v_optarg = None, v_optind = 0, v_opterr = 0, v_optopt = 0, malloc_calls = 0,
     live_strings = 0\<rparr>"

text \<open>
  C7: \<open>cmdline_parser\<close> returns or exits on every command line, from any state of the
  scanner's statics, and does what the reference reading says: \<open>--help\<close> and
  \<open>--version\<close> print their text and exit with 0; an error (an unknown or ambiguous
  option, a missing or unwanted argument, an option given twice) exits with 1, prints
  nothing on standard output and leaks nothing; otherwise it returns 0 with the options
  stored, two strings allocated for the file, and the operands in order at the end of a
  permuted vector.
\<close>

theorem cmdline_parser_correct:
  assumes "argv st \<noteq> []" and "length (argv st) = argc"
  shows "\<exists>r. cmdline_parser (\<lambda>_. True) version argc st = Some r \<and>
     (case cli_result (tl (argv st)) of
        CliHelp \<Rightarrow> \<exists>s. r = Exited 0 s \<and> stdout_out s = stdout_out st @ help_text version
      | CliVersion \<Rightarrow> \<exists>s. r = Exited 0 s \<and> stdout_out s = stdout_out st @ version_text version
      | CliError \<Rightarrow> \<exists>s. r = Exited 1 s \<and> stdout_out s = stdout_out st
          \<and> live_strings s = live_strings st
      | CliRun g sh \<Rightarrow> \<exists>s. r = Returned 0 s \<and> stdout_out s = stdout_out st \<and> ai_holds (ai s) g sh
          \<and> live_strings s = live_strings st + live_for sh \<and> mset (argv s) = mset (argv st)
          \<and> drop (custom_optind s) (argv s) = cli_operands (tl (argv st)))"
  using cmdline_parser_refines [OF assms, of version] by (simp add: parser_outcome_def)

theorem cmdline_parser_correct_witness:
  "\<exists>s. cmdline_parser (\<lambda>_. True) ''0.5'' 4 (fresh_parser [''ogrt'', ''x'', ''--show'', ''f''])
      = Some (Returned 0 s) \<and> show_signature_arg (ai s) = Some ''f''
     \<and> drop (custom_optind s) (argv s) = [''x'']"
proof -
  have r: "cli_result [''x'', ''--show'', ''f''] = CliRun False (Some ''f'')"
    "cli_operands [''x'', ''--show'', ''f''] = [''x'']"
    by code_simp+
  let ?st = "fresh_parser [''ogrt'', ''x'', ''--show'', ''f'']"
  have st: "argv ?st = [''ogrt'', ''x'', ''--show'', ''f'']"
    by (simp add: fresh_parser_def)
  have "argv ?st \<noteq> []" and "length (argv ?st) = 4"
    by (simp_all add: st)
  from cmdline_parser_correct [OF this, of "''0.5''"] show ?thesis
    by (auto simp: st r ai_holds_def)
qed

text \<open>
  Every non-empty beginning of an option's name, and nothing else, selects that
  option: the program's four names begin with different letters, so no abbreviation is
  ambiguous except the empty name (\<open>--=x\<close>).
\<close>

theorem long_options_resolve:
  "resolve_long long_options name =
     (if name = [] then Ambiguous
      else if take (length name) ''help'' = name then Found (long_options ! 0) 0
      else if take (length name) ''version'' = name then Found (long_options ! 1) 1
      else if take (length name) ''generate-signature'' = name then Found (long_options ! 2) 2
      else if take (length name) ''show-signature'' = name then Found (long_options ! 3) 3
      else Unknown)"
proof -
  define P where "P q \<longleftrightarrow> take (length name) q = name" for q :: string
  define ent where "ent i = (long_options ! i, i)" for i
  have names: "map opt_name long_options = [''help'', ''version'', ''generate-signature'', ''show-signature'']"
    by (simp add: long_options_def)
  have entries: "abbreviated long_options 0 name =
      (if P ''help'' then [ent 0] else []) @ (if P ''version'' then [ent 1] else [])
      @ (if P ''generate-signature'' then [ent 2] else [])
      @ (if P ''show-signature'' then [ent 3] else [])"
    by (simp add: long_options_def P_def ent_def)
  have single: "(case filter (\<lambda>(p, _). opt_name p = name) [ent i] of (p, i) # _ \<Rightarrow> Found p i
      | [] \<Rightarrow> (case [ent i] of [] \<Rightarrow> Unknown | (p, i) # rest \<Rightarrow>
          if list_all (\<lambda>(q, _). same_kind p q) rest then Found p i else Ambiguous))
      = Found (long_options ! i) i" for i
    by (simp add: ent_def)
  show ?thesis
  proof (cases name)
    case Nil
    then show ?thesis
      by (simp add: resolve_long_def exactly_def long_options_def same_kind_def)
  next
    case (Cons c n)
    then have first: "P (d # m) \<Longrightarrow> c = d" for d m
      by (simp add: P_def)
    consider (none) "\<not> P ''help''" "\<not> P ''version''" "\<not> P ''generate-signature''" "\<not> P ''show-signature''"
      | (h) "P ''help''" "\<not> P ''version''" "\<not> P ''generate-signature''" "\<not> P ''show-signature''"
      | (v) "\<not> P ''help''" "P ''version''" "\<not> P ''generate-signature''" "\<not> P ''show-signature''"
      | (g) "\<not> P ''help''" "\<not> P ''version''" "P ''generate-signature''" "\<not> P ''show-signature''"
      | (s) "\<not> P ''help''" "\<not> P ''version''" "\<not> P ''generate-signature''" "P ''show-signature''"
      using first [of "CHR ''h''" "''elp''"] first [of "CHR ''v''" "''ersion''"]
        first [of "CHR ''g''" "''enerate-signature''"] first [of "CHR ''s''" "''how-signature''"]
      by auto
    then show ?thesis
      unfolding P_def [symmetric] resolve_long_def exactly_def entries
      using single Cons by cases (simp_all only: if_True if_False append_Nil append_Nil2 list.simps simp_thms, simp_all)
  qed
qed

definition owned :: "arg_slots \<Rightarrow> int" where
  "owned sl = (if \<exists>v. s_field sl = Some (Some v) then 1 else 0)
     + (if \<exists>v. s_orig sl = Some (Some v) then 1 else 0)"

text \<open>
  \<open>update_arg\<close> owns what its slots point to: whatever allocation does, the number
  of live strings changes by exactly the change in the number of non-null slots, so an
  overwritten value is freed and none is lost.
\<close>

theorem update_arg_balanced:
  assumes "update_arg mok sl v pv ty amb ov False multi lo so e st = Some (failed, sl', st')"
  shows "live_strings st' - owned sl' = live_strings st - owned sl"
proof -
  have field: "live_strings st2 - owned sl2 = live_strings st1 - owned sl1"
    if "store_field mok False ty w sl1 st1 = Some (sl2, st2)" for w sl1 st1 sl2 st2
    using that
    by (auto simp: store_field_def gengetopt_strdup_def free_one_def owned_def Let_def
        split: if_splits option.splits)
  have orig: "live_strings st2 - owned sl2 = live_strings st1 - owned sl1"
    if "store_orig mok False ty w sl1 st1 = (sl2, st2)" for w sl1 st1 sl2 st2
    using that
    by (auto simp: store_orig_def gengetopt_strdup_def free_one_def owned_def
        split: if_splits option.splits)
  have given: "owned (sl\<lparr>s_prev := p, s_given := q\<rparr>) = owned sl" for p q
    by (simp add: owned_def)
  show ?thesis
    using assms field orig given
    by (auto simp: update_arg_def given_before_def eprintf_def Let_def split: if_splits bind_splits prod.splits)
qed

text \<open>
  An option that was given before on the same command line is refused: \<open>update_arg\<close>
  fails and changes neither the slots nor the strings.
\<close>

theorem update_arg_given_twice:
  assumes "s_prev sl = Some p" and "p \<noteq> 0"
  shows "update_arg mok sl v pv ty amb ov nf False lo so e st
    = Some (True, sl, eprintf (given_twice_message st lo so e) st)"
  using assms by (simp add: update_arg_def given_before_def)

theorem update_arg_balanced_witness:
  "\<exists>sl st. update_arg (\<lambda>i. i = 0)
      \<lparr>s_field = Some (Some ''a''), s_orig = Some (Some ''b''), s_given = Some 1, s_prev = Some 0\<rparr>
      (Some ''f'') None ARG_STRING False True False False ''show-signature'' (CHR ''-'') None
      ((fresh_parser [''ogrt''])\<lparr>live_strings := 2\<rparr>) = Some (False, sl, st)
    \<and> s_field sl = Some (Some ''f'') \<and> s_orig sl = Some None \<and> live_strings st = 1"
proof -
  obtain sl st where u: "update_arg (\<lambda>i. i = 0)
      \<lparr>s_field = Some (Some ''a''), s_orig = Some (Some ''b''), s_given = Some 1, s_prev = Some 0\<rparr>
      (Some ''f'') None ARG_STRING False True False False ''show-signature'' (CHR ''-'') None
      ((fresh_parser [''ogrt''])\<lparr>live_strings := 2\<rparr>) = Some (False, sl, st)"
    and sl: "s_field sl = Some (Some ''f'')" "s_orig sl = Some None"
    by (simp add: update_arg_def given_before_def incr_slot_def store_field_def store_orig_def free_one_def
        gengetopt_strdup_def fresh_parser_def Let_def)
  show ?thesis
    using update_arg_balanced [OF u] u sl by (simp add: owned_def)
qed

theorem update_arg_given_twice_witness:
  "update_arg (\<lambda>_. True) \<lparr>s_field = None, s_orig = None, s_given = Some 1, s_prev = Some 1\<rparr>
      None None ARG_NO False False False False ''generate-signature'' (CHR ''-'') None
      (fresh_parser [''ogrt''])
    = Some (True, \<lparr>s_field = None, s_orig = None, s_given = Some 1, s_prev = Some 1\<rparr>,
        eprintf (''(null): `--generate-signature'' @ [CHR 0x27] @ '' option given more than once'' @ newline)
          (fresh_parser [''ogrt'']))"
  using update_arg_given_twice [of "\<lparr>s_field = None, s_orig = None, s_given = Some 1, s_prev = Some 1\<rparr>" 1]
  by (simp add: given_twice_message_def fresh_parser_def)

text \<open>
  C25: the strings the parser allocates are exactly the ones \<open>cmdline_parser_free\<close>
  frees: after a successful parse and the release, as many strings live as before.
\<close>

theorem cmdline_parser_no_leak:
  assumes "argv st \<noteq> []" and "length (argv st) = argc" and "cli_result (tl (argv st)) = CliRun g sh"
  shows "\<exists>s. cmdline_parser (\<lambda>_. True) version argc st = Some (Returned 0 s)
    \<and> show_signature_arg (ai s) = sh \<and> live_strings (cmdline_parser_free s) = live_strings st"
  using cmdline_parser_refines [OF assms(1,2), of version] assms(3) release_ai_live
  by (auto simp: parser_outcome_def ai_holds_def)

theorem cmdline_parser_no_leak_witness:
  "\<exists>s. cmdline_parser (\<lambda>_. True) ''0.5'' 3 (fresh_parser [''ogrt'', ''--gen'', ''--show=f'']) = Some (Returned 0 s)
    \<and> show_signature_arg (ai s) = Some ''f'' \<and> live_strings (cmdline_parser_free s) = 0"
proof -
  have "cli_result [''--gen'', ''--show=f''] = CliRun True (Some ''f'')"
    by code_simp
  then show ?thesis
    using cmdline_parser_no_leak [of "fresh_parser [''ogrt'', ''--gen'', ''--show=f'']" 3 True "Some ''f''" "''0.5''"]
    by (simp add: fresh_parser_def)
qed

definition conflict_message :: "string \<Rightarrow> string \<Rightarrow> string \<Rightarrow> string" where
  "conflict_message prog opt1 opt2 =
     prog @ '': option '' @ opt1 @ '' conflicts with option '' @ opt2 @ newline"

lemma check_modes_inner_eq:
  assumes "list_all (\<lambda>(g, _). 0 \<le> g) m2" and "t < 0"
  shows "check_modes_inner prog opt1 (m2 @ [(t, n)]) errors err =
    Some ([(t, n)], errors + length (filter (\<lambda>(g, _). g \<noteq> 0) m2),
      err @ concat (map (\<lambda>(_, opt2). conflict_message prog opt1 opt2)
        (filter (\<lambda>(g, _). g \<noteq> 0) m2)))"
  using assms
  by (induction m2 arbitrary: errors err) (auto simp: conflict_message_def)

lemma check_modes_loop_ended:
  assumes "list_all (\<lambda>(g, _). 0 \<le> g) m1" and "t < 0" and "t2 < 0"
  shows "check_modes_loop prog (m1 @ [(t, n)]) [(t2, n2)] errors err = Some (errors, err)"
  using assms
  by (induction m1 arbitrary: errors err) auto

text \<open>
  \<open>check_modes\<close> reports the first given option of the first mode against every
  given option of the second, and only that one: the index into the second array is not
  reset, so the conflicts of the later options of the first mode are not reported.
\<close>

theorem check_modes_first_only:
  assumes "list_all (\<lambda>(g, _). 0 \<le> g) m1" and "list_all (\<lambda>(g, _). 0 \<le> g) m2"
    and "t1 < 0" and "t2 < 0"
  shows "check_modes prog (m1 @ [(t1, n1)]) (m2 @ [(t2, n2)]) = Some
    (case filter (\<lambda>(g, _). g \<noteq> 0) m1 of
       [] \<Rightarrow> (0, [])
     | (_, opt1) # _ \<Rightarrow> (length (filter (\<lambda>(g, _). g \<noteq> 0) m2),
         concat (map (\<lambda>(_, opt2). conflict_message prog opt1 opt2) (filter (\<lambda>(g, _). g \<noteq> 0) m2))))"
  using assms
  by (induction m1) (auto simp: check_modes_def check_modes_inner_eq check_modes_loop_ended)

theorem check_modes_first_only_witness:
  "check_modes ''ogrt'' [(1, ''a''), (1, ''b''), (-1, [])] [(1, ''c''), (-1, [])]
    = Some (1, ''ogrt: option a conflicts with option c'' @ newline)"
  using check_modes_first_only [of "[(1, ''a''), (1, ''b'')]" "[(1, ''c'')]" "-1" "-1" "''ogrt''" "[]" "[]"]
  by (simp add: conflict_message_def)

text \<open>
  The options that a parse stored are dumped as the lines of a configuration file:
  the name of each given option, with the quoted argument of \<open>show-signature\<close>.
\<close>

theorem dump_of_run:
  assumes "ai_holds a g sh"
  shows "cmdline_parser_dump True a = (0,
    (if g then ''generate-signature'' @ newline else [])
    @ (case sh of None \<Rightarrow> []
       | Some f \<Rightarrow> ''show-signature='' @ [CHR 0x22] @ f @ [CHR 0x22] @ newline), [])"
  using assms
  by (auto simp: cmdline_parser_dump_def ai_holds_def write_into_file_def split: option.splits)

theorem dump_of_run_witness:
  "cmdline_parser_dump True (zero_info\<lparr>show_signature_given := 1, show_signature_arg := Some ''f'',
      show_signature_orig := Some ''f'', link_info_mode_counter := 1\<rparr>)
    = (0, ''show-signature='' @ [CHR 0x22] @ ''f'' @ [CHR 0x22] @ newline, [])"
  using dump_of_run [of "zero_info\<lparr>show_signature_given := 1, show_signature_arg := Some ''f'',
      show_signature_orig := Some ''f'', link_info_mode_counter := 1\<rparr>" False "Some ''f''"]
  by (simp add: ai_holds_def zero_info_def)

end
