(* ===== verification/Readso.thy ===== *)
theory Readso
  imports Prelude
begin

text \<open>
  client/src/ogrt-readso.c: the walk over the shared objects of the running process and
  over the ELF notes in their \<open>PT_NOTE\<close> segments, in search of the OGRT signature.

  The process's memory is a partial map from addresses to bytes; reading an address that
  is not mapped is undefined. The lists of objects that \<open>dl_iterate_phdr\<close> shows, and the
  result of \<open>realpath\<close>, are parameters. Debug output is left out: the log level is
  never above \<open>OGRT_LOG_INFO\<close> (\<open>hook_net\<close> in Preload_Spec).
\<close>

type_synonym addr = "64 word"
type_synonym memory = "addr \<Rightarrow> byte option"

definition load32 :: "memory \<Rightarrow> addr \<Rightarrow> cint option" where
  "load32 mem a = do {
     b0 \<leftarrow> mem a;
     b1 \<leftarrow> mem (a + 1);
     b2 \<leftarrow> mem (a + 2);
     b3 \<leftarrow> mem (a + 3);
     Some (le32 b0 b1 b2 b3)
   }"

section \<open>Reading one note\<close>

definition OGRT_ELF_NOTE_TYPE :: cint where
  "OGRT_ELF_NOTE_TYPE = 0x4f475254"

definition OGRT_STAMP_SUPPORTED_VERSION :: byte where
  "OGRT_STAMP_SUPPORTED_VERSION = 1"

text \<open>
  The packed \<open>elf_note\<close> has \<open>name_size\<close>, \<open>desc_size\<close>, \<open>type\<close> and \<open>data\<close> at
  offsets 0, 4, 8 and 12; \<open>ogrt_note\<close> has \<open>name\<close>, \<open>version\<close> and \<open>uuid\<close> at offsets
  0, 8 and 9. The two output parameters are passed in and returned.
\<close>

definition read_signature ::
    "memory \<Rightarrow> addr \<Rightarrow> byte \<Rightarrow> addr option \<Rightarrow> (cint \<times> byte \<times> addr option) option" where
  "read_signature mem note ret_version ret_signature = do {
     ty \<leftarrow> load32 mem (note + 8);
     (v, sig) \<leftarrow>
       (if ty = OGRT_ELF_NOTE_TYPE then do {
          version \<leftarrow> mem (note + 12 + 8);
          Some (if version = OGRT_STAMP_SUPPORTED_VERSION
                then (version, Some (note + 12 + 9)) else (ret_version, ret_signature))
        } else Some (ret_version, ret_signature));
     desc_size \<leftarrow> load32 mem (note + 4);
     name_size \<leftarrow> load32 mem note;
     n \<leftarrow> add_int32 desc_size name_size;
     size \<leftarrow> add_int32 n 12;
     Some (size, v, sig)
   }"

section \<open>The notes of one segment\<close>

text \<open>
  What a piece of code comes to: a fault (undefined behaviour) or a value. A loop that
  never ends has no \<open>attempt\<close>: the definitions below return \<open>None\<close> then.
\<close>

datatype 'a attempt = Fault | Done 'a

text \<open>
  The loop of lines 79 to 82, with the value that the object's \<open>signature\<close> field has
  after it.
\<close>

partial_function (option) note_loop ::
    "memory \<Rightarrow> addr \<Rightarrow> addr \<Rightarrow> cint \<Rightarrow> byte \<Rightarrow> addr option \<Rightarrow> addr option
     \<Rightarrow> addr option attempt option" where
  [code]: "note_loop mem notes memsz offset version signature field =
     (if unat offset < unat memsz then
        (case read_signature mem (notes + ucast offset) version signature of
           None \<Rightarrow> Some Fault
         | Some (n, v, sig) \<Rightarrow> note_loop mem notes memsz (offset + n) v sig sig)
      else Some (Done field))"

section \<open>One shared object\<close>

definition PT_NULL :: cint where
  "PT_NULL = 0"

definition PT_NOTE :: cint where
  "PT_NOTE = 4"

record phdr =
  p_type :: cint
  p_vaddr :: addr
  p_memsz :: addr

record dl_phdr_info =
  dlpi_addr :: addr
  dlpi_name :: string
  dlpi_phdr :: "phdr list"

text \<open>\<open>OGRT__SharedObject\<close> without its message base; \<open>signature\<close> is a pointer into memory.\<close>

record shared_object =
  so_path :: "string option"
  so_signature :: "addr option"

text \<open>
  \<open>so_infos\<close>: \<open>shared_objects\<close> is the allocated part of the array, \<open>None\<close> where
  nothing has been stored yet. \<open>index\<close> is a signed 32-bit integer.
\<close>

record so_infos =
  so_size :: cint
  so_index :: cint
  shared_objects :: "shared_object option list"

text \<open>
  Lines 66 to 87, over the program headers: the \<open>signature\<close> field of the object, with
  the locals \<open>offset\<close>, \<open>version\<close>, \<open>signature\<close> fresh for every segment.
\<close>

definition note_segment :: "memory \<Rightarrow> addr \<Rightarrow> phdr \<Rightarrow> addr option \<Rightarrow> addr option attempt option" where
  "note_segment mem base ph field =
     (if p_type ph \<noteq> PT_NULL \<and> p_type ph = PT_NOTE then
        (let notes = base + p_vaddr ph in
         if notes \<noteq> 0 then note_loop mem notes (p_memsz ph) 0 0 None field
         else Some (Done field))
      else Some (Done field))"

fun segments_loop :: "memory \<Rightarrow> addr \<Rightarrow> phdr list \<Rightarrow> addr option \<Rightarrow> addr option attempt option" where
  "segments_loop mem base [] field = Some (Done field)"
| "segments_loop mem base (ph # phs) field =
     (case note_segment mem base ph field of
        None \<Rightarrow> None
      | Some Fault \<Rightarrow> Some Fault
      | Some (Done field') \<Rightarrow> segments_loop mem base phs field')"

text \<open>
  \<open>realpath\<close> is the parameter that \<open>ogrt_normalize_path\<close> rests on (Util); here the
  name is what that function returned.
\<close>

definition so_name :: "(string \<Rightarrow> string option) \<Rightarrow> string \<Rightarrow> string option" where
  "so_name normalize_path n = (if length n > 0 then normalize_path n else Some n)"

text \<open>
  An index outside of the array is undefined behaviour, and so is the overflow of the index when
  it is incremented (line 88).
\<close>

definition handle_program_header ::
    "memory \<Rightarrow> (string \<Rightarrow> string option) \<Rightarrow> dl_phdr_info \<Rightarrow> so_infos
     \<Rightarrow> (int \<times> so_infos) attempt option" where
  "handle_program_header mem normalize_path info infos =
     (let path = so_name normalize_path (dlpi_name info) in
      if 0 \<le> sint (so_index infos) \<and> nat (sint (so_index infos)) < length (shared_objects infos) then
        (case segments_loop mem (dlpi_addr info) (dlpi_phdr info) None of
           None \<Rightarrow> None
         | Some Fault \<Rightarrow> Some Fault
         | Some (Done sig) \<Rightarrow>
             (case add_int32 (so_index infos) 1 of
                None \<Rightarrow> Some Fault
              | Some index \<Rightarrow>
                  Some (Done (0, infos\<lparr>shared_objects := (shared_objects infos)
                      [nat (sint (so_index infos)) := Some \<lparr>so_path = path, so_signature = sig\<rparr>],
                    so_index := index\<rparr>))))
      else Some Fault)"

definition count_program_header :: "dl_phdr_info \<Rightarrow> cint \<Rightarrow> (int \<times> cint) attempt option" where
  "count_program_header info so_count = Some (Done (0, so_count + 1))"

section \<open>All shared objects\<close>

text \<open>\<open>dl_iterate_phdr\<close>: the callback on each object until it returns nonzero.\<close>

fun dl_iterate_phdr ::
    "('o \<Rightarrow> 's \<Rightarrow> (int \<times> 's) attempt option) \<Rightarrow> 'o list \<Rightarrow> 's \<Rightarrow> (int \<times> 's) attempt option" where
  "dl_iterate_phdr callback [] s = Some (Done (0, s))"
| "dl_iterate_phdr callback (info # infos) s =
     (case callback info s of
        None \<Rightarrow> None
      | Some Fault \<Rightarrow> Some Fault
      | Some (Done (r, s')) \<Rightarrow>
          if r \<noteq> 0 then Some (Done (r, s')) else dl_iterate_phdr callback infos s')"

text \<open>
  \<open>ogrt_get_loaded_so\<close>: \<open>counted\<close> and \<open>visited\<close> are the objects the two iterations
  show (they differ when objects are loaded or unloaded in between). The array has room for
  one object more than counted, because \<open>so_infos\<close> ends with an array of one.
\<close>

definition ogrt_get_loaded_so ::
    "memory \<Rightarrow> (string \<Rightarrow> string option) \<Rightarrow> bool \<Rightarrow> dl_phdr_info list \<Rightarrow> dl_phdr_info list
     \<Rightarrow> so_infos attempt option" where
  "ogrt_get_loaded_so mem normalize_path malloc_ok counted visited =
     (case dl_iterate_phdr count_program_header counted 0 of
        Some (Done (_, so_count)) \<Rightarrow>
          if \<not> malloc_ok then Some Fault
          else
            (case dl_iterate_phdr (handle_program_header mem normalize_path) visited
                    \<lparr>so_size = so_count, so_index = 0,
                      shared_objects = replicate (unat so_count + 1) None\<rparr> of
               None \<Rightarrow> None
             | Some Fault \<Rightarrow> Some Fault
             | Some (Done (_, infos)) \<Rightarrow> Some (Done infos))
      | Some Fault \<Rightarrow> Some Fault
      | None \<Rightarrow> None)"

end
