(* ===== verification/Readso_Spec.thy ===== *)
theory Readso_Spec
  imports Readso
begin

text \<open>
  What the walk over the ELF notes promises: the abstract list of notes behind a segment's
  bytes, the signature the list holds, termination, and the visitor interface between
  \<open>dl_iterate_phdr\<close> and its two callbacks.
\<close>

section \<open>Bytes in memory\<close>

definition le32_bytes :: "cint \<Rightarrow> byte list" where
  "le32_bytes w =
     [word_of_nat (unat w mod 256), word_of_nat (unat w div 256 mod 256),
      word_of_nat (unat w div 65536 mod 256), word_of_nat (unat w div 16777216)]"

definition loaded :: "memory \<Rightarrow> addr \<Rightarrow> byte list \<Rightarrow> bool" where
  "loaded mem a bs \<longleftrightarrow> (\<forall>i < length bs. mem (a + of_nat i) = Some (bs ! i))"

lemma length_le32_bytes [simp]: "length (le32_bytes w) = 4"
  by (simp add: le32_bytes_def)

lemma le32_le32_bytes:
  "le32 (word_of_nat (unat w mod 256)) (word_of_nat (unat w div 256 mod 256))
     (word_of_nat (unat w div 65536 mod 256)) (word_of_nat (unat w div 16777216)) = w"
proof -
  have lt: "unat w < 4294967296" using unsigned_less [of w] by simp
  then have "unat w div 16777216 < 256" by simp
  moreover have "unat w mod 256 + 256 * (unat w div 256 mod 256)
      + 65536 * (unat w div 65536 mod 256) + 16777216 * (unat w div 16777216) = unat w"
  proof -
    define n where "n = unat w"
    define q1 where "q1 = n div 256"
    define q2 where "q2 = q1 div 256"
    define a0 a1 a2 q3 where "a0 = n mod 256" and "a1 = q1 mod 256" and "a2 = q2 mod 256"
      and "q3 = q2 div 256"
    have eqs: "n = 256 * q1 + a0" "q1 = 256 * q2 + a1" "q2 = 256 * q3 + a2"
      by (simp_all add: q1_def q2_def a0_def a1_def a2_def q3_def)
    have "n div 65536 = q2" "n div 16777216 = q3"
      by (simp_all add: q1_def q2_def q3_def flip: div_mult2_eq)
    then show ?thesis
      using eqs unfolding n_def [symmetric] q1_def [symmetric] a0_def [symmetric]
        a1_def [symmetric] by (simp flip: a2_def)
  qed
  ultimately show ?thesis by (simp add: le32_def)
qed

lemma loaded_Nil [simp]: "loaded mem a []"
  by (simp add: loaded_def)

lemma loaded_Cons: "loaded mem a (b # bs) \<longleftrightarrow> mem a = Some b \<and> loaded mem (a + 1) bs"
proof
  assume l: "loaded mem a (b # bs)"
  have "mem (a + of_nat 0) = Some ((b # bs) ! 0)"
    using l unfolding loaded_def by blast
  moreover have "mem (a + 1 + of_nat i) = Some (bs ! i)" if "i < length bs" for i
  proof -
    have "mem (a + of_nat (Suc i)) = Some ((b # bs) ! Suc i)"
      using l that unfolding loaded_def by (metis Suc_less_eq length_Cons)
    then show ?thesis by (simp add: algebra_simps)
  qed
  ultimately show "mem a = Some b \<and> loaded mem (a + 1) bs"
    by (simp add: loaded_def)
next
  assume r: "mem a = Some b \<and> loaded mem (a + 1) bs"
  show "loaded mem a (b # bs)"
    unfolding loaded_def
  proof (intro allI impI)
    fix i
    assume "i < length (b # bs)"
    then show "mem (a + of_nat i) = Some ((b # bs) ! i)"
      using r by (cases i) (auto simp: loaded_def algebra_simps)
  qed
qed

lemma loaded_append:
  "loaded mem a (xs @ ys) \<longleftrightarrow> loaded mem a xs \<and> loaded mem (a + of_nat (length xs)) ys"
  by (induction xs arbitrary: a) (auto simp: loaded_Cons algebra_simps)

lemma load32_loaded:
  assumes "loaded mem a (le32_bytes w)"
  shows "load32 mem a = Some w"
proof -
  have "mem a = Some (word_of_nat (unat w mod 256))"
    "mem (a + 1) = Some (word_of_nat (unat w div 256 mod 256))"
    "mem (a + 2) = Some (word_of_nat (unat w div 65536 mod 256))"
    "mem (a + 3) = Some (word_of_nat (unat w div 16777216))"
    using assms by (simp_all add: le32_bytes_def loaded_Cons algebra_simps)
  then show ?thesis by (simp add: load32_def le32_le32_bytes)
qed

lemma add_int32_of_nat:
  assumes "m + n < 2 ^ 31"
  shows "add_int32 (word_of_nat m) (word_of_nat n) = Some (word_of_nat (m + n))"
proof -
  have "sint (word_of_nat k :: cint) = int k" if "k < 2 ^ 31" for k
    using that by (simp add: signed_of_nat signed_take_bit_int_eq_self)
  then have "sint (word_of_nat m :: cint) = int m" "sint (word_of_nat n :: cint) = int n"
    using assms by simp_all
  then show ?thesis
    using assms by (simp add: add_int32_def Let_def flip: of_nat_add)
qed

section \<open>A segment of well-formed notes\<close>

datatype elf_note = ElfNote (n_name: "byte list") (n_desc: "byte list") (n_type: cint)

definition encode_note :: "elf_note \<Rightarrow> byte list" where
  "encode_note n = le32_bytes (of_nat (length (n_name n))) @ le32_bytes (of_nat (length (n_desc n)))
     @ le32_bytes (n_type n) @ n_name n @ n_desc n"

text \<open>An OGRT note reaches at least to its version byte.\<close>

definition well_formed_note :: "elf_note \<Rightarrow> bool" where
  "well_formed_note n \<longleftrightarrow>
     (n_type n = OGRT_ELF_NOTE_TYPE \<longrightarrow> 8 < length (n_name n @ n_desc n))"

definition signed_note :: "elf_note \<Rightarrow> bool" where
  "signed_note n \<longleftrightarrow> n_type n = OGRT_ELF_NOTE_TYPE \<and> (n_name n @ n_desc n) ! 8 = 1"

text \<open>The signature that a list of notes at an address holds: that of the last signed one.\<close>

fun notes_signature :: "addr \<Rightarrow> elf_note list \<Rightarrow> addr option \<Rightarrow> addr option" where
  "notes_signature a [] sig = sig"
| "notes_signature a (n # ns) sig =
     notes_signature (a + of_nat (length (encode_note n))) ns
       (if signed_note n then Some (a + 21) else sig)"

lemma length_encode_note: "length (encode_note n) = length (n_name n) + length (n_desc n) + 12"
  by (simp add: encode_note_def)

lemma read_signature_note:
  assumes "loaded mem a (encode_note n)" and "well_formed_note n"
    and "length (encode_note n) < 2 ^ 31"
  shows "\<exists>v'. read_signature mem a v sig = Some (of_nat (length (encode_note n)), v',
      if signed_note n then Some (a + 21) else sig)"
proof -
  let ?data = "n_name n @ n_desc n"
  have parts: "loaded mem a (le32_bytes (of_nat (length (n_name n))))"
    "loaded mem (a + 4) (le32_bytes (of_nat (length (n_desc n))))"
    "loaded mem (a + 8) (le32_bytes (n_type n))" "loaded mem (a + 12) ?data"
    using assms(1) by (simp_all add: encode_note_def loaded_append algebra_simps)
  have version: "mem (a + 12 + 8) = Some (?data ! 8)" if "n_type n = OGRT_ELF_NOTE_TYPE"
    using parts(4) assms(2) that unfolding loaded_def well_formed_note_def
    by (metis of_nat_numeral)
  have "length (n_desc n) + length (n_name n) < 2 ^ 31"
    "length (n_desc n) + length (n_name n) + 12 < 2 ^ 31"
    using assms(3) by (simp_all add: length_encode_note)
  then have size: "add_int32 (of_nat (length (n_desc n))) (of_nat (length (n_name n)))
        = Some (of_nat (length (n_desc n) + length (n_name n)))"
    "add_int32 (of_nat (length (n_desc n) + length (n_name n))) 12
        = Some (of_nat (length (encode_note n)))"
    using add_int32_of_nat [of "length (n_desc n) + length (n_name n)" 12]
    by (simp_all add: add_int32_of_nat length_encode_note algebra_simps)
  show ?thesis
    using version size unfolding read_signature_def
    by (auto simp: load32_loaded [OF parts(1)] load32_loaded [OF parts(2)]
        load32_loaded [OF parts(3)] signed_note_def OGRT_STAMP_SUPPORTED_VERSION_def algebra_simps)
qed

lemma note_loop_end:
  assumes "unat memsz \<le> unat offset"
  shows "note_loop mem notes memsz offset v sig field = Some (Done field)"
  using assms by (subst note_loop.simps) simp

lemma note_loop_step:
  assumes "unat offset < unat memsz"
    and "read_signature mem (notes + ucast offset) v sig = Some (n, v', sig')"
  shows "note_loop mem notes memsz offset v sig field
    = note_loop mem notes memsz (offset + n) v' sig' sig'"
  using assms by (subst note_loop.simps) simp

lemma note_loop_fault:
  assumes "unat offset < unat memsz" and "read_signature mem (notes + ucast offset) v sig = None"
  shows "note_loop mem notes memsz offset v sig field = Some Fault"
  using assms by (subst note_loop.simps) simp

lemma note_loop_notes_from:
  assumes "loaded mem (notes + of_nat off) (concat (map encode_note ns))"
    and "list_all well_formed_note ns"
    and "off + length (concat (map encode_note ns)) < 2 ^ 31"
    and "ns = [] \<Longrightarrow> field = sig"
  shows "note_loop mem notes (of_nat (off + length (concat (map encode_note ns)))) (of_nat off) v sig field
    = Some (Done (notes_signature (notes + of_nat off) ns sig))"
  using assms
proof (induction ns arbitrary: off v sig field)
  case Nil
  then show ?case by (simp add: note_loop_end unat_offset unat_memsz)
next
  case (Cons n ns)
  let ?l = "length (encode_note n)"
  let ?sig = "if signed_note n then Some (notes + of_nat off + 21) else sig"
  have l: "12 \<le> ?l" "off + ?l < 2 ^ 31" "off + ?l < 2 ^ 32"
    using Cons.prems(3) by (simp_all add: length_encode_note)
  have mem: "loaded mem (notes + of_nat off) (encode_note n)"
    "loaded mem (notes + of_nat (off + ?l)) (concat (map encode_note ns))"
    using Cons.prems(1) by (simp_all add: loaded_append algebra_simps)
  have "?l < 2 ^ 31" using l by simp
  then obtain v' where step: "read_signature mem (notes + of_nat off) v sig = Some (of_nat ?l, v', ?sig)"
    using read_signature_note [OF mem(1)] Cons.prems(2) by fastforce
  have "off < off + length (concat (map encode_note (n # ns)))"
    using l(1) unfolding list.map concat.simps length_append by linarith
  moreover have "unat (of_nat off :: cint) = off"
    using l by (intro unat_offset) simp
  moreover have "unat (of_nat (off + length (concat (map encode_note (n # ns)))) :: addr)
      = off + length (concat (map encode_note (n # ns)))"
    by (intro unat_memsz) (rule less_trans [OF Cons.prems(3)], simp)
  ultimately have lt: "unat (of_nat off :: cint) < unat (of_nat (off + length (concat (map encode_note (n # ns)))) :: addr)"
    by (simp only:)
  have "note_loop mem notes (of_nat (off + length (concat (map encode_note (n # ns))))) (of_nat off) v sig field
    = note_loop mem notes (of_nat (off + length (concat (map encode_note (n # ns))))) (of_nat off + of_nat ?l) v' ?sig ?sig"
    by (rule note_loop_step [OF lt]) (use step l in \<open>simp add: ucast_offset\<close>)
  also have "\<dots> = note_loop mem notes (of_nat ((off + ?l) + length (concat (map encode_note ns)))) (of_nat (off + ?l)) v' ?sig ?sig"
    by (simp add: add.assoc)
  also have "\<dots> = Some (Done (notes_signature (notes + of_nat (off + ?l)) ns ?sig))"
    by (rule Cons.IH) (use mem(2) Cons.prems(2,3) in simp_all)
  finally show ?case by (simp add: algebra_simps)
qed

text \<open>A note whose sizes add up to -12 keeps the loop at the same place.\<close>

lemma note_loop_stuck:
  assumes "unat offset < unat memsz"
    and "\<And>v sig. \<exists>v' sig'. read_signature mem (notes + ucast offset) v sig = Some (0, v', sig')"
  shows "note_loop mem notes memsz offset v sig field = None"
proof -
  have "\<not> (m = mem \<and> a = notes \<and> z = memsz \<and> off = offset)"
    if "note_loop m a z off v sig f = Some r" for m a z off v sig f r
    using that
  proof (induction m a z off v sig f r rule: note_loop.raw_induct [rotated -1, consumes 1])
    case (1 loop m a z off v sig f r)
    show ?case
    proof
      assume eq: "m = mem \<and> a = notes \<and> z = memsz \<and> off = offset"
      obtain v' sig' where "read_signature mem (notes + ucast offset) v sig = Some (0, v', sig')"
        using assms(2) by blast
      then have "loop mem notes memsz offset v' sig' sig' = Some r"
        using 1(2) eq assms(1) by simp
      then show False
        using 1(1) eq by blast
    qed
  qed
  then show ?thesis
    by (cases "note_loop mem notes memsz offset v sig field") blast+
qed

text \<open>When every size moves the offset forward without wrapping, the loop ends.\<close>

lemma note_loop_ends:
  assumes progress: "\<And>k v sig n v' sig'. k < unat memsz \<Longrightarrow>
      read_signature mem (notes + of_nat k) v sig = Some (n, v', sig') \<Longrightarrow>
      0 < unat n \<and> k + unat n < 2 ^ 32"
    and "unat memsz < 2 ^ 32"
  shows "\<exists>r. note_loop mem notes memsz offset v sig field = Some r"
proof (induction "unat memsz - unat offset" arbitrary: offset v sig field rule: less_induct)
  case less
  show ?case
  proof (cases "unat offset < unat memsz")
    case True
    have at: "(ucast offset :: addr) = of_nat (unat offset)"
      using ucast_offset [of "unat offset"] unsigned_less [of offset] by simp
    show ?thesis
    proof (cases "read_signature mem (notes + ucast offset) v sig")
      case None
      then show ?thesis using note_loop_fault [OF True None] by blast
    next
      case (Some r)
      then obtain n v' sig' where r: "read_signature mem (notes + ucast offset) v sig = Some (n, v', sig')"
        by (cases r) auto
      then have n: "0 < unat n" "unat offset + unat n < 2 ^ 32"
        using progress [OF True, of v sig n v' sig'] by (simp_all only: at [symmetric])
      then have "unat (offset + n) = unat offset + unat n"
        by (intro iffD1 [OF unat_add_lem]) simp
      then have "unat memsz - unat (offset + n) < unat memsz - unat offset"
        using n True by linarith
      then show ?thesis
        unfolding note_loop_step [OF True r] by (rule less)
    qed
  qed (simp add: note_loop_end)
qed

section \<open>The stamp\<close>

text \<open>
  The note that stamp.s and the template of ogrt-signature.c put into a binary: sizes 5
  and 38 without padding, name and descriptor padded to 4 bytes, 60 bytes in all.
\<close>

definition stamp_bytes :: "byte list \<Rightarrow> byte list" where
  "stamp_bytes uuid = le32_bytes 5 @ le32_bytes 38 @ le32_bytes OGRT_ELF_NOTE_TYPE
     @ [0x4f, 0x47, 0x52, 0x54, 0, 0, 0, 0] @ [1] @ uuid @ [0] @ [0, 0]"

lemma length_stamp_bytes: "length uuid = 36 \<Longrightarrow> length (stamp_bytes uuid) = 60"
  by (simp add: stamp_bytes_def)

lemma read_signature_stamp:
  assumes "loaded mem a (stamp_bytes uuid)"
  shows "read_signature mem a v sig = Some (55, 1, Some (a + 21))"
proof -
  have parts: "loaded mem a (le32_bytes 5)" "loaded mem (a + 4) (le32_bytes 38)"
    "loaded mem (a + 8) (le32_bytes OGRT_ELF_NOTE_TYPE)" "mem (a + 20) = Some 1"
    using assms by (simp_all add: stamp_bytes_def loaded_append loaded_Cons algebra_simps)
  have "add_int32 38 5 = Some 43" "add_int32 43 12 = Some 55"
    by (simp_all add: add_int32_def Let_def)
  then show ?thesis
    using parts(4)
    by (simp add: read_signature_def load32_loaded [OF parts(1)] load32_loaded [OF parts(2)]
        load32_loaded [OF parts(3)] OGRT_STAMP_SUPPORTED_VERSION_def algebra_simps)
qed

lemma stamp_tail:
  assumes "loaded mem a (stamp_bytes uuid)" and "length uuid = 36"
  shows "mem (a + 55) = Some (uuid ! 34)" "mem (a + 56) = Some (uuid ! 35)"
    "loaded mem (a + 57) [0, 0, 0]"
proof -
  have u: "loaded mem (a + 21) uuid" and z: "loaded mem (a + 57) [0, 0, 0]"
    using assms by (simp_all add: stamp_bytes_def loaded_append loaded_Cons algebra_simps)
  have "mem (a + 21 + of_nat i) = Some (uuid ! i)" if "i < 36" for i
    using u assms(2) that by (simp add: loaded_def)
  from this [of 34] this [of 35] show "mem (a + 55) = Some (uuid ! 34)" "mem (a + 56) = Some (uuid ! 35)"
    by (simp_all add: algebra_simps)
  show "loaded mem (a + 57) [0, 0, 0]" by (rule z)
qed

text \<open>
  The second read starts 5 bytes before the end of the stamp's segment and takes its type
  from the bytes behind the segment.
\<close>

lemma stamp_overread:
  assumes "loaded mem a (stamp_bytes uuid)" and "length uuid = 36" and "mem (a + 63) = None"
  shows "note_loop mem a 60 0 v sig field = Some Fault"
proof -
  have "load32 mem (a + 63) = None"
    unfolding load32_def assms(3) by simp
  then have ty: "load32 mem (63 + a) = None"
    by (simp only: add.commute)
  have "note_loop mem a 60 0 v sig field = note_loop mem a 60 (0 + 55) 1 (Some (a + 21)) (Some (a + 21))"
    by (rule note_loop_step) (simp_all add: read_signature_stamp [OF assms(1)])
  also have "\<dots> = Some Fault"
    by (rule note_loop_fault)
      (simp_all add: read_signature_def ty)
  finally show ?thesis .
qed

lemma stamp_found:
  assumes "loaded mem a (stamp_bytes uuid @ replicate 7 0)" and "length uuid = 36"
  shows "note_loop mem a 60 0 v sig field = Some (Done (Some (a + 21)))"
proof -
  have l: "loaded mem a (stamp_bytes uuid)" "loaded mem (a + 60) (replicate 7 0)"
    using assms by (simp_all add: loaded_append length_stamp_bytes)
  have z: "mem (a + 60) = Some 0" "mem (a + 61) = Some 0" "mem (a + 62) = Some 0"
    "mem (a + 63) = Some 0" "mem (a + 64) = Some 0" "mem (a + 65) = Some 0" "mem (a + 66) = Some 0"
    "mem (a + 57) = Some 0" "mem (a + 58) = Some 0" "mem (a + 59) = Some 0"
    using l(2) stamp_tail(3) [OF l(1) assms(2)]
    by (simp_all add: loaded_Cons numeral_eq_Suc algebra_simps)
  define n where "n = unat (uuid ! 34) + 256 * unat (uuid ! 35)"
  have "unat b < 256" for b :: byte
    using unsigned_less [of b] by simp
  from this [of "uuid ! 34"] this [of "uuid ! 35"] have n: "n < 65536"
    by (simp add: n_def)
  have name: "load32 mem (a + 55) = Some (of_nat n)"
    using stamp_tail(1,2) [OF l(1) assms(2)] z by (simp add: load32_def le32_def n_def algebra_simps)
  have desc: "load32 mem (a + 55 + 4) = Some 0" and ty: "load32 mem (a + 55 + 8) = Some 0"
    using z by (simp_all add: load32_def le32_def algebra_simps)
  have sizes: "add_int32 0 (of_nat n) = Some (of_nat n)" "add_int32 (of_nat n) 12 = Some (of_nat (n + 12))"
    using n add_int32_of_nat [of 0 n] add_int32_of_nat [of n 12] by simp_all
  have "note_loop mem a 60 0 v sig field = note_loop mem a 60 (0 + 55) 1 (Some (a + 21)) (Some (a + 21))"
    by (rule note_loop_step) (simp_all add: read_signature_stamp [OF l(1)])
  also have "\<dots> = note_loop mem a 60 (0 + 55 + of_nat (n + 12)) 1 (Some (a + 21)) (Some (a + 21))"
    by (rule note_loop_step)
      (use name desc ty sizes in \<open>simp_all add: read_signature_def OGRT_ELF_NOTE_TYPE_def\<close>)
  also have "\<dots> = note_loop mem a 60 (of_nat (n + 67)) 1 (Some (a + 21)) (Some (a + 21))"
    by (simp add: algebra_simps)
  also have "\<dots> = Some (Done (Some (a + 21)))"
    by (rule note_loop_end) (use n unat_offset [of "n + 67"] in simp)
  finally show ?thesis .
qed

section \<open>The segments of one object\<close>

lemma note_loop_field:
  assumes "0 < unat memsz"
  shows "note_loop mem notes memsz 0 v sig field = note_loop mem notes memsz 0 v sig field'"
  using assms by (subst (1 2) note_loop.simps) simp

lemma segments_loop_append:
  "segments_loop mem base (phs @ qhs) field = (case segments_loop mem base phs field of
     None \<Rightarrow> None | Some Fault \<Rightarrow> Some Fault | Some (Done f) \<Rightarrow> segments_loop mem base qhs f)"
  by (induction phs arbitrary: field) (simp_all split: option.splits attempt.splits)

text \<open>A segment that leaves the signature alone: no notes, no address, or no contents.\<close>

definition skipped_segment :: "addr \<Rightarrow> phdr \<Rightarrow> bool" where
  "skipped_segment base ph \<longleftrightarrow> p_type ph \<noteq> PT_NOTE \<or> base + p_vaddr ph = 0 \<or> p_memsz ph = 0"

lemma note_segment_skipped:
  "skipped_segment base ph \<Longrightarrow> note_segment mem base ph field = Some (Done field)"
  by (auto simp: skipped_segment_def note_segment_def Let_def note_loop.simps)

lemma segments_loop_other:
  assumes "list_all (skipped_segment base) phs"
  shows "segments_loop mem base phs field = Some (Done field)"
  using assms by (induction phs) (simp_all add: note_segment_skipped)

text \<open>The last non-empty \<open>PT_NOTE\<close> segment alone decides.\<close>

lemma segments_last:
  assumes "segments_loop mem base phs None = Some (Done f)"
    and "p_type ph = PT_NOTE" and "base + p_vaddr ph \<noteq> 0" and "0 < unat (p_memsz ph)"
    and "list_all (skipped_segment base) qhs"
  shows "segments_loop mem base (phs @ ph # qhs) None
    = note_loop mem (base + p_vaddr ph) (p_memsz ph) 0 0 None None"
proof -
  have "segments_loop mem base (phs @ ph # qhs) None = (case note_segment mem base ph f of
      None \<Rightarrow> None | Some Fault \<Rightarrow> Some Fault | Some (Done f') \<Rightarrow> Some (Done f'))"
    by (simp add: segments_loop_append assms(1) segments_loop_other [OF assms(5)] cong: option.case_cong attempt.case_cong)
  also have "\<dots> = note_segment mem base ph f"
    by (simp split: option.splits attempt.splits)
  also have "\<dots> = note_loop mem (base + p_vaddr ph) (p_memsz ph) 0 0 None None"
    using assms(2,3) note_loop_field [OF assms(4)]
    by (simp add: note_segment_def PT_NOTE_def PT_NULL_def Let_def)
  finally show ?thesis .
qed

section \<open>Visiting all objects\<close>

text \<open>
  What \<open>dl_iterate_phdr\<close> relies on: a callback that returns 0 on every good object, as
  long as there is room, and the relation between the objects seen and the data.
\<close>

locale object_visitor =
  fixes callback :: "'o \<Rightarrow> 's \<Rightarrow> (int \<times> 's) attempt option"
    and good :: "'o \<Rightarrow> bool"
    and room :: "'o list \<Rightarrow> bool"
    and seen :: "'o list \<Rightarrow> 's \<Rightarrow> bool"
  assumes visit: "seen xs s \<Longrightarrow> good x \<Longrightarrow> room (xs @ [x]) \<Longrightarrow>
      \<exists>s'. callback x s = Some (Done (0, s')) \<and> seen (xs @ [x]) s'"
    and room_prefix: "room (xs @ ys) \<Longrightarrow> room xs"
begin

lemma iterate:
  assumes "seen xs s" and "list_all good ys" and "room (xs @ ys)"
  shows "\<exists>s'. dl_iterate_phdr callback ys s = Some (Done (0, s')) \<and> seen (xs @ ys) s'"
  using assms
proof (induction ys arbitrary: xs s)
  case (Cons y ys)
  then have "room (xs @ [y])" using room_prefix [of "xs @ [y]" ys] by simp
  then obtain s' where s': "callback y s = Some (Done (0, s'))" "seen (xs @ [y]) s'"
    using visit Cons.prems by fastforce
  then show ?case using Cons.IH [of "xs @ [y]" s'] Cons.prems by simp
qed simp

end

interpretation counting: object_visitor count_program_header "\<lambda>_. True" "\<lambda>_. True"
    "\<lambda>xs s. s = of_nat (length xs)"
  by unfold_locales (simp_all add: count_program_header_def)

definition object_of :: "memory \<Rightarrow> (string \<Rightarrow> string option) \<Rightarrow> dl_phdr_info \<Rightarrow> shared_object" where
  "object_of mem normalize_path info =
     \<lparr>so_path = so_name normalize_path (dlpi_name info),
      so_signature = (case segments_loop mem (dlpi_addr info) (dlpi_phdr info) None of
        Some (Done f) \<Rightarrow> f | _ \<Rightarrow> None)\<rparr>"

definition walkable :: "memory \<Rightarrow> dl_phdr_info \<Rightarrow> bool" where
  "walkable mem info \<longleftrightarrow> (case segments_loop mem (dlpi_addr info) (dlpi_phdr info) None of
     Some (Done f) \<Rightarrow> True | _ \<Rightarrow> False)"

definition filled ::
    "memory \<Rightarrow> (string \<Rightarrow> string option) \<Rightarrow> cint \<Rightarrow> nat \<Rightarrow> dl_phdr_info list \<Rightarrow> so_infos \<Rightarrow> bool" where
  "filled mem normalize_path sz capacity xs infos \<longleftrightarrow> length xs \<le> capacity \<and>
     length xs < 2 ^ 31 \<and> infos = \<lparr>so_size = sz, so_index = of_nat (length xs),
       shared_objects = map (Some \<circ> object_of mem normalize_path) xs
         @ replicate (capacity - length xs) None\<rparr>"

interpretation handling: object_visitor "handle_program_header mem normalize_path" "walkable mem"
    "\<lambda>xs. length xs \<le> capacity \<and> length xs < 2 ^ 31" "filled mem normalize_path sz capacity"
  for mem normalize_path capacity sz
proof unfold_locales
  fix xs s x
  assume seen: "filled mem normalize_path sz capacity xs s" and x: "walkable mem x"
    and room: "length (xs @ [x]) \<le> capacity \<and> length (xs @ [x]) < 2 ^ 31"
  obtain f where f: "segments_loop mem (dlpi_addr x) (dlpi_phdr x) None = Some (Done f)"
    using x by (auto simp: walkable_def split: option.splits attempt.splits)
  define m where "m = capacity - length (xs @ [x])"
  have m: "capacity - length xs = Suc m" using room by (auto simp: m_def)
  have "(map (Some \<circ> object_of mem normalize_path) xs @ None # replicate m None)[length xs := Some v]
      = map (Some \<circ> object_of mem normalize_path) xs @ Some v # replicate m None" for v
    by (simp add: list_update_append)
  then show "\<exists>s'. handle_program_header mem normalize_path x s = Some (Done (0, s'))
      \<and> filled mem normalize_path sz capacity (xs @ [x]) s'"
    using seen f m room add_int32_of_nat [of "length xs" 1]
    by (simp add: filled_def handle_program_header_def object_of_def m_def sint_of_nat)
qed simp

lemma dl_iterate_append:
  "dl_iterate_phdr callback (xs @ ys) s = (case dl_iterate_phdr callback xs s of
     Some (Done (r, s')) \<Rightarrow> if r \<noteq> 0 then Some (Done (r, s')) else dl_iterate_phdr callback ys s'
   | other \<Rightarrow> other)"
  by (induction xs arbitrary: s) (auto split: option.splits attempt.splits)

lemma counted_objects:
  assumes "length xs < 2 ^ 32"
  shows "dl_iterate_phdr count_program_header xs 0 = Some (Done (0, of_nat (length xs)))"
  using counting.iterate [where xs = "[]" and s = 0 and ys = xs] by (simp add: list_all_iff)

lemma empty_filled:
  "filled mem normalize_path sz capacity [] \<lparr>so_size = sz, so_index = 0,
     shared_objects = replicate capacity None\<rparr>"
  by (simp add: filled_def)

lemma loaded_objects:
  assumes "length counted < 2 ^ 32" and "length visited \<le> length counted + 1"
    and "list_all (walkable mem) visited" and "length visited < 2 ^ 31"
  shows "ogrt_get_loaded_so mem normalize_path True counted visited = Some (Done
    \<lparr>so_size = of_nat (length counted), so_index = of_nat (length visited),
     shared_objects = map (Some \<circ> object_of mem normalize_path) visited
       @ replicate (length counted + 1 - length visited) None\<rparr>)"
  using handling.iterate [OF empty_filled assms(3), of "length counted + 1" normalize_path
      "of_nat (length counted)"] assms(2,4) unat_offset [OF assms(1)]
  by (auto simp: ogrt_get_loaded_so_def counted_objects [OF assms(1)] filled_def)

lemma too_many_objects:
  assumes "length counted < 2 ^ 32" and "length counted + 1 < length visited"
    and "list_all (walkable mem) visited"
  shows "ogrt_get_loaded_so mem normalize_path True counted visited = Some Fault"
proof -
  let ?cap = "length counted + 1"
  define n where "n = min ?cap (2 ^ 31 - 1)"
  have n: "n < length visited" "n \<le> ?cap" "n < 2 ^ 31" using assms(2) by (simp_all add: n_def min_def)
  obtain x ys where split: "visited = take n visited @ x # ys"
    using id_take_nth_drop [OF n(1)] by metis
  have len: "length (take n visited) = n" using n(1) by simp
  have "list_all (walkable mem) (take n visited @ x # ys)"
    using assms(3) split by simp
  then have good: "list_all (walkable mem) (take n visited)" and x: "walkable mem x" by simp_all
  then obtain s where s: "dl_iterate_phdr (handle_program_header mem normalize_path) (take n visited)
        \<lparr>so_size = of_nat (length counted), so_index = 0, shared_objects = replicate ?cap None\<rparr>
      = Some (Done (0, s))" "filled mem normalize_path (of_nat (length counted)) ?cap (take n visited) s"
    using handling.iterate [OF empty_filled, of mem "take n visited" ?cap normalize_path
        "of_nat (length counted)"] len n(2,3) by auto
  have at: "so_index s = of_nat n" "length (shared_objects s) = ?cap"
    using s(2) len n(2) by (simp_all add: filled_def)
  have "n = ?cap \<or> add_int32 (of_nat n) 1 = None"
    by (auto simp: n_def min_def add_int32_def Let_def)
  then have "handle_program_header mem normalize_path x s = Some Fault"
    using x at n(3)
    by (auto simp: handle_program_header_def sint_of_nat walkable_def split: option.splits attempt.splits)
  then have "dl_iterate_phdr (handle_program_header mem normalize_path) visited
      \<lparr>so_size = of_nat (length counted), so_index = 0, shared_objects = replicate ?cap None\<rparr> = Some Fault"
    by (subst split, subst dl_iterate_append, unfold s(1)) simp
  then show ?thesis
    using unat_offset [OF assms(1)]
    by (simp add: ogrt_get_loaded_so_def counted_objects [OF assms(1)])
qed

section \<open>Properties\<close>

text \<open>A memory that holds some bytes at an address and nothing else.\<close>

definition memory_of :: "addr \<Rightarrow> byte list \<Rightarrow> memory" where
  "memory_of base bs a =
     (if unat (a - base) < length bs then Some (bs ! unat (a - base)) else None)"

lemma loaded_memory_of:
  assumes "length bs < 2 ^ 64"
  shows "loaded (memory_of base bs) base bs"
  using assms by (simp add: loaded_def memory_of_def unat_memsz)

text \<open>
  C11: on a segment that consists of well-formed notes whose sizes need no padding, the
  walk visits exactly these notes, ends, and leaves the signature of the last OGRT note of
  version 1, or a null signature when there is none.
\<close>

theorem note_walk_correct:
  assumes "loaded mem notes (concat (map encode_note ns))" and "list_all well_formed_note ns"
    and "length (concat (map encode_note ns)) < 2 ^ 31" and "ns \<noteq> []"
  shows "note_loop mem notes (of_nat (length (concat (map encode_note ns)))) 0 0 None field
    = Some (Done (notes_signature notes ns None))"
  using note_loop_notes_from [of mem "notes" 0 ns field None 0] assms
  by simp

definition sample_notes :: "elf_note list" where
  "sample_notes = [ElfNote [71, 78, 85, 0] [0, 0, 0, 0] 1,
     ElfNote [0x4f, 0x47, 0x52, 0x54, 0, 0, 0, 0] [1, 97, 98, 0] OGRT_ELF_NOTE_TYPE]"

theorem note_walk_correct_witness:
  "note_loop (memory_of 64 (concat (map encode_note sample_notes))) 64 44 0 0 None None
    = Some (Done (Some 105))"
proof -
  have len: "length (concat (map encode_note sample_notes)) = 44"
    by (simp add: sample_notes_def length_encode_note)
  have sig: "notes_signature 64 sample_notes None = Some 105"
    by (simp add: sample_notes_def signed_note_def length_encode_note OGRT_ELF_NOTE_TYPE_def)
  have "list_all well_formed_note sample_notes" "sample_notes \<noteq> []"
    by (simp_all add: sample_notes_def well_formed_note_def OGRT_ELF_NOTE_TYPE_def)
  then show ?thesis
    using note_walk_correct [OF loaded_memory_of, of sample_notes 64 None] len sig by simp
qed

text \<open>
  The stamp that the linker wrapper adds is found: its 60-byte segment followed by
  zeros gives a pointer to its uuid, although the second step of the walk starts inside the
  stamp.
\<close>

theorem stamp_signature_found:
  assumes "loaded mem notes (stamp_bytes uuid @ replicate 7 0)" and "length uuid = 36"
  shows "note_loop mem notes 60 0 0 None field = Some (Done (Some (notes + 21)))
    \<and> loaded mem (notes + 21) (uuid @ [0])"
proof -
  have "loaded mem (notes + 21) (uuid @ [0])"
    using assms by (simp add: stamp_bytes_def loaded_append loaded_Cons algebra_simps)
  then show ?thesis using stamp_found [OF assms] by simp
qed

theorem stamp_signature_found_witness:
  "note_loop (memory_of 4096 (stamp_bytes (replicate 36 0x61) @ replicate 7 0)) 4096 60 0 0 None None
    = Some (Done (Some 4117))"
proof -
  have "loaded (memory_of 4096 (stamp_bytes (replicate 36 0x61) @ replicate 7 0)) 4096
      (stamp_bytes (replicate 36 0x61) @ replicate 7 0)"
    by (rule loaded_memory_of) (simp add: length_stamp_bytes)
  from stamp_signature_found [OF this, of None] show ?thesis by simp
qed

text \<open>
  C28: \<open>read_signature\<close> returns the sizes without their padding, so after a stamp the walk
  goes on 5 bytes before the end of the segment and reads a note header that lies partly
  behind it: when nothing is mapped there, the walk faults.
\<close>

theorem stamp_read_past_segment:
  assumes "loaded mem notes (stamp_bytes uuid)" and "length uuid = 36"
    and "mem (notes + 63) = None"
  shows "note_loop mem notes 60 0 0 None field = Some Fault"
  by (rule stamp_overread [OF assms])

theorem stamp_read_past_segment_witness:
  "note_loop (memory_of 4096 (stamp_bytes (replicate 36 0x61))) 4096 60 0 0 None None = Some Fault"
proof -
  have "loaded (memory_of 4096 (stamp_bytes (replicate 36 0x61))) 4096 (stamp_bytes (replicate 36 0x61))"
    by (rule loaded_memory_of) (simp add: length_stamp_bytes)
  moreover have "memory_of 4096 (stamp_bytes (replicate 36 0x61)) (4096 + 63) = None"
    by (simp add: memory_of_def length_stamp_bytes)
  ultimately show ?thesis
    using stamp_read_past_segment [of _ 4096 "replicate 36 0x61" None] by simp
qed

text \<open>
  C27: a note whose sizes add up to -12 (here an empty name and a descriptor size of
  \<open>0xfffffff4\<close>) keeps the walk at its place: the loop never ends.
\<close>

theorem note_walk_hangs:
  assumes "loaded mem notes (le32_bytes 0 @ le32_bytes 0xfffffff4 @ le32_bytes ty)"
    and "ty \<noteq> OGRT_ELF_NOTE_TYPE" and "0 < unat memsz"
  shows "note_loop mem notes memsz 0 0 None field = None"
proof (rule note_loop_stuck)
  have parts: "loaded mem notes (le32_bytes 0)" "loaded mem (notes + 4) (le32_bytes 0xfffffff4)"
    "loaded mem (notes + 8) (le32_bytes ty)"
    using assms(1) by (simp_all add: loaded_append algebra_simps)
  have sizes: "add_int32 0xfffffff4 0 = Some 0xfffffff4" "add_int32 0xfffffff4 12 = Some 0"
    by (simp_all add: add_int32_def Let_def)
  show "\<exists>v' sig'. read_signature mem (notes + ucast (0 :: cint)) v sig = Some (0, v', sig')" for v sig
    using assms(2) sizes
    by (simp add: read_signature_def load32_loaded [OF parts(1)] load32_loaded [OF parts(2)]
        load32_loaded [OF parts(3)])
qed (use assms(3) in simp)

theorem note_walk_hangs_witness:
  "note_loop (memory_of 4096 (le32_bytes 0 @ le32_bytes 0xfffffff4 @ le32_bytes 7)) 4096 12 0 0 None None
    = None"
proof -
  have "loaded (memory_of 4096 (le32_bytes 0 @ le32_bytes 0xfffffff4 @ le32_bytes 7)) 4096
      (le32_bytes 0 @ le32_bytes 0xfffffff4 @ le32_bytes 7)"
    by (rule loaded_memory_of) simp
  from note_walk_hangs [OF this, of 12 None] show ?thesis
    by (simp add: OGRT_ELF_NOTE_TYPE_def)
qed

text \<open>
  C26: the walk ends on every segment where each size read moves the offset forward
  without wrapping around 32 bits, whatever the notes hold and wherever it starts.
\<close>

theorem note_walk_terminates:
  assumes "\<And>k v sig n v' sig'. k < unat memsz \<Longrightarrow>
      read_signature mem (notes + of_nat k) v sig = Some (n, v', sig') \<Longrightarrow>
      0 < unat n \<and> k + unat n < 2 ^ 32"
    and "unat memsz < 2 ^ 32"
  shows "\<exists>r. note_loop mem notes memsz offset v sig field = Some r"
  by (rule note_loop_ends [OF assms])

text \<open>
  Two notes with their 28 bytes: a header can be read at each of the first 17 offsets, and at
  most of them it is no header of a note.
\<close>

definition short_notes :: "byte list" where
  "short_notes = [4, 0, 0, 0, 0, 0, 0, 0, 3, 0, 0, 0, 71, 78, 85, 0, 0, 0, 0, 0, 0, 0, 0, 0, 7, 0, 0, 0]"

theorem note_walk_terminates_witness:
  "read_signature (memory_of 4096 short_notes) 4096 0 None = Some (16, 0, None)
   \<and> (\<exists>r. note_loop (memory_of 4096 short_notes) 4096 28 0 0 None None = Some r)"
proof
  show "read_signature (memory_of 4096 short_notes) 4096 0 None = Some (16, 0, None)"
    by (simp add: read_signature_def load32_def memory_of_def short_notes_def le32_def
        OGRT_ELF_NOTE_TYPE_def add_int32_def Let_def)
  show "\<exists>r. note_loop (memory_of 4096 short_notes) 4096 28 0 0 None None = Some r"
  proof (rule note_walk_terminates)
    fix k v sig n v' sig'
    assume k: "k < unat (28 :: addr)"
      and read: "read_signature (memory_of 4096 short_notes) (4096 + of_nat k) v sig = Some (n, v', sig')"
    have "k \<in> set [0..<28]" using k by simp
    then show "0 < unat n \<and> k + unat n < 2 ^ 32"
      using read
      by (auto simp: upt_rec read_signature_def load32_def memory_of_def short_notes_def le32_def
          OGRT_ELF_NOTE_TYPE_def add_int32_def Let_def)
  qed simp
qed

text \<open>
  C29: when the headers of an object can be walked and the last non-empty \<open>PT_NOTE\<close> segment,
  whatever other headers or empty segments follow it, holds well-formed notes without padding,
  this segment alone decides the signature of the object: a signature that was found in an
  earlier segment is overwritten, with a null pointer when the last segment holds no OGRT note.
\<close>

theorem later_note_segment_wins:
  assumes "segments_loop mem (dlpi_addr info) phs None = Some (Done earlier)"
    and "dlpi_phdr info = phs @ ph # qhs" and "p_type ph = PT_NOTE"
    and "list_all (skipped_segment (dlpi_addr info)) qhs"
    and "dlpi_addr info + p_vaddr ph \<noteq> 0"
    and "loaded mem (dlpi_addr info + p_vaddr ph) (concat (map encode_note ns))"
    and "list_all well_formed_note ns" and "ns \<noteq> []"
    and "length (concat (map encode_note ns)) < 2 ^ 31"
    and "p_memsz ph = of_nat (length (concat (map encode_note ns)))"
    and "so_index infos = of_nat i" and "i < length (shared_objects infos)" and "i < 2 ^ 31 - 1"
  shows "handle_program_header mem normalize_path info infos = Some (Done (0,
    infos\<lparr>shared_objects := (shared_objects infos)[i := Some
            \<lparr>so_path = so_name normalize_path (dlpi_name info),
             so_signature = notes_signature (dlpi_addr info + p_vaddr ph) ns None\<rparr>],
          so_index := of_nat (i + 1)\<rparr>))"
proof -
  let ?len = "length (concat (map encode_note ns))"
  obtain n ns' where "ns = n # ns'" using assms(8) by (cases ns) auto
  then have "0 < ?len" by (simp add: length_encode_note)
  moreover have "unat (of_nat ?len :: addr) = ?len"
    by (rule unat_memsz) (rule less_trans [OF assms(9)], simp)
  ultimately have pos: "0 < unat (p_memsz ph)" using assms(10) by simp
  have "segments_loop mem (dlpi_addr info) (phs @ ph # qhs) None
      = Some (Done (notes_signature (dlpi_addr info + p_vaddr ph) ns None))"
    using segments_last [OF assms(1,3,5) pos assms(4)] assms(10)
      note_loop_notes_from [of mem "dlpi_addr info + p_vaddr ph" 0 ns None None 0]
      assms(6,7,9) by simp
  then show ?thesis
    using assms(2,11-13) add_int32_of_nat [of i 1] by (simp add: handle_program_header_def sint_of_nat)
qed

definition two_note_memory :: memory where
  "two_note_memory a = (if a < 8192 then memory_of 4096 (concat (map encode_note sample_notes)) a
     else memory_of 8192 (encode_note (ElfNote [71, 78, 85, 0] [0, 0, 0, 0] 3)) a)"

definition two_note_object :: dl_phdr_info where
  "two_note_object = \<lparr>dlpi_addr = 0, dlpi_name = ''/lib/a.so'', dlpi_phdr =
     [\<lparr>p_type = PT_NOTE, p_vaddr = 4096, p_memsz = 44\<rparr>,
      \<lparr>p_type = PT_NOTE, p_vaddr = 8192, p_memsz = 20\<rparr>,
      \<lparr>p_type = 1, p_vaddr = 0, p_memsz = 16384\<rparr>, \<lparr>p_type = PT_NOTE, p_vaddr = 12288, p_memsz = 0\<rparr>]\<rparr>"

lemma two_note_loaded:
  "loaded two_note_memory 4096 (concat (map encode_note sample_notes))"
  "loaded two_note_memory 8192 (encode_note (ElfNote [71, 78, 85, 0] [0, 0, 0, 0] 3))"
  by (simp_all add: loaded_Cons two_note_memory_def memory_of_def encode_note_def le32_bytes_def
      sample_notes_def OGRT_ELF_NOTE_TYPE_def)

theorem later_note_segment_wins_witness:
  "segments_loop two_note_memory 0 (take 1 (dlpi_phdr two_note_object)) None = Some (Done (Some 4137))
   \<and> handle_program_header two_note_memory Some two_note_object
      \<lparr>so_size = 1, so_index = 0, shared_objects = [None, None]\<rparr>
    = Some (Done (0, \<lparr>so_size = 1, so_index = 1,
        shared_objects = [Some \<lparr>so_path = Some ''/lib/a.so'', so_signature = None\<rparr>, None]\<rparr>))"
proof -
  have len: "length (concat (map encode_note sample_notes)) = 44"
    by (simp add: sample_notes_def length_encode_note)
  have "notes_signature 4096 sample_notes None = Some 4137" "list_all well_formed_note sample_notes"
    by (simp_all add: sample_notes_def signed_note_def length_encode_note OGRT_ELF_NOTE_TYPE_def
        well_formed_note_def)
  then have "note_loop two_note_memory 4096 44 0 0 None None = Some (Done (Some 4137))"
    using note_loop_notes_from [of two_note_memory 4096 0 sample_notes None None 0] len
      two_note_loaded(1) by simp
  then have first: "segments_loop two_note_memory (dlpi_addr two_note_object)
      [\<lparr>p_type = PT_NOTE, p_vaddr = 4096, p_memsz = 44\<rparr>] None = Some (Done (Some 4137))"
    by (simp add: note_segment_def PT_NOTE_def PT_NULL_def two_note_object_def)
  have "dlpi_phdr two_note_object = [\<lparr>p_type = PT_NOTE, p_vaddr = 4096, p_memsz = 44\<rparr>]
      @ \<lparr>p_type = PT_NOTE, p_vaddr = 8192, p_memsz = 20\<rparr>
      # [\<lparr>p_type = 1, p_vaddr = 0, p_memsz = 16384\<rparr>, \<lparr>p_type = PT_NOTE, p_vaddr = 12288, p_memsz = 0\<rparr>]"
    by (simp add: two_note_object_def)
  from later_note_segment_wins [OF first this,
      of "[ElfNote [71, 78, 85, 0] [0, 0, 0, 0] 3]" "\<lparr>so_size = 1, so_index = 0, shared_objects = [None, None]\<rparr>" 0 Some]
  show ?thesis
    using first two_note_loaded(2)
    by (simp add: two_note_object_def well_formed_note_def signed_note_def length_encode_note
        OGRT_ELF_NOTE_TYPE_def so_name_def skipped_segment_def PT_NOTE_def)
qed

text \<open>
  C10: for fewer than 2^31 objects, the same ones in both iterations, whose segments can be
  walked, and when the array can be allocated, \<open>ogrt_get_loaded_so\<close> returns the array of all
  objects in the order of \<open>dl_iterate_phdr\<close>, each with its normalized path and its signature;
  \<open>size\<close> and \<open>index\<close> are their number.
\<close>

theorem loaded_so_correct:
  assumes "length objects < 2 ^ 31" and "list_all (walkable mem) objects"
  shows "ogrt_get_loaded_so mem normalize_path True objects objects = Some (Done
    \<lparr>so_size = of_nat (length objects), so_index = of_nat (length objects),
     shared_objects = map (Some \<circ> object_of mem normalize_path) objects @ [None]\<rparr>)"
  using loaded_objects [of objects objects mem normalize_path] assms by simp

theorem loaded_so_correct_witness:
  "ogrt_get_loaded_so (\<lambda>_. None) Some True
      [\<lparr>dlpi_addr = 0, dlpi_name = '''', dlpi_phdr = []\<rparr>] [\<lparr>dlpi_addr = 0, dlpi_name = '''', dlpi_phdr = []\<rparr>]
    = Some (Done \<lparr>so_size = 1, so_index = 1,
        shared_objects = [Some \<lparr>so_path = Some '''', so_signature = None\<rparr>, None]\<rparr>)"
  using loaded_so_correct [of "[\<lparr>dlpi_addr = 0, dlpi_name = '''', dlpi_phdr = []\<rparr>]" "\<lambda>_. None" Some]
  by (simp add: walkable_def object_of_def so_name_def)

text \<open>
  C30: the array is sized by a first count, so when the second iteration shows two or more
  objects more than were counted, the walk writes behind the array.
\<close>

theorem loaded_so_overflow:
  assumes "length counted < 2 ^ 32" and "length counted + 1 < length visited"
    and "list_all (walkable mem) visited"
  shows "ogrt_get_loaded_so mem normalize_path True counted visited = Some Fault"
  by (rule too_many_objects [OF assms])

theorem loaded_so_overflow_witness:
  "ogrt_get_loaded_so (\<lambda>_. None) Some True []
      [\<lparr>dlpi_addr = 0, dlpi_name = '''', dlpi_phdr = []\<rparr>, \<lparr>dlpi_addr = 0, dlpi_name = '''', dlpi_phdr = []\<rparr>]
    = Some Fault"
  by (rule loaded_so_overflow) (simp_all add: walkable_def)

end
