(* ===== verification/Util.thy ===== *)
theory Util
  imports Prelude
begin

text \<open>
  client/src/ogrt-util.c. The environment, \<open>realpath\<close>, \<open>readlink\<close>, \<open>read\<close>,
  \<open>getpwuid\<close> and \<open>gethostname\<close> are parameters: what the system calls return for the
  arguments used here. An allocated string that is returned belongs to the caller; \<open>blocks\<close>
  and \<open>fds\<close> count what a call leaves allocated and open.
\<close>

definition PATH_MAX :: nat where
  "PATH_MAX = 4096"

definition HOST_NAME_MAX :: nat where
  "HOST_NAME_MAX = 64"

record util_result =
  ret :: "string option"
  blocks :: nat
  fds :: nat
  diagnostic :: string

section \<open>The environment\<close>

definition ogrt_env_enabled :: "(string \<Rightarrow> string option) \<Rightarrow> string \<Rightarrow> bool" where
  "ogrt_env_enabled getenv env_variable =
     (case getenv env_variable of
        Some env_var \<Rightarrow> env_var = ''yes'' \<or> env_var = ''true'' \<or> env_var = ''1''
      | None \<Rightarrow> False)"

section \<open>Paths\<close>

definition ogrt_normalize_path ::
    "bool \<Rightarrow> (string \<Rightarrow> string option) \<Rightarrow> string \<Rightarrow> util_result" where
  "ogrt_normalize_path malloc_ok realpath path =
     (if \<not> malloc_ok
      then \<lparr>ret = None, blocks = 0, fds = 0, diagnostic = ''OGRT: memory allocate failed'' @ newline\<rparr>
      else (case realpath path of
              None \<Rightarrow> \<lparr>ret = None, blocks = 0, fds = 0, diagnostic = ''realpath''\<rparr>
            | Some p \<Rightarrow> \<lparr>ret = Some p, blocks = 1, fds = 0, diagnostic = []\<rparr>))"

text \<open>
  A character buffer of \<open>PATH_MAX\<close> bytes from \<open>malloc\<close>: \<open>None\<close> is a byte never written.
  \<open>store_char\<close> is \<open>buf[i] = c\<close>, undefined outside the buffer; the index is an int because
  it comes from a system call that can return -1. \<open>buf_string\<close> reads the C string,
  undefined when no terminator has been written.
\<close>

definition fill :: "string \<Rightarrow> char option list" where
  "fill bs = map Some (take PATH_MAX bs) @ replicate (PATH_MAX - length bs) None"

definition store_char :: "int \<Rightarrow> char \<Rightarrow> char option list \<Rightarrow> char option list option" where
  "store_char i c buf =
     (if 0 \<le> i \<and> i < int (length buf) then Some (buf[nat i := Some c]) else None)"

fun buf_string :: "char option list \<Rightarrow> string option" where
  "buf_string [] = None"
| "buf_string (None # buf) = None"
| "buf_string (Some c # buf) = (if c = NUL then Some [] else map_option ((#) c) (buf_string buf))"

text \<open>
  \<open>readlink\<close> of \<open>/proc/<pid>/exe\<close>: the bytes of the link, of which at most \<open>PATH_MAX\<close>
  are stored; \<open>None\<close> when it fails.
\<close>

definition ogrt_get_binpath :: "bool \<Rightarrow> string option \<Rightarrow> util_result option" where
  "ogrt_get_binpath malloc_ok link =
     (if \<not> malloc_ok
      then Some \<lparr>ret = None, blocks = 0, fds = 0, diagnostic = ''OGRT: memory allocate failed'' @ newline\<rparr>
      else (case link of
              None \<Rightarrow> Some \<lparr>ret = None, blocks = 0, fds = 0, diagnostic = ''lstat''\<rparr>
            | Some target \<Rightarrow> do {
                let len = int (min (length target) PATH_MAX);
                buf \<leftarrow> store_char len NUL (fill target);
                bin_path \<leftarrow> buf_string buf;
                Some \<lparr>ret = Some bin_path, blocks = 1, fds = 0, diagnostic = []\<rparr>
              }))"

text \<open>
  The loop of lines 82 to 86: \<open>p\<close> runs over the buffer up to \<open>end - 1\<close>, that is index
  \<open>nbytesread - 1\<close>.
\<close>

function blank_loop :: "nat \<Rightarrow> int \<Rightarrow> char option list \<Rightarrow> char option list option" where
  "blank_loop p nbytesread buf =
     (if int p < nbytesread - 1 then
        (if p < length buf then
           (case buf ! p of
              None \<Rightarrow> None
            | Some c \<Rightarrow>
                blank_loop (Suc p) nbytesread (if c = NUL then buf[p := Some CHR '' ''] else buf))
         else None)
      else Some buf)"
  by pat_completeness auto
termination
  by (relation "measure (\<lambda>(p, n, buf). nat (n - int p))") auto

declare blank_loop.simps [simp del]

text \<open>
  \<open>contents\<close> is what \<open>read\<close> can get from \<open>/proc/<pid>/cmdline\<close>; \<open>None\<close> when the file
  cannot be opened or read (\<open>read\<close> returns -1, also for the descriptor -1). \<open>opened\<close>
  tells whether there is a descriptor, which is never closed.
\<close>

definition ogrt_get_cmdline :: "bool \<Rightarrow> bool \<Rightarrow> string option \<Rightarrow> util_result option" where
  "ogrt_get_cmdline malloc_ok opened contents =
     (if \<not> malloc_ok
      then Some \<lparr>ret = None, blocks = 0, fds = 0, diagnostic = ''OGRT: memory allocate failed'' @ newline\<rparr>
      else do {
        let contents = (if opened then contents else None);
        let nbytesread = (case contents of None \<Rightarrow> -1 | Some bs \<Rightarrow> int (min (length bs) PATH_MAX));
        let buf = (case contents of None \<Rightarrow> fill [] | Some bs \<Rightarrow> fill bs);
        blanked \<leftarrow> blank_loop 0 nbytesread buf;
        ended \<leftarrow> store_char nbytesread NUL blanked;
        cmdline \<leftarrow> buf_string ended;
        Some \<lparr>ret = Some cmdline, blocks = 1, fds = (if opened then 1 else 0), diagnostic = []\<rparr>
      })"

section \<open>Names\<close>

definition ogrt_get_username :: "bool \<Rightarrow> string option \<Rightarrow> string option" where
  "ogrt_get_username malloc_ok pw_name =
     (case pw_name of None \<Rightarrow> None | Some n \<Rightarrow> if malloc_ok then Some n else None)"

text \<open>\<open>gethostname n\<close>: the host's name when it fits \<open>n\<close> bytes with its terminator.\<close>

definition ogrt_get_hostname :: "bool \<Rightarrow> (nat \<Rightarrow> string option) \<Rightarrow> string option" where
  "ogrt_get_hostname malloc_ok gethostname =
     (case gethostname (HOST_NAME_MAX + 1) of
        None \<Rightarrow> None
      | Some h \<Rightarrow> if malloc_ok then Some h else None)"

section \<open>Buffers\<close>

lemma length_fill [simp]: "length (fill bs) = PATH_MAX"
  by (simp add: fill_def)

lemma buf_string_ended:
  "is_c_string s \<Longrightarrow> buf_string (map Some s @ Some NUL # rest) = Some s"
  by (induction s) auto

lemma fill_ended:
  assumes "length s < PATH_MAX"
  obtains rest where "(fill s)[length s := Some NUL] = map Some s @ Some NUL # rest"
proof
  show "(fill s)[length s := Some NUL] = map Some s @ Some NUL # replicate (PATH_MAX - length s - 1) None"
    using assms by (cases "PATH_MAX - length s") (simp_all add: fill_def list_update_append)
qed

lemma binpath_short:
  assumes "is_c_string target" and "length target < PATH_MAX"
  shows "ogrt_get_binpath True (Some target)
    = Some \<lparr>ret = Some target, blocks = 1, fds = 0, diagnostic = []\<rparr>"
proof -
  obtain rest where r: "(fill target)[length target := Some NUL] = map Some target @ Some NUL # rest"
    using fill_ended [OF assms(2)] .
  then show ?thesis
    using assms by (simp add: ogrt_get_binpath_def store_char_def min_def buf_string_ended)
qed

text \<open>The loop turns every NUL before the last byte into a blank.\<close>

definition blanked :: "string \<Rightarrow> string" where
  "blanked s = map (\<lambda>c. if c = NUL then CHR '' '' else c) s"

lemma blank_loop_from:
  "blank_loop (length done) (int (length done + length s) + 1) (map Some done @ map Some s @ rest)
     = Some (map Some done @ map Some (blanked s) @ rest)"
proof (induction s arbitrary: "done")
  case Nil
  then show ?case by (subst blank_loop.simps) (simp add: blanked_def)
next
  case (Cons c s)
  let ?d = "if c = NUL then CHR '' '' else c"
  have "blank_loop (length (done @ [?d])) (int (length (done @ [?d]) + length s) + 1)
      (map Some (done @ [?d]) @ map Some s @ rest)
    = Some (map Some (done @ [?d]) @ map Some (blanked s) @ rest)"
    by (rule Cons.IH)
  then show ?case
    by (subst blank_loop.simps)
      (simp add: nth_append list_update_append blanked_def split: if_splits)
qed

end
