(* ===== verification/Util_Spec.thy ===== *)
theory Util_Spec
  imports Util
begin

text \<open>
  What the functions of client/src/ogrt-util.c return, and where they leave their buffers.
\<close>

lemma blank_loop_length:
  "blank_loop p n buf = Some buf' \<Longrightarrow> length buf' = length buf"
  by (induction p n buf rule: blank_loop.induct)
    (subst (asm) (2) blank_loop.simps, auto split: if_splits option.splits)

section \<open>The command line\<close>

definition proc_cmdline :: "string list \<Rightarrow> string" where
  "proc_cmdline args = concat (map (\<lambda>a. a @ [NUL]) args)"

fun join_blank :: "string list \<Rightarrow> string" where
  "join_blank [] = []"
| "join_blank [a] = a"
| "join_blank (a # b # as) = a @ CHR '' '' # join_blank (b # as)"

lemma blanked_c_string: "is_c_string a \<Longrightarrow> blanked a = a"
  by (induction a) (auto simp: blanked_def)

lemma blanked_append: "blanked (a @ b) = blanked a @ blanked b"
  by (simp add: blanked_def)

lemma proc_cmdline_blanked:
  "args \<noteq> [] \<Longrightarrow> list_all is_c_string args \<Longrightarrow>
    \<exists>s. proc_cmdline args = s @ [NUL] \<and> blanked s = join_blank args"
proof (induction args rule: join_blank.induct)
  case (3 a b as)
  then obtain s where s: "proc_cmdline (b # as) = s @ [NUL]" "blanked s = join_blank (b # as)"
    by auto
  then have "proc_cmdline (a # b # as) = (a @ NUL # s) @ [NUL]"
    by (simp add: proc_cmdline_def)
  moreover have "blanked (a @ NUL # s) = join_blank (a # b # as)"
    using 3 s(2) by (simp add: blanked_append blanked_c_string) (simp add: blanked_def)
  ultimately show ?case by blast
qed (auto simp: proc_cmdline_def blanked_c_string)

lemma is_c_string_join:
  "list_all is_c_string args \<Longrightarrow> is_c_string (join_blank args)"
  by (induction args rule: join_blank.induct) (auto simp: is_c_string_def)

lemma cmdline_joined:
  assumes "args \<noteq> []" and "list_all is_c_string args" and "length (proc_cmdline args) < PATH_MAX"
  shows "ogrt_get_cmdline True True (Some (proc_cmdline args))
    = Some \<lparr>ret = Some (join_blank args), blocks = 1, fds = 1, diagnostic = []\<rparr>"
proof -
  obtain s where s: "proc_cmdline args = s @ [NUL]" "blanked s = join_blank args"
    using proc_cmdline_blanked [OF assms(1,2)] by blast
  define m where "m = PATH_MAX - length s - 2"
  have len: "PATH_MAX - length (s @ [NUL]) = Suc m" "length (s @ [NUL]) \<le> PATH_MAX"
    "length (s @ [NUL]) < PATH_MAX"
    using assms(3) s(1) by (simp_all add: m_def)
  have buf: "fill (s @ [NUL]) = map Some [] @ map Some s @ Some NUL # None # replicate m None"
    using len by (simp add: fill_def)
  have bl: "length (blanked s) = length s" by (simp add: blanked_def)
  have "blank_loop 0 (int (length s) + 1) (fill (s @ [NUL]))
      = Some (map Some (blanked s) @ Some NUL # None # replicate m None)"
    using blank_loop_from [of "[]" s "Some NUL # None # replicate m None"] buf by simp
  moreover have "store_char (int (length s) + 1) NUL (map Some (blanked s) @ Some NUL # None # replicate m None)
      = Some (map Some (blanked s) @ Some NUL # Some NUL # replicate m None)"
  proof -
    have "nat (int (length s) + 1) = Suc (length (blanked s))" by (simp add: bl nat_add_distrib)
    then show ?thesis using bl by (simp add: store_char_def list_update_append)
  qed
  moreover have "is_c_string (blanked s)"
    using s(2) is_c_string_join [OF assms(2)] by simp
  ultimately show ?thesis
    using len s by (simp add: ogrt_get_cmdline_def min_def buf_string_ended add.commute)
qed

lemma cmdline_too_long:
  assumes "PATH_MAX \<le> length contents"
  shows "ogrt_get_cmdline True True (Some contents) = None"
proof -
  have "store_char (int PATH_MAX) NUL b = None"
    if "blank_loop 0 (int PATH_MAX) (fill contents) = Some b" for b
    using blank_loop_length [OF that] by (simp add: store_char_def)
  then show ?thesis
    using assms
    by (simp add: ogrt_get_cmdline_def min_def) (auto simp: Let_def bind_eq_None_conv)
qed

lemma cmdline_unreadable:
  assumes "contents = None \<or> \<not> opened"
  shows "ogrt_get_cmdline True opened contents = None"
  using assms
  by (auto simp: ogrt_get_cmdline_def blank_loop.simps store_char_def)

section \<open>Properties\<close>

text \<open>
  Exactly the values \<open>yes\<close>, \<open>true\<close> and \<open>1\<close> enable a flag; an unset variable and
  every other value (\<open>YES\<close>, \<open>on\<close>, the empty string) leave it disabled.
\<close>

theorem env_enabled_values:
  "ogrt_env_enabled getenv v \<longleftrightarrow> getenv v \<in> Some ` {''yes'', ''true'', ''1''}"
  by (auto simp: ogrt_env_enabled_def split: option.splits)

text \<open>
  For a process whose arguments, each with its terminator, take less than
  \<open>PATH_MAX\<close> bytes, \<open>ogrt_get_cmdline\<close> returns the arguments joined by single blanks.
\<close>

theorem cmdline_is_joined:
  assumes "args \<noteq> []" and "list_all is_c_string args" and "length (proc_cmdline args) < PATH_MAX"
  shows "\<exists>r. ogrt_get_cmdline True True (Some (proc_cmdline args)) = Some r
    \<and> ret r = Some (join_blank args)"
  using cmdline_joined [OF assms] by simp

theorem cmdline_is_joined_witness:
  "\<exists>r. ogrt_get_cmdline True True (Some (proc_cmdline [''ls'', ''-l'', ''/tmp''])) = Some r
    \<and> ret r = Some ''ls -l /tmp''"
  using cmdline_is_joined [of "[''ls'', ''-l'', ''/tmp'']"] by (simp add: proc_cmdline_def PATH_MAX_def)

text \<open>
  C31: a command line of \<open>PATH_MAX\<close> bytes or more makes \<open>ogrt_get_cmdline\<close> write its
  terminator behind the buffer, and a command line that cannot be opened or read makes it
  write before the buffer: \<open>read\<close>'s -1 is used as a length.
\<close>

theorem cmdline_out_of_bounds:
  assumes "PATH_MAX \<le> length contents"
  shows "ogrt_get_cmdline True True (Some contents) = None
    \<and> ogrt_get_cmdline True True None = None \<and> ogrt_get_cmdline True False x = None"
  using cmdline_too_long [OF assms] cmdline_unreadable by simp

theorem cmdline_out_of_bounds_witness:
  "ogrt_get_cmdline True True (Some (replicate 5000 CHR ''a'')) = None"
  using cmdline_out_of_bounds [of "replicate 5000 CHR ''a''"] by (simp add: PATH_MAX_def)

text \<open>
  A link shorter than \<open>PATH_MAX\<close> is returned as it is, in one block that the caller
  frees; for a longer one the terminator is written behind the buffer; when \<open>readlink\<close>
  fails nothing stays allocated.
\<close>

theorem binpath_correct:
  assumes "is_c_string target"
  shows "ogrt_get_binpath True (Some target) = (if length target < PATH_MAX
      then Some \<lparr>ret = Some target, blocks = 1, fds = 0, diagnostic = []\<rparr> else None)
    \<and> (\<exists>r. ogrt_get_binpath True None = Some r \<and> ret r = None \<and> blocks r = 0)"
  using binpath_short [OF assms]
  by (simp add: ogrt_get_binpath_def store_char_def min_def)

theorem binpath_correct_witness:
  "ogrt_get_binpath True (Some ''/bin/ls'')
    = Some \<lparr>ret = Some ''/bin/ls'', blocks = 1, fds = 0, diagnostic = []\<rparr>"
  using binpath_correct [of "''/bin/ls''"] by (simp add: PATH_MAX_def)

text \<open>
  Every successful call of \<open>ogrt_get_cmdline\<close> leaves the descriptor of
  \<open>/proc/<pid>/cmdline\<close> open: the function has no \<open>close\<close>.
\<close>

theorem cmdline_leaks_descriptor:
  assumes "ogrt_get_cmdline True opened contents = Some r"
  shows "fds r = 1"
  using assms cmdline_unreadable [of contents opened]
  by (cases opened) (auto simp: ogrt_get_cmdline_def Let_def split: bind_splits option.splits)

theorem cmdline_leaks_descriptor_witness:
  "\<exists>r. ogrt_get_cmdline True True (Some (proc_cmdline [''ls''])) = Some r \<and> fds r = 1"
proof -
  obtain r where "ogrt_get_cmdline True True (Some (proc_cmdline [''ls''])) = Some r"
    using cmdline_joined [of "[''ls'']"] by (auto simp: proc_cmdline_def PATH_MAX_def)
  then show ?thesis using cmdline_leaks_descriptor by blast
qed

end
