(* ===== verification/Frame.thy ===== *)
theory Frame
  imports Prelude
begin

text \<open>
  The frame around a message: \<open>ogrt_prepare_sendbuffer\<close> of client/src/ogrt-main.c writes
  it, and the receive loop of server/src/ogrt-server.go takes it apart.
\<close>

section \<open>Writing a frame\<close>

text \<open>
  A heap block: \<open>None\<close> is a byte that has not been written. \<open>malloc_ok\<close> tells whether
  \<open>malloc\<close> of that many bytes succeeds; its result is not checked by the code. A negative
  \<open>total_length\<close> is converted to \<open>size_t\<close>.
\<close>

type_synonym block = "byte option list"

definition size_of_int :: "cint \<Rightarrow> nat" where
  "size_of_int n = (if 0 \<le> sint n then unat n else 2 ^ 64 - nat (- sint n))"

text \<open>\<open>memcpy\<close> of \<open>bs\<close> to offset \<open>off\<close> of a block: undefined outside the block.\<close>

definition store_bytes :: "nat \<Rightarrow> byte list \<Rightarrow> block \<Rightarrow> block option" where
  "store_bytes off bs b =
     (if off + length bs \<le> length b
      then Some (take off b @ map Some bs @ drop (off + length bs) b) else None)"

text \<open>
  The result is \<open>total_length\<close> and the block; the payload pointer is the block plus 8.
  The sum is computed in \<open>size_t\<close> and stored in an \<open>int\<close>.
\<close>

definition ogrt_prepare_sendbuffer ::
    "(nat \<Rightarrow> bool) \<Rightarrow> cint \<Rightarrow> cint \<Rightarrow> (cint \<times> block) option" where
  "ogrt_prepare_sendbuffer malloc_ok message_type payload_length =
     (let type_bytes = be32_bytes message_type;
          length_bytes = be32_bytes payload_length;
          total_length = payload_length + 8
      in if \<not> malloc_ok (size_of_int total_length) then None
         else do {
           b1 \<leftarrow> store_bytes 0 type_bytes (replicate (size_of_int total_length) None);
           b2 \<leftarrow> store_bytes 4 length_bytes b1;
           Some (total_length, b2)
         })"

text \<open>
  The rest of the sending code, lines 259 to 265 of \<open>ogrt_send_processinfo\<close>: the message
  of packed size \<open>msg_len\<close> is written at the payload pointer, and \<open>send_length\<close> bytes are
  sent. Sending bytes that were never written is undefined. \<open>send_packed\<close> is the case that
  the size is the number of bytes packed.
\<close>

definition send_message ::
    "(nat \<Rightarrow> bool) \<Rightarrow> cint \<Rightarrow> nat \<Rightarrow> byte list \<Rightarrow> byte list option" where
  "send_message malloc_ok message_type msg_len packed = do {
     (send_length, msg_buffer) \<leftarrow> ogrt_prepare_sendbuffer malloc_ok message_type (of_nat msg_len);
     filled \<leftarrow> store_bytes 8 packed msg_buffer;
     (if size_of_int send_length \<le> length filled \<and> None \<notin> set (take (size_of_int send_length) filled)
      then Some (map the (take (size_of_int send_length) filled)) else None)
   }"

definition send_packed :: "(nat \<Rightarrow> bool) \<Rightarrow> cint \<Rightarrow> byte list \<Rightarrow> byte list option" where
  "send_packed malloc_ok message_type packed =
     send_message malloc_ok message_type (length packed) packed"

section \<open>Reading a frame\<close>

definition be32 :: "byte list \<Rightarrow> cint" where
  "be32 bs = foldl (\<lambda>w b. 256 * w + of_nat (unat b)) 0 bs"

text \<open>
  Lines 152 to 169 of \<open>main\<close>: what \<open>ReadFromUDP\<close> leaves in the buffer (a longer datagram
  is cut), and the type and payload taken from it. A slice out of range panics.
\<close>

definition receive_into :: "byte list \<Rightarrow> byte list \<Rightarrow> byte list" where
  "receive_into packet_buffer datagram =
     (let n = min (length datagram) (length packet_buffer)
      in take n datagram @ drop n packet_buffer)"

definition go_slice :: "nat \<Rightarrow> nat \<Rightarrow> byte list \<Rightarrow> byte list option" where
  "go_slice low high bs =
     (if low \<le> high \<and> high \<le> length bs then Some (take (high - low) (drop low bs)) else None)"

definition decode_header :: "byte list \<Rightarrow> (cint \<times> cint) option" where
  "decode_header packet_buffer = do {
     t \<leftarrow> go_slice 0 4 packet_buffer;
     l \<leftarrow> go_slice 4 8 packet_buffer;
     Some (be32 t, be32 l)
   }"

definition decode_packet :: "byte list \<Rightarrow> (cint \<times> byte list) option" where
  "decode_packet packet_buffer = do {
     (msg_type, msg_length) \<leftarrow> decode_header packet_buffer;
     data \<leftarrow> go_slice 8 (unat (msg_length + 8)) packet_buffer;
     Some (msg_type, data)
   }"

section \<open>What the two sides agree on\<close>

definition frame :: "cint \<Rightarrow> byte list \<Rightarrow> byte list" where
  "frame t payload = be32_bytes t @ be32_bytes (of_nat (length payload)) @ payload"

text \<open>The contract between a writer and a reader of frames.\<close>

locale frame_codec =
  fixes encode :: "cint \<Rightarrow> byte list \<Rightarrow> byte list"
    and decode :: "byte list \<Rightarrow> (cint \<times> byte list) option"
    and fits :: "byte list \<Rightarrow> bool"
  assumes decode_encode: "fits p \<Longrightarrow> decode (encode t p @ rest) = Some (t, p)"
begin

lemma encode_injective:
  assumes "fits p" and "fits q" and "encode t p = encode u q"
  shows "t = u \<and> p = q"
  using assms decode_encode [of p t "[]"] decode_encode [of q u "[]"] by simp

lemma prefix_free:
  assumes "fits p" and "fits q" and "encode t p @ rest = encode u q @ rest'"
  shows "t = u \<and> p = q"
  using assms decode_encode [of p t rest] decode_encode [of q u rest'] by simp

end

lemma be32_be32_bytes: "be32 (be32_bytes w) = w"
proof -
  have lt: "unat w < 4294967296" using unsigned_less [of w] by simp
  then have top_byte: "unat w div 16777216 < 256" by simp
  define n where "n = unat w"
  define q1 where "q1 = n div 256"
  define q2 where "q2 = q1 div 256"
  define a0 a1 a2 q3 where "a0 = n mod 256" and "a1 = q1 mod 256" and "a2 = q2 mod 256"
    and "q3 = q2 div 256"
  have eqs: "n = 256 * q1 + a0" "q1 = 256 * q2 + a1" "q2 = 256 * q3 + a2"
    by (simp_all add: q1_def q2_def a0_def a1_def a2_def q3_def)
  have q: "n div 65536 = q2" "n div 16777216 = q3" "n div 256 = q1"
    by (simp_all add: q1_def q2_def q3_def flip: div_mult2_eq)
  have small: "q3 < 256" "a0 < 256" "a1 < 256" "a2 < 256"
    using top_byte unfolding n_def [symmetric] q(2) by (simp_all add: a0_def a1_def a2_def)
  have "be32 (be32_bytes w) = of_nat (256 * (256 * (256 * q3 + a2) + a1) + a0)"
    unfolding be32_def be32_bytes_def n_def [symmetric] q a0_def [symmetric] a1_def [symmetric]
      a2_def [symmetric]
    using small by (simp add: unsigned_of_nat take_bit_nat_eq_self)
  also have "\<dots> = of_nat n" using eqs by simp
  finally show ?thesis by (simp add: n_def)
qed

lemma decode_frame:
  assumes "length payload + 8 < 2 ^ 32"
  shows "decode_packet (frame t payload @ rest) = Some (t, payload)"
proof -
  have header: "decode_header (frame t payload @ rest) = Some (t, of_nat (length payload))"
    by (simp add: decode_header_def go_slice_def frame_def be32_be32_bytes)
  have "unat (of_nat (length payload) + 8 :: cint) = length payload + 8"
    using unat_offset [OF assms] by simp
  then show ?thesis
    unfolding decode_packet_def header
    by (simp add: go_slice_def frame_def)
qed

interpretation wire: frame_codec frame decode_packet "\<lambda>p. length p + 8 < 2 ^ 32"
  by unfold_locales (rule decode_frame)

end
