(* ===== verification/Proto.thy ===== *)
theory Proto
  imports Prelude
begin

text \<open>
  client/src/ogrt.pb-c.h and ogrt.pb-c.c: the message structs with their initial values,
  the functions that check a message's descriptor and call protobuf-c, and the descriptor
  tables that drive protobuf-c; and protocol/ogrt.proto, the schema they are made from. The
  library protobuf-c is the parameter \<open>protobuf_c\<close>. A pointer with its count (\<open>n_x\<close>,
      \<open>x\<close>)
  is a list; a string pointer is an option. The member \<open>base\<close> is the name of the
  descriptor it points to.
\<close>

section \<open>Messages\<close>

record pb_job_start =
  js_base :: string
  js_job_id :: "string option"
  js_start_time :: "64 word"

record pb_job_end =
  je_base :: string
  je_job_id :: "string option"
  je_end_time :: "64 word"

record pb_shared_object =
  pso_base :: string
  pso_path :: "string option"
  pso_signature :: "string option"

record pb_module =
  pm_base :: string
  pm_name :: "string option"

record pb_process_info =
  pi_base :: string
  pi_binpath :: "string option"
  pi_pid :: "32 word"
  pi_parent_pid :: "32 word"
  pi_time :: "64 word"
  pi_signature :: "string option"
  pi_job_id :: "string option"
  pi_username :: "string option"
  pi_hostname :: "string option"
  pi_cmdline :: "string option"
  pi_environment_variables :: "string list"
  pi_arguments :: "string list"
  pi_shared_objects :: "pb_shared_object list"
  pi_loaded_modules :: "pb_module list"

record pb_job_info =
  ji_base :: string
  ji_job_id :: "string option"
  ji_processes :: "pb_process_info list"

record pb_fork =
  fk_base :: string
  fk_hostname :: "string option"
  fk_parent_pid :: "32 word"
  fk_child_pid :: "32 word"
  fk_name :: "string option"

record pb_execve =
  ex_base :: string
  ex_hostname :: "string option"
  ex_pid :: "32 word"
  ex_parent_pid :: "32 word"
  ex_filename :: "string option"
  ex_arguments :: "string list"
  ex_environment_variables :: "string list"
  ex_uuid :: "string option"

text \<open>The initial values.\<close>

definition ogrt__job_start__init :: pb_job_start where
  "ogrt__job_start__init = \<lparr>js_base = ''OGRT.JobStart'', js_job_id = None,
      js_start_time = 0\<rparr>"

definition ogrt__job_end__init :: pb_job_end where
  "ogrt__job_end__init = \<lparr>je_base = ''OGRT.JobEnd'', je_job_id = None, je_end_time = 0\<rparr>"

definition ogrt__shared_object__init :: pb_shared_object where
  "ogrt__shared_object__init = \<lparr>pso_base = ''OGRT.SharedObject'', pso_path = None,
      pso_signature = None\<rparr>"

definition ogrt__module__init :: pb_module where
  "ogrt__module__init = \<lparr>pm_base = ''OGRT.Module'', pm_name = None\<rparr>"

definition ogrt__process_info__init :: pb_process_info where
  "ogrt__process_info__init = \<lparr>pi_base = ''OGRT.ProcessInfo'', pi_binpath = None,
      pi_pid = 0, pi_parent_pid = 0, pi_time = 0, pi_signature = None, pi_job_id = None,
      pi_username = None, pi_hostname = None, pi_cmdline = None, pi_environment_variables = [],
      pi_arguments = [], pi_shared_objects = [], pi_loaded_modules = []\<rparr>"

definition ogrt__job_info__init :: pb_job_info where
  "ogrt__job_info__init = \<lparr>ji_base = ''OGRT.JobInfo'', ji_job_id = None,
      ji_processes = []\<rparr>"

definition ogrt__fork__init :: pb_fork where
  "ogrt__fork__init = \<lparr>fk_base = ''OGRT.Fork'', fk_hostname = None, fk_parent_pid = 0,
      fk_child_pid = 0, fk_name = None\<rparr>"

definition ogrt__execve__init :: pb_execve where
  "ogrt__execve__init = \<lparr>ex_base = ''OGRT.Execve'', ex_hostname = None, ex_pid = 0,
      ex_parent_pid = 0, ex_filename = None, ex_arguments = [], ex_environment_variables = [],
      ex_uuid = None\<rparr>"

section \<open>The functions of a message\<close>

text \<open>Any message: what a pointer to \<open>ProtobufCMessage\<close> can point to.\<close>

datatype message =
    MJobStart pb_job_start
  | MJobEnd pb_job_end
  | MSharedObject pb_shared_object
  | MModule pb_module
  | MProcessInfo pb_process_info
  | MJobInfo pb_job_info
  | MFork pb_fork
  | MExecve pb_execve

text \<open>
  The functions of protobuf-c. \<open>lib_pack\<close> is what is written to the output, and
  \<open>lib_pack_to_buffer\<close> what is appended to the buffer.
\<close>

record protobuf_c =
  lib_get_packed_size :: "message \<Rightarrow> nat"
  lib_pack :: "message \<Rightarrow> byte list"
  lib_pack_to_buffer :: "message \<Rightarrow> byte list"
  lib_unpack :: "string \<Rightarrow> byte list \<Rightarrow> message option"

text \<open>
  The six functions of one message type. A failed \<open>assert\<close> ends the program: \<open>None\<close>.
\<close>

record 'm message_ops =
  m_init :: 'm
  m_get_packed_size :: "'m \<Rightarrow> nat option"
  m_pack :: "'m \<Rightarrow> byte list option"
  m_pack_to_buffer :: "'m \<Rightarrow> byte list option"
  m_unpack :: "byte list \<Rightarrow> 'm option"
  m_free_unpacked :: "'m \<Rightarrow> unit option"

definition job_start_ops :: "protobuf_c \<Rightarrow> pb_job_start message_ops" where
  "job_start_ops lib =
     \<lparr>m_init = ogrt__job_start__init,
      m_get_packed_size = (\<lambda>m. if js_base m = ''OGRT.JobStart''
        then Some (lib_get_packed_size lib (MJobStart m)) else None),
      m_pack = (\<lambda>m. if js_base m = ''OGRT.JobStart''
        then Some (lib_pack lib (MJobStart m)) else None),
      m_pack_to_buffer = (\<lambda>m. if js_base m = ''OGRT.JobStart''
        then Some (lib_pack_to_buffer lib (MJobStart m)) else None),
      m_unpack = (\<lambda>data. case lib_unpack lib ''OGRT.JobStart'' data of
          Some (MJobStart m) \<Rightarrow> Some m | _ \<Rightarrow> None),
      m_free_unpacked = (\<lambda>m. if js_base m = ''OGRT.JobStart'' then Some () else None)\<rparr>"

definition job_end_ops :: "protobuf_c \<Rightarrow> pb_job_end message_ops" where
  "job_end_ops lib =
     \<lparr>m_init = ogrt__job_end__init,
      m_get_packed_size = (\<lambda>m. if je_base m = ''OGRT.JobEnd''
        then Some (lib_get_packed_size lib (MJobEnd m)) else None),
      m_pack = (\<lambda>m. if je_base m = ''OGRT.JobEnd''
        then Some (lib_pack lib (MJobEnd m)) else None),
      m_pack_to_buffer = (\<lambda>m. if je_base m = ''OGRT.JobEnd''
        then Some (lib_pack_to_buffer lib (MJobEnd m)) else None),
      m_unpack = (\<lambda>data. case lib_unpack lib ''OGRT.JobEnd'' data of
          Some (MJobEnd m) \<Rightarrow> Some m | _ \<Rightarrow> None),
      m_free_unpacked = (\<lambda>m. if je_base m = ''OGRT.JobEnd'' then Some () else None)\<rparr>"

definition shared_object_ops :: "protobuf_c \<Rightarrow> pb_shared_object message_ops" where
  "shared_object_ops lib =
     \<lparr>m_init = ogrt__shared_object__init,
      m_get_packed_size = (\<lambda>m. if pso_base m = ''OGRT.SharedObject''
        then Some (lib_get_packed_size lib (MSharedObject m)) else None),
      m_pack = (\<lambda>m. if pso_base m = ''OGRT.SharedObject''
        then Some (lib_pack lib (MSharedObject m)) else None),
      m_pack_to_buffer = (\<lambda>m. if pso_base m = ''OGRT.SharedObject''
        then Some (lib_pack_to_buffer lib (MSharedObject m)) else None),
      m_unpack = (\<lambda>data. case lib_unpack lib ''OGRT.SharedObject'' data of
          Some (MSharedObject m) \<Rightarrow> Some m | _ \<Rightarrow> None),
      m_free_unpacked = (\<lambda>m. if pso_base m = ''OGRT.SharedObject''
        then Some () else None)\<rparr>"

definition module_ops :: "protobuf_c \<Rightarrow> pb_module message_ops" where
  "module_ops lib =
     \<lparr>m_init = ogrt__module__init,
      m_get_packed_size = (\<lambda>m. if pm_base m = ''OGRT.Module''
        then Some (lib_get_packed_size lib (MModule m)) else None),
      m_pack = (\<lambda>m. if pm_base m = ''OGRT.Module''
        then Some (lib_pack lib (MModule m)) else None),
      m_pack_to_buffer = (\<lambda>m. if pm_base m = ''OGRT.Module''
        then Some (lib_pack_to_buffer lib (MModule m)) else None),
      m_unpack = (\<lambda>data. case lib_unpack lib ''OGRT.Module'' data of
          Some (MModule m) \<Rightarrow> Some m | _ \<Rightarrow> None),
      m_free_unpacked = (\<lambda>m. if pm_base m = ''OGRT.Module'' then Some () else None)\<rparr>"

definition process_info_ops :: "protobuf_c \<Rightarrow> pb_process_info message_ops" where
  "process_info_ops lib =
     \<lparr>m_init = ogrt__process_info__init,
      m_get_packed_size = (\<lambda>m. if pi_base m = ''OGRT.ProcessInfo''
        then Some (lib_get_packed_size lib (MProcessInfo m)) else None),
      m_pack = (\<lambda>m. if pi_base m = ''OGRT.ProcessInfo''
        then Some (lib_pack lib (MProcessInfo m)) else None),
      m_pack_to_buffer = (\<lambda>m. if pi_base m = ''OGRT.ProcessInfo''
        then Some (lib_pack_to_buffer lib (MProcessInfo m)) else None),
      m_unpack = (\<lambda>data. case lib_unpack lib ''OGRT.ProcessInfo'' data of
          Some (MProcessInfo m) \<Rightarrow> Some m | _ \<Rightarrow> None),
      m_free_unpacked = (\<lambda>m. if pi_base m = ''OGRT.ProcessInfo''
        then Some () else None)\<rparr>"

definition job_info_ops :: "protobuf_c \<Rightarrow> pb_job_info message_ops" where
  "job_info_ops lib =
     \<lparr>m_init = ogrt__job_info__init,
      m_get_packed_size = (\<lambda>m. if ji_base m = ''OGRT.JobInfo''
        then Some (lib_get_packed_size lib (MJobInfo m)) else None),
      m_pack = (\<lambda>m. if ji_base m = ''OGRT.JobInfo''
        then Some (lib_pack lib (MJobInfo m)) else None),
      m_pack_to_buffer = (\<lambda>m. if ji_base m = ''OGRT.JobInfo''
        then Some (lib_pack_to_buffer lib (MJobInfo m)) else None),
      m_unpack = (\<lambda>data. case lib_unpack lib ''OGRT.JobInfo'' data of
          Some (MJobInfo m) \<Rightarrow> Some m | _ \<Rightarrow> None),
      m_free_unpacked = (\<lambda>m. if ji_base m = ''OGRT.JobInfo'' then Some () else None)\<rparr>"

definition fork_ops :: "protobuf_c \<Rightarrow> pb_fork message_ops" where
  "fork_ops lib =
     \<lparr>m_init = ogrt__fork__init,
      m_get_packed_size = (\<lambda>m. if fk_base m = ''OGRT.Fork''
        then Some (lib_get_packed_size lib (MFork m)) else None),
      m_pack = (\<lambda>m. if fk_base m = ''OGRT.Fork'' then Some (lib_pack lib (MFork m)) else None),
      m_pack_to_buffer = (\<lambda>m. if fk_base m = ''OGRT.Fork''
        then Some (lib_pack_to_buffer lib (MFork m)) else None),
      m_unpack = (\<lambda>data. case lib_unpack lib ''OGRT.Fork'' data of
          Some (MFork m) \<Rightarrow> Some m | _ \<Rightarrow> None),
      m_free_unpacked = (\<lambda>m. if fk_base m = ''OGRT.Fork'' then Some () else None)\<rparr>"

definition execve_ops :: "protobuf_c \<Rightarrow> pb_execve message_ops" where
  "execve_ops lib =
     \<lparr>m_init = ogrt__execve__init,
      m_get_packed_size = (\<lambda>m. if ex_base m = ''OGRT.Execve''
        then Some (lib_get_packed_size lib (MExecve m)) else None),
      m_pack = (\<lambda>m. if ex_base m = ''OGRT.Execve''
        then Some (lib_pack lib (MExecve m)) else None),
      m_pack_to_buffer = (\<lambda>m. if ex_base m = ''OGRT.Execve''
        then Some (lib_pack_to_buffer lib (MExecve m)) else None),
      m_unpack = (\<lambda>data. case lib_unpack lib ''OGRT.Execve'' data of
          Some (MExecve m) \<Rightarrow> Some m | _ \<Rightarrow> None),
      m_free_unpacked = (\<lambda>m. if ex_base m = ''OGRT.Execve'' then Some () else None)\<rparr>"

section \<open>Descriptors\<close>

datatype label = REQUIRED | OPTIONAL | REPEATED

datatype ftype = TYPE_STRING | TYPE_INT32 | TYPE_INT64 | TYPE_MESSAGE

datatype ctype = CPtr | CInt32 | CInt64 | CSize

text \<open>
  A field's descriptor; \<open>fd_quantifier\<close> and \<open>fd_offset\<close> are the members whose
  \<open>offsetof\<close> the table holds (no quantifier is \<open>None\<close>).
\<close>

record field_descriptor =
  fd_name :: string
  fd_id :: nat
  fd_label :: label
  fd_type :: ftype
  fd_quantifier :: "string option"
  fd_offset :: string
  fd_descriptor :: "string option"

record message_descriptor =
  md_name :: string
  md_short_name :: string
  md_c_name :: string
  md_package :: string
  md_layout :: "(string \<times> ctype) list"
  md_n_fields :: nat
  md_fields :: "field_descriptor list"
  md_by_name :: "nat list"
  md_n_ranges :: nat
  md_ranges :: "(nat \<times> nat) list"

definition job_start_layout :: "(string \<times> ctype) list" where
  "job_start_layout =
     [(''job_id'', CPtr),
      (''start_time'', CInt64)]"

definition job_start_fields :: "field_descriptor list" where
  "job_start_fields =
     [\<lparr>fd_name = ''job_id'', fd_id = 100, fd_label = REQUIRED, fd_type = TYPE_STRING,
       fd_quantifier = None, fd_offset = ''job_id'', fd_descriptor = None\<rparr>,
      \<lparr>fd_name = ''start_time'', fd_id = 101, fd_label = REQUIRED, fd_type = TYPE_INT64,
       fd_quantifier = None, fd_offset = ''start_time'', fd_descriptor = None\<rparr>]"

definition job_start_descriptor :: message_descriptor where
  "job_start_descriptor =
     \<lparr>md_name = ''OGRT.JobStart'', md_short_name = ''JobStart'',
         md_c_name = ''OGRT__JobStart'', md_package = ''OGRT'',
      md_layout = job_start_layout, md_n_fields = 2, md_fields = job_start_fields,
      md_by_name = [0, 1], md_n_ranges = 1, md_ranges = [(100, 0), (0, 2)]\<rparr>"

definition job_end_layout :: "(string \<times> ctype) list" where
  "job_end_layout =
     [(''job_id'', CPtr),
      (''end_time'', CInt64)]"

definition job_end_fields :: "field_descriptor list" where
  "job_end_fields =
     [\<lparr>fd_name = ''job_id'', fd_id = 200, fd_label = REQUIRED, fd_type = TYPE_STRING,
       fd_quantifier = None, fd_offset = ''job_id'', fd_descriptor = None\<rparr>,
      \<lparr>fd_name = ''end_time'', fd_id = 201, fd_label = REQUIRED, fd_type = TYPE_INT64,
       fd_quantifier = None, fd_offset = ''end_time'', fd_descriptor = None\<rparr>]"

definition job_end_descriptor :: message_descriptor where
  "job_end_descriptor =
     \<lparr>md_name = ''OGRT.JobEnd'', md_short_name = ''JobEnd'', md_c_name = ''OGRT__JobEnd'',
         md_package = ''OGRT'',
      md_layout = job_end_layout, md_n_fields = 2, md_fields = job_end_fields,
      md_by_name = [1, 0], md_n_ranges = 1, md_ranges = [(200, 0), (0, 2)]\<rparr>"

definition shared_object_layout :: "(string \<times> ctype) list" where
  "shared_object_layout =
     [(''path'', CPtr),
      (''signature'', CPtr)]"

definition shared_object_fields :: "field_descriptor list" where
  "shared_object_fields =
     [\<lparr>fd_name = ''path'', fd_id = 400, fd_label = REQUIRED, fd_type = TYPE_STRING,
       fd_quantifier = None, fd_offset = ''path'', fd_descriptor = None\<rparr>,
      \<lparr>fd_name = ''signature'', fd_id = 401, fd_label = OPTIONAL, fd_type = TYPE_STRING,
       fd_quantifier = None, fd_offset = ''signature'', fd_descriptor = None\<rparr>]"

definition shared_object_descriptor :: message_descriptor where
  "shared_object_descriptor =
     \<lparr>md_name = ''OGRT.SharedObject'', md_short_name = ''SharedObject'',
         md_c_name = ''OGRT__SharedObject'', md_package = ''OGRT'',
      md_layout = shared_object_layout, md_n_fields = 2, md_fields = shared_object_fields,
      md_by_name = [0, 1], md_n_ranges = 1, md_ranges = [(400, 0), (0, 2)]\<rparr>"

definition module_layout :: "(string \<times> ctype) list" where
  "module_layout =
     [(''name'', CPtr)]"

definition module_fields :: "field_descriptor list" where
  "module_fields =
     [\<lparr>fd_name = ''name'', fd_id = 700, fd_label = REQUIRED, fd_type = TYPE_STRING,
       fd_quantifier = None, fd_offset = ''name'', fd_descriptor = None\<rparr>]"

definition module_descriptor :: message_descriptor where
  "module_descriptor =
     \<lparr>md_name = ''OGRT.Module'', md_short_name = ''Module'', md_c_name = ''OGRT__Module'',
         md_package = ''OGRT'',
      md_layout = module_layout, md_n_fields = 1, md_fields = module_fields,
      md_by_name = [0], md_n_ranges = 1, md_ranges = [(700, 0), (0, 1)]\<rparr>"

definition process_info_layout :: "(string \<times> ctype) list" where
  "process_info_layout =
     [(''binpath'', CPtr),
      (''pid'', CInt32),
      (''parent_pid'', CInt32),
      (''time'', CInt64),
      (''signature'', CPtr),
      (''job_id'', CPtr),
      (''username'', CPtr),
      (''hostname'', CPtr),
      (''cmdline'', CPtr),
      (''n_environment_variables'', CSize),
      (''environment_variables'', CPtr),
      (''n_arguments'', CSize),
      (''arguments'', CPtr),
      (''n_shared_objects'', CSize),
      (''shared_objects'', CPtr),
      (''n_loaded_modules'', CSize),
      (''loaded_modules'', CPtr)]"

definition process_info_fields :: "field_descriptor list" where
  "process_info_fields =
     [\<lparr>fd_name = ''binpath'', fd_id = 300, fd_label = REQUIRED, fd_type = TYPE_STRING,
       fd_quantifier = None, fd_offset = ''binpath'', fd_descriptor = None\<rparr>,
      \<lparr>fd_name = ''pid'', fd_id = 301, fd_label = REQUIRED, fd_type = TYPE_INT32,
       fd_quantifier = None, fd_offset = ''pid'', fd_descriptor = None\<rparr>,
      \<lparr>fd_name = ''parent_pid'', fd_id = 302, fd_label = REQUIRED, fd_type = TYPE_INT32,
       fd_quantifier = None, fd_offset = ''parent_pid'', fd_descriptor = None\<rparr>,
      \<lparr>fd_name = ''time'', fd_id = 303, fd_label = REQUIRED, fd_type = TYPE_INT64,
       fd_quantifier = None, fd_offset = ''time'', fd_descriptor = None\<rparr>,
      \<lparr>fd_name = ''signature'', fd_id = 304, fd_label = OPTIONAL, fd_type = TYPE_STRING,
       fd_quantifier = None, fd_offset = ''signature'', fd_descriptor = None\<rparr>,
      \<lparr>fd_name = ''job_id'', fd_id = 305, fd_label = OPTIONAL, fd_type = TYPE_STRING,
       fd_quantifier = None, fd_offset = ''job_id'', fd_descriptor = None\<rparr>,
      \<lparr>fd_name = ''username'', fd_id = 306, fd_label = OPTIONAL, fd_type = TYPE_STRING,
       fd_quantifier = None, fd_offset = ''username'', fd_descriptor = None\<rparr>,
      \<lparr>fd_name = ''hostname'', fd_id = 307, fd_label = OPTIONAL, fd_type = TYPE_STRING,
       fd_quantifier = None, fd_offset = ''hostname'', fd_descriptor = None\<rparr>,
      \<lparr>fd_name = ''cmdline'', fd_id = 308, fd_label = OPTIONAL, fd_type = TYPE_STRING,
       fd_quantifier = None, fd_offset = ''cmdline'', fd_descriptor = None\<rparr>,
      \<lparr>fd_name = ''environment_variables'', fd_id = 309, fd_label = REPEATED,
          fd_type = TYPE_STRING,
       fd_quantifier = Some ''n_environment_variables'', fd_offset = ''environment_variables'',
           fd_descriptor = None\<rparr>,
      \<lparr>fd_name = ''arguments'', fd_id = 310, fd_label = REPEATED, fd_type = TYPE_STRING,
       fd_quantifier = Some ''n_arguments'', fd_offset = ''arguments'', fd_descriptor = None\<rparr>,
      \<lparr>fd_name = ''shared_objects'', fd_id = 311, fd_label = REPEATED, fd_type = TYPE_MESSAGE,
       fd_quantifier = Some ''n_shared_objects'', fd_offset = ''shared_objects'',
           fd_descriptor = Some ''OGRT.SharedObject''\<rparr>,
      \<lparr>fd_name = ''loaded_modules'', fd_id = 312, fd_label = REPEATED, fd_type = TYPE_MESSAGE,
       fd_quantifier = Some ''n_loaded_modules'', fd_offset = ''loaded_modules'',
           fd_descriptor = Some ''OGRT.Module''\<rparr>]"

definition process_info_descriptor :: message_descriptor where
  "process_info_descriptor =
     \<lparr>md_name = ''OGRT.ProcessInfo'', md_short_name = ''ProcessInfo'',
         md_c_name = ''OGRT__ProcessInfo'', md_package = ''OGRT'',
      md_layout = process_info_layout, md_n_fields = 13, md_fields = process_info_fields,
      md_by_name = [10, 0, 8, 9, 7, 5, 12, 2, 1, 11, 4, 3, 6], md_n_ranges = 1, md_ranges = [(300,
          0), (0, 13)]\<rparr>"

definition job_info_layout :: "(string \<times> ctype) list" where
  "job_info_layout =
     [(''job_id'', CPtr),
      (''n_processes'', CSize),
      (''processes'', CPtr)]"

definition job_info_fields :: "field_descriptor list" where
  "job_info_fields =
     [\<lparr>fd_name = ''job_id'', fd_id = 400, fd_label = REQUIRED, fd_type = TYPE_STRING,
       fd_quantifier = None, fd_offset = ''job_id'', fd_descriptor = None\<rparr>,
      \<lparr>fd_name = ''processes'', fd_id = 401, fd_label = REPEATED, fd_type = TYPE_MESSAGE,
       fd_quantifier = Some ''n_processes'', fd_offset = ''processes'',
           fd_descriptor = Some ''OGRT.ProcessInfo''\<rparr>]"

definition job_info_descriptor :: message_descriptor where
  "job_info_descriptor =
     \<lparr>md_name = ''OGRT.JobInfo'', md_short_name = ''JobInfo'',
         md_c_name = ''OGRT__JobInfo'', md_package = ''OGRT'',
      md_layout = job_info_layout, md_n_fields = 2, md_fields = job_info_fields,
      md_by_name = [0, 1], md_n_ranges = 1, md_ranges = [(400, 0), (0, 2)]\<rparr>"

definition fork_layout :: "(string \<times> ctype) list" where
  "fork_layout =
     [(''hostname'', CPtr),
      (''parent_pid'', CInt32),
      (''child_pid'', CInt32),
      (''name'', CPtr)]"

definition fork_fields :: "field_descriptor list" where
  "fork_fields =
     [\<lparr>fd_name = ''hostname'', fd_id = 500, fd_label = REQUIRED, fd_type = TYPE_STRING,
       fd_quantifier = None, fd_offset = ''hostname'', fd_descriptor = None\<rparr>,
      \<lparr>fd_name = ''parent_pid'', fd_id = 501, fd_label = REQUIRED, fd_type = TYPE_INT32,
       fd_quantifier = None, fd_offset = ''parent_pid'', fd_descriptor = None\<rparr>,
      \<lparr>fd_name = ''child_pid'', fd_id = 502, fd_label = REQUIRED, fd_type = TYPE_INT32,
       fd_quantifier = None, fd_offset = ''child_pid'', fd_descriptor = None\<rparr>,
      \<lparr>fd_name = ''name'', fd_id = 503, fd_label = OPTIONAL, fd_type = TYPE_STRING,
       fd_quantifier = None, fd_offset = ''name'', fd_descriptor = None\<rparr>]"

definition fork_descriptor :: message_descriptor where
  "fork_descriptor =
     \<lparr>md_name = ''OGRT.Fork'', md_short_name = ''Fork'', md_c_name = ''OGRT__Fork'',
         md_package = ''OGRT'',
      md_layout = fork_layout, md_n_fields = 4, md_fields = fork_fields,
      md_by_name = [2, 0, 3, 1], md_n_ranges = 1, md_ranges = [(500, 0), (0, 4)]\<rparr>"

definition execve_layout :: "(string \<times> ctype) list" where
  "execve_layout =
     [(''hostname'', CPtr),
      (''pid'', CInt32),
      (''parent_pid'', CInt32),
      (''filename'', CPtr),
      (''n_arguments'', CSize),
      (''arguments'', CPtr),
      (''n_environment_variables'', CSize),
      (''environment_variables'', CPtr),
      (''uuid'', CPtr)]"

definition execve_fields :: "field_descriptor list" where
  "execve_fields =
     [\<lparr>fd_name = ''hostname'', fd_id = 600, fd_label = REQUIRED, fd_type = TYPE_STRING,
       fd_quantifier = None, fd_offset = ''hostname'', fd_descriptor = None\<rparr>,
      \<lparr>fd_name = ''pid'', fd_id = 601, fd_label = REQUIRED, fd_type = TYPE_INT32,
       fd_quantifier = None, fd_offset = ''pid'', fd_descriptor = None\<rparr>,
      \<lparr>fd_name = ''parent_pid'', fd_id = 602, fd_label = REQUIRED, fd_type = TYPE_INT32,
       fd_quantifier = None, fd_offset = ''parent_pid'', fd_descriptor = None\<rparr>,
      \<lparr>fd_name = ''filename'', fd_id = 603, fd_label = REQUIRED, fd_type = TYPE_STRING,
       fd_quantifier = None, fd_offset = ''filename'', fd_descriptor = None\<rparr>,
      \<lparr>fd_name = ''arguments'', fd_id = 604, fd_label = REPEATED, fd_type = TYPE_STRING,
       fd_quantifier = Some ''n_arguments'', fd_offset = ''arguments'', fd_descriptor = None\<rparr>,
      \<lparr>fd_name = ''environment_variables'', fd_id = 605, fd_label = REPEATED,
          fd_type = TYPE_STRING,
       fd_quantifier = Some ''n_environment_variables'', fd_offset = ''environment_variables'',
           fd_descriptor = None\<rparr>,
      \<lparr>fd_name = ''uuid'', fd_id = 606, fd_label = OPTIONAL, fd_type = TYPE_STRING,
       fd_quantifier = None, fd_offset = ''uuid'', fd_descriptor = None\<rparr>]"

definition execve_descriptor :: message_descriptor where
  "execve_descriptor =
     \<lparr>md_name = ''OGRT.Execve'', md_short_name = ''Execve'', md_c_name = ''OGRT__Execve'',
         md_package = ''OGRT'',
      md_layout = execve_layout, md_n_fields = 7, md_fields = execve_fields,
      md_by_name = [4, 5, 3, 0, 2, 1, 6], md_n_ranges = 1, md_ranges = [(600, 0), (0, 7)]\<rparr>"

definition message_descriptors :: "message_descriptor list" where
  "message_descriptors = [job_start_descriptor, job_end_descriptor, shared_object_descriptor,
      module_descriptor, process_info_descriptor, job_info_descriptor, fork_descriptor,
      execve_descriptor]"

section \<open>The message types\<close>

record enum_descriptor =
  ed_by_number :: "(string \<times> nat) list"
  ed_by_name :: "(string \<times> nat) list"
  ed_ranges :: "(nat \<times> nat) list"

definition ogrt__message_type__descriptor :: enum_descriptor where
  "ogrt__message_type__descriptor =
     \<lparr>ed_by_number = [(''JobStartMsg'', 10), (''JobEndMsg'', 11), (''ProcessInfoMsg'', 12),
         (''SharedObjectMsg'', 13), (''ForkMsg'', 14), (''ExecveMsg'', 15)],
      ed_by_name = [(''ExecveMsg'', 5), (''ForkMsg'', 4), (''JobEndMsg'', 1), (''JobStartMsg'', 0),
          (''ProcessInfoMsg'', 2), (''SharedObjectMsg'', 3)],
      ed_ranges = [(10, 0), (0, 6)]\<rparr>"

definition OGRT__MESSAGE_TYPE__ProcessInfoMsg :: cint where
  "OGRT__MESSAGE_TYPE__ProcessInfoMsg = 12"

section \<open>The schema\<close>

text \<open>The messages of protocol/ogrt.proto: name, number, label, type, and message type.\<close>

definition proto_messages ::
    "(string \<times> (string \<times> nat \<times> label \<times> ftype \<times> string option) list) list" where
  "proto_messages =
  [(''JobStart'',
     [(''job_id'', 100, REQUIRED, TYPE_STRING, None),
      (''start_time'', 101, REQUIRED, TYPE_INT64, None)]),
  (''JobEnd'',
     [(''job_id'', 200, REQUIRED, TYPE_STRING, None),
      (''end_time'', 201, REQUIRED, TYPE_INT64, None)]),
  (''SharedObject'',
     [(''path'', 400, REQUIRED, TYPE_STRING, None),
      (''signature'', 401, OPTIONAL, TYPE_STRING, None)]),
  (''Module'',
     [(''name'', 700, REQUIRED, TYPE_STRING, None)]),
  (''ProcessInfo'',
     [(''binpath'', 300, REQUIRED, TYPE_STRING, None),
      (''pid'', 301, REQUIRED, TYPE_INT32, None),
      (''parent_pid'', 302, REQUIRED, TYPE_INT32, None),
      (''time'', 303, REQUIRED, TYPE_INT64, None),
      (''signature'', 304, OPTIONAL, TYPE_STRING, None),
      (''job_id'', 305, OPTIONAL, TYPE_STRING, None),
      (''username'', 306, OPTIONAL, TYPE_STRING, None),
      (''hostname'', 307, OPTIONAL, TYPE_STRING, None),
      (''cmdline'', 308, OPTIONAL, TYPE_STRING, None),
      (''environment_variables'', 309, REPEATED, TYPE_STRING, None),
      (''arguments'', 310, REPEATED, TYPE_STRING, None),
      (''shared_objects'', 311, REPEATED, TYPE_MESSAGE, Some ''SharedObject''),
      (''loaded_modules'', 312, REPEATED, TYPE_MESSAGE, Some ''Module'')]),
  (''JobInfo'',
     [(''job_id'', 400, REQUIRED, TYPE_STRING, None),
      (''processes'', 401, REPEATED, TYPE_MESSAGE, Some ''ProcessInfo'')]),
  (''Fork'',
     [(''hostname'', 500, REQUIRED, TYPE_STRING, None),
      (''parent_pid'', 501, REQUIRED, TYPE_INT32, None),
      (''child_pid'', 502, REQUIRED, TYPE_INT32, None),
      (''name'', 503, OPTIONAL, TYPE_STRING, None)]),
  (''Execve'',
     [(''hostname'', 600, REQUIRED, TYPE_STRING, None),
      (''pid'', 601, REQUIRED, TYPE_INT32, None),
      (''parent_pid'', 602, REQUIRED, TYPE_INT32, None),
      (''filename'', 603, REQUIRED, TYPE_STRING, None),
      (''arguments'', 604, REPEATED, TYPE_STRING, None),
      (''environment_variables'', 605, REPEATED, TYPE_STRING, None),
      (''uuid'', 606, OPTIONAL, TYPE_STRING, None)])]"

definition proto_message_type :: "(string \<times> nat) list" where
  "proto_message_type = [(''JobStartMsg'', 10), (''JobEndMsg'', 11), (''ProcessInfoMsg'', 12),
      (''SharedObjectMsg'', 13), (''ForkMsg'', 14), (''ExecveMsg'', 15)]"

end
