(* ===== verification/Server.thy ===== *)
theory Server
  imports Frame Proto
begin

text \<open>
  The receive loop of server/src/ogrt-server.go as a step relation. One buffer is used for
  all datagrams; every datagram starts a goroutine that decodes its payload later, from a
  slice of that same buffer. \<open>delivered\<close> is what the goroutines hand to
  \<open>proto.Unmarshal\<close>, with the message type they switch on.
\<close>

record server =
  packet_buffer :: "byte list"
  goroutines :: "(cint \<times> nat) list"
  delivered :: "(cint \<times> byte list) list"
  panicked :: bool

datatype event = Receive "byte list" | Run nat

text \<open>
  \<open>Receive\<close>: lines 150 to 187, up to the start of the goroutine, which keeps the type and
  the end of its slice. \<open>Run\<close>: lines 171 to 176, one goroutine reads its slice. It does so in
  one step: a payload that is mixed from two datagrams, because one is received while the
  goroutine reads, is not modelled.
\<close>

inductive server_step :: "server \<Rightarrow> event \<Rightarrow> server \<Rightarrow> bool" where
  receive: "\<not> panicked s \<Longrightarrow> buf = receive_into (packet_buffer s) datagram \<Longrightarrow>
      decode_header buf = Some (t, l) \<Longrightarrow> go_slice 8 (unat (l + 8)) buf \<noteq> None \<Longrightarrow>
      server_step s (Receive datagram)
        (s\<lparr>packet_buffer := buf, goroutines := goroutines s @ [(t, unat (l + 8))]\<rparr>)"
| receive_panic: "\<not> panicked s \<Longrightarrow> buf = receive_into (packet_buffer s) datagram \<Longrightarrow>
      decode_packet buf = None \<Longrightarrow>
      server_step s (Receive datagram) (s\<lparr>packet_buffer := buf, panicked := True\<rparr>)"
| run: "\<not> panicked s \<Longrightarrow> i < length (goroutines s) \<Longrightarrow> goroutines s ! i = (t, high) \<Longrightarrow>
      go_slice 8 high (packet_buffer s) = Some data \<Longrightarrow>
      server_step s (Run i)
        (s\<lparr>goroutines := take i (goroutines s) @ drop (Suc i) (goroutines s),
           delivered := delivered s @ [(t, data)]\<rparr>)"

inductive_cases server_stepE: "server_step s e s'"

inductive server_run :: "server \<Rightarrow> event list \<Rightarrow> server \<Rightarrow> bool" where
  server_run_Nil: "server_run s [] s"
| server_run_Cons: "server_step s e s' \<Longrightarrow> server_run s' es s'' \<Longrightarrow> server_run s (e # es) s''"

inductive_cases server_run_NilE: "server_run s [] s'"
inductive_cases server_run_ConsE: "server_run s (e # es) s'"

definition server_start :: "nat \<Rightarrow> server" where
  "server_start max_receive_buffer = \<lparr>packet_buffer = replicate max_receive_buffer 0,
     goroutines = [], delivered = [], panicked = False\<rparr>"

text \<open>
  What a goroutine does with its payload: a process-info message is unmarshalled and handed
  to the channel of every output; anything else, and a payload that cannot be unmarshalled,
  is dropped. The message types of the generated Go code are those of the schema.
\<close>

definition goroutine ::
    "(byte list \<Rightarrow> 'm option) \<Rightarrow> 'c list \<Rightarrow> cint \<times> byte list \<Rightarrow> ('c \<times> 'm) list" where
  "goroutine unmarshal output_channels d =
     (case d of (msg_type, data) \<Rightarrow>
        if msg_type = OGRT__MESSAGE_TYPE__ProcessInfoMsg
        then (case unmarshal data of
                None \<Rightarrow> []
              | Some msg \<Rightarrow> map (\<lambda>c. (c, msg)) output_channels)
        else [])"

section \<open>Invariants\<close>

definition server_ok :: "nat \<Rightarrow> server \<Rightarrow> bool" where
  "server_ok cap s \<longleftrightarrow> length (packet_buffer s) = cap
     \<and> list_all (\<lambda>(t, high). 8 \<le> high \<and> high \<le> cap) (goroutines s)"

lemma length_receive_into [simp]: "length (receive_into b d) = length b"
  by (simp add: receive_into_def Let_def)

lemma server_step_ok:
  assumes "server_step s e s'" and "server_ok cap s"
  shows "server_ok cap s'"
  using assms
proof cases
  case (run i t high data)
  then have "list_all (\<lambda>(t, high). 8 \<le> high \<and> high \<le> cap)
      (take i (goroutines s) @ drop (Suc i) (goroutines s))"
    using assms(2) by (auto simp: server_ok_def list_all_iff dest: in_set_takeD in_set_dropD)
  then show ?thesis using run assms(2) by (simp add: server_ok_def)
qed (auto simp: server_ok_def go_slice_def split: if_splits)

lemma server_run_ok:
  assumes "server_run s es s'" and "server_ok cap s"
  shows "server_ok cap s'"
  using assms by (induction rule: server_run.induct) (auto intro: server_step_ok)

definition received :: "event list \<Rightarrow> nat" where
  "received es = length (filter (\<lambda>e. case e of Receive _ \<Rightarrow> True | Run _ \<Rightarrow> False) es)"

lemma server_run_count:
  assumes "server_run s es s'" and "\<not> panicked s'"
  shows "\<not> panicked s \<and> length (delivered s') + length (goroutines s')
    = length (delivered s) + length (goroutines s) + received es"
  using assms
proof (induction rule: server_run.induct)
  case (server_run_Cons s e s' es s'')
  then show ?case
    by (auto simp: received_def elim!: server_stepE)
qed (simp add: received_def)

text \<open>
  The type and the end of the slice that the datagrams announce, as they stand in the buffer
  behind each of them; and the same of a payload that has been handed on.
\<close>

fun announced :: "byte list \<Rightarrow> event list \<Rightarrow> (cint \<times> nat) list" where
  "announced buf [] = []"
| "announced buf (Receive datagram # es) =
     (case decode_header (receive_into buf datagram) of
        None \<Rightarrow> announced (receive_into buf datagram) es
      | Some (t, l) \<Rightarrow> (t, unat (l + 8)) # announced (receive_into buf datagram) es)"
| "announced buf (Run i # es) = announced buf es"

definition slice_of :: "cint \<times> byte list \<Rightarrow> cint \<times> nat" where
  "slice_of d = (fst d, length (snd d) + 8)"

lemma mset_take_drop:
  "i < length xs \<Longrightarrow> mset xs = add_mset (xs ! i) (mset (take i xs @ drop (Suc i) xs))"
  by (subst id_take_nth_drop [of i xs]) simp_all

lemma server_run_announced:
  assumes "server_run s es s'" and "\<not> panicked s'" and "server_ok cap s"
  shows "mset (map slice_of (delivered s')) + mset (goroutines s')
    = mset (map slice_of (delivered s)) + mset (goroutines s) + mset (announced (packet_buffer s) es)"
  using assms
proof (induction rule: server_run.induct)
  case (server_run_Cons s e s' es s'')
  have ok: "server_ok cap s'" by (rule server_step_ok [OF server_run_Cons.hyps(1) server_run_Cons.prems(2)])
  have up: "\<not> panicked s'"
    using server_run_count [OF server_run_Cons.hyps(2) server_run_Cons.prems(1)] by simp
  note rest = server_run_Cons.IH [OF server_run_Cons.prems(1) ok]
  from server_run_Cons.hyps(1) show ?case
  proof cases
    case (receive buf datagram t l)
    then show ?thesis using rest by simp
  next
    case receive_panic
    then show ?thesis using up by simp
  next
    case (run i t high data)
    have "slice_of (t, data) = goroutines s ! i"
      using run(5,6) by (auto simp: slice_of_def go_slice_def split: if_splits)
    then show ?thesis
      using rest run mset_take_drop [OF run(4)] by simp
  qed
qed simp

lemma server_run_append:
  "server_run s es s' \<Longrightarrow> server_run s' fs s'' \<Longrightarrow> server_run s (es @ fs) s''"
  by (induction rule: server_run.induct) (auto intro: server_run.intros)

section \<open>Frames\<close>

lemma receive_frame:
  assumes "length (frame t p) \<le> length buf"
  shows "\<exists>rest. receive_into buf (frame t p) = frame t p @ rest"
  using assms by (simp add: receive_into_def Let_def min_def)

lemma frame_fits: "length (frame t p) \<le> cap \<Longrightarrow> cap < 2 ^ 32 \<Longrightarrow> length p + 8 < 2 ^ 32"
  by (simp add: frame_def)

lemma decode_received:
  assumes "length (frame t p) \<le> length buf" and "length buf < 2 ^ 32"
  shows "decode_header (receive_into buf (frame t p)) = Some (t, of_nat (length p))"
    and "go_slice 8 (unat (of_nat (length p) + 8 :: cint)) (receive_into buf (frame t p)) = Some p"
    and "unat (of_nat (length p) + 8 :: cint) = length p + 8"
proof -
  obtain rest where rest: "receive_into buf (frame t p) = frame t p @ rest"
    using receive_frame [OF assms(1)] by blast
  show "decode_header (receive_into buf (frame t p)) = Some (t, of_nat (length p))"
    unfolding rest by (simp add: decode_header_def go_slice_def frame_def be32_be32_bytes)
  show "unat (of_nat (length p) + 8 :: cint) = length p + 8"
    using unat_offset [OF frame_fits [OF assms]] by simp
  then show "go_slice 8 (unat (of_nat (length p) + 8 :: cint)) (receive_into buf (frame t p)) = Some p"
    unfolding rest by (simp add: go_slice_def frame_def)
qed

lemma receive_frame_step:
  assumes "\<not> panicked s" and "length (frame t p) \<le> length (packet_buffer s)"
    and "length (packet_buffer s) < 2 ^ 32"
  shows "server_step s (Receive (frame t p))
    (s\<lparr>packet_buffer := receive_into (packet_buffer s) (frame t p),
       goroutines := goroutines s @ [(t, length p + 8)]\<rparr>)"
  using server_step.receive [OF assms(1) refl decode_received(1) [OF assms(2,3)]]
    decode_received(2,3) [OF assms(2,3)] by simp

text \<open>One message after the other: received, then decoded before the next is received.\<close>

fun one_by_one :: "(cint \<times> byte list) list \<Rightarrow> event list" where
  "one_by_one [] = []"
| "one_by_one ((t, p) # ms) = Receive (frame t p) # Run 0 # one_by_one ms"

lemma one_by_one_delivers:
  assumes "\<not> panicked s" and "goroutines s = []" and "length (packet_buffer s) < 2 ^ 32"
    and "list_all (\<lambda>(t, p). length (frame t p) \<le> length (packet_buffer s)) ms"
  shows "\<exists>s'. server_run s (one_by_one ms) s' \<and> delivered s' = delivered s @ ms
    \<and> goroutines s' = [] \<and> \<not> panicked s'"
  using assms
proof (induction ms arbitrary: s)
  case Nil
  then show ?case by (auto intro: server_run.intros)
next
  case (Cons m ms)
  obtain t p where m: "m = (t, p)" by (cases m)
  have fits: "length (frame t p) \<le> length (packet_buffer s)" using Cons.prems(4) m by simp
  let ?s1 = "s\<lparr>packet_buffer := receive_into (packet_buffer s) (frame t p),
       goroutines := goroutines s @ [(t, length p + 8)]\<rparr>"
  let ?s2 = "?s1\<lparr>goroutines := [], delivered := delivered s @ [(t, p)]\<rparr>"
  have "server_step s (Receive (frame t p)) ?s1"
    by (rule receive_frame_step [OF Cons.prems(1) fits Cons.prems(3)])
  moreover have "server_step ?s1 (Run 0) ?s2"
    using server_step.run [of ?s1 0 t "length p + 8" p] Cons.prems(1,2)
      decode_received(2,3) [OF fits Cons.prems(3)] by simp
  moreover obtain s' where "server_run ?s2 (one_by_one ms) s'" "delivered s' = delivered ?s2 @ ms"
      "goroutines s' = []" "\<not> panicked s'"
    using Cons.IH [of ?s2] Cons.prems by auto
  ultimately show ?case
    using m by (auto intro: server_run_Cons)
qed

end
