(* ===== verification/Wire_Properties.thy ===== *)
theory Wire_Properties
  imports Server
begin

text \<open>
  The properties of the wire format: what the client sends, what the server makes of it,
  and what becomes of messages in the server's receive loop.
\<close>

lemma size_of_int_of_nat:
  assumes "n < 2 ^ 31"
  shows "size_of_int (of_nat n) = n"
  using assms unat_offset [of n] by (simp add: size_of_int_def sint_of_nat)

lemma send_packed_frame:
  assumes "length packed + 8 < 2 ^ 31" and "malloc_ok (length packed + 8)"
  shows "send_packed malloc_ok message_type packed = Some (frame message_type packed)"
proof -
  have size: "size_of_int (of_nat (length packed) + 8) = length packed + 8"
    using size_of_int_of_nat [OF assms(1)] by simp
  have split: "replicate (length packed + 8) None
      = replicate 4 None @ replicate 4 None @ replicate (length packed) (None :: byte option)"
    by (simp flip: replicate_add)
  have prep: "ogrt_prepare_sendbuffer malloc_ok message_type (of_nat (length packed))
      = Some (of_nat (length packed) + 8, map Some (be32_bytes message_type)
          @ map Some (be32_bytes (of_nat (length packed))) @ replicate (length packed) None)"
    using assms(2) by (simp add: ogrt_prepare_sendbuffer_def size split store_bytes_def)
  show ?thesis
    unfolding send_packed_def send_message_def prep
    by (simp add: store_bytes_def size frame_def)
qed

lemma send_packed_no_memory:
  assumes "length packed + 8 < 2 ^ 31" and "\<not> malloc_ok (length packed + 8)"
  shows "send_packed malloc_ok message_type packed = None"
  using assms size_of_int_of_nat [OF assms(1)]
  by (simp add: send_packed_def send_message_def ogrt_prepare_sendbuffer_def)

text \<open>
  For a message of less than 2^31 - 8 bytes, when \<open>malloc\<close> succeeds, the buffer is
  large enough for all three writes, every byte sent has been written, and the datagram is
  the big-endian type and length followed by the packed message.
\<close>

theorem sent_datagram:
  assumes "length packed + 8 < 2 ^ 31" and "malloc_ok (length packed + 8)"
  shows "send_packed malloc_ok message_type packed = Some (frame message_type packed)"
  using assms by (rule send_packed_frame)

theorem sent_datagram_witness:
  "send_packed (\<lambda>n. n < 100) 12 [1, 2, 3] = Some [0, 0, 0, 12, 0, 0, 0, 3, 1, 2, 3]"
  using sent_datagram [of "[1, 2, 3]" "\<lambda>n. n < 100" 12]
  by (simp add: frame_def be32_bytes_def)

text \<open>
  The result of \<open>malloc\<close> is not checked: when it fails, the header is written through
  a null pointer.
\<close>

theorem unchecked_malloc:
  assumes "\<not> malloc_ok (length packed + 8)" and "length packed + 8 < 2 ^ 31"
  shows "send_packed malloc_ok message_type packed = None"
  using assms(2,1) by (rule send_packed_no_memory)

theorem unchecked_malloc_witness:
  "send_packed (\<lambda>n. n < 8) 12 [1] = None"
  by (rule unchecked_malloc) simp_all

text \<open>
  C16: what the client sends is what the server decodes: a datagram that fits the receive
  buffer gives back the type and the exact payload, whatever earlier datagrams have left in
  the buffer.
\<close>

theorem wire_round_trip:
  assumes "send_packed malloc_ok t packed = Some datagram" and "length packed + 8 < 2 ^ 31"
    and "length datagram \<le> length buf"
  shows "decode_packet (receive_into buf datagram) = Some (t, packed)"
proof -
  have d: "datagram = frame t packed"
    using send_packed_frame [OF assms(2), of malloc_ok t]
      send_packed_no_memory [OF assms(2), of malloc_ok t] assms(1)
    by (cases "malloc_ok (length packed + 8)") auto
  have "length packed + 8 < 2 ^ 32"
    using assms(2) by simp
  then show ?thesis
    using receive_frame [of t packed buf] wire.decode_encode [of packed t] assms(3) d by auto
qed

theorem wire_round_trip_witness:
  "send_packed (\<lambda>_. True) 12 [1, 2] = Some (frame 12 [1, 2])
   \<and> decode_packet (receive_into (replicate 64 7) (frame 12 [1, 2])) = Some (12, [1, 2])"
proof -
  have s: "send_packed (\<lambda>_. True) 12 [1, 2] = Some (frame 12 [1, 2])"
    by (rule send_packed_frame) simp_all
  from wire_round_trip [OF s, of "replicate 64 7"] s show ?thesis
    by (simp add: frame_def)
qed

text \<open>
  Frames are self-delimiting: two frames at the beginning of a byte sequence are the
  same frame, so type and payload are determined by the bytes.
\<close>

theorem frames_prefix_free:
  assumes "length p + 8 < 2 ^ 32" and "length q + 8 < 2 ^ 32"
  shows "frame t p @ rest = frame u q @ rest' \<longleftrightarrow> t = u \<and> p = q \<and> rest = rest'"
  using wire.prefix_free [OF assms] by auto

theorem frames_prefix_free_witness:
  "frame 12 [1, 2] @ [0] \<noteq> frame 12 [1] @ [2, 0]"
  using frames_prefix_free [of "[1, 2]" "[1]" 12 "[0]" 12 "[2, 0]"] by simp

text \<open>
  Messages that are received one after the other, each decoded before the next
  datagram, are all delivered, exactly once, in order and with their payload, and no
  goroutine is left.
\<close>

theorem server_delivers:
  assumes "cap < 2 ^ 32" and "list_all (\<lambda>(t, p). length (frame t p) \<le> cap) ms"
  shows "\<exists>s. server_run (server_start cap) (one_by_one ms) s \<and> delivered s = ms
    \<and> goroutines s = [] \<and> \<not> panicked s"
  using one_by_one_delivers [of "server_start cap" ms] assms by (simp add: server_start_def)

theorem server_delivers_witness:
  "\<exists>s. server_run (server_start 64) [Receive (frame 12 [1]), Run 0, Receive (frame 12 [2, 3]), Run 0] s
    \<and> delivered s = [(12, [1]), (12, [2, 3])] \<and> goroutines s = [] \<and> \<not> panicked s"
  using server_delivers [of 64 "[(12, [1]), (12, [2, 3])]"] by (simp add: frame_def)

text \<open>
  C38: whatever datagrams arrive and however the goroutines are scheduled: while the server has
  not panicked, the slice of every goroutine that has not run yet stays inside the buffer, so
  that decoding cannot panic; every received datagram has started exactly one goroutine; and the
  goroutines that have run, with the type they switch on and the length of the payload that they
  have handed on, and those that have not run yet, are together exactly the types and lengths
  that the datagrams have announced, each as often as it was announced. The bytes of a payload
  are not part of this: they may be those of a later datagram.
\<close>

theorem server_run_safe:
  assumes "server_run (server_start cap) es s" and "\<not> panicked s"
  shows "(\<forall>(t, high) \<in> set (goroutines s). go_slice 8 high (packet_buffer s) \<noteq> None)
    \<and> length (delivered s) + length (goroutines s) = received es
    \<and> mset (map slice_of (delivered s)) + mset (goroutines s) = mset (announced (replicate cap 0) es)"
proof -
  have start: "server_ok cap (server_start cap)"
    by (simp add: server_ok_def server_start_def)
  then have "server_ok cap s"
    by (rule server_run_ok [OF assms(1)])
  then show ?thesis
    using server_run_count [OF assms] server_run_announced [OF assms start]
    by (auto simp: server_ok_def go_slice_def list_all_iff server_start_def)
qed

theorem server_run_safe_witness:
  "\<exists>s. server_run (server_start 16) [Receive (frame 12 [1]), Receive (frame 13 [2, 3]), Run 0] s
    \<and> delivered s = [(12, [2])] \<and> goroutines s = [(13, 10)]
    \<and> {#(12, 9)#} + {#(13, 10)#}
      = mset (announced (replicate 16 0) [Receive (frame 12 [1]), Receive (frame 13 [2, 3]), Run 0])"
proof -
  let ?s0 = "server_start 16"
  let ?b1 = "receive_into (packet_buffer ?s0) (frame 12 [1])"
  let ?s1 = "?s0\<lparr>packet_buffer := ?b1, goroutines := goroutines ?s0 @ [(12, length [1 :: byte] + 8)]\<rparr>"
  let ?b2 = "receive_into ?b1 (frame 13 [2, 3])"
  let ?s2 = "?s1\<lparr>packet_buffer := ?b2, goroutines := goroutines ?s1 @ [(13, length [2, 3 :: byte] + 8)]\<rparr>"
  let ?s3 = "?s2\<lparr>goroutines := [(13, 10)], delivered := [(12, [2])]\<rparr>"
  have r1: "server_step ?s0 (Receive (frame 12 [1])) ?s1"
    by (rule receive_frame_step) (simp_all add: server_start_def frame_def)
  have r2: "server_step ?s1 (Receive (frame 13 [2, 3])) ?s2"
    using receive_frame_step [of ?s1 13 "[2, 3]"] by (simp add: server_start_def frame_def)
  have "go_slice 8 9 ?b2 = Some [2]"
    by (simp add: go_slice_def receive_into_def frame_def server_start_def Let_def be32_bytes_def)
  then have r3: "server_step ?s2 (Run 0) ?s3"
    using server_step.run [of ?s2 0 12 9 "[2]"] by (simp add: server_start_def)
  have run: "server_run ?s0 [Receive (frame 12 [1]), Receive (frame 13 [2, 3]), Run 0] ?s3"
    by (intro server_run_Cons [OF r1] server_run_Cons [OF r2] server_run_Cons [OF r3] server_run_Nil)
  have up: "\<not> panicked ?s3" by (simp add: server_start_def)
  show ?thesis
    using run server_run_safe [OF run up]
    by (intro exI [of _ ?s3]) (simp add: slice_of_def)
qed

text \<open>
  C39: the goroutines share the receive buffer: when a second message of the same type and
  length arrives before the first goroutine has run, the second message is delivered twice
  and the first is lost.
\<close>

theorem server_overwrites:
  assumes "length p = length q" and "length p + 8 \<le> cap" and "cap < 2 ^ 32"
  shows "\<exists>s. server_run (server_start cap) [Receive (frame t p), Receive (frame t q), Run 0, Run 0] s
    \<and> delivered s = [(t, q), (t, q)] \<and> goroutines s = [] \<and> \<not> panicked s"
proof -
  let ?s0 = "server_start cap"
  have fits: "length (frame t p) \<le> cap" "length (frame t q) \<le> cap"
    using assms by (simp_all add: frame_def)
  have start: "\<not> panicked ?s0" "length (packet_buffer ?s0) = cap" "goroutines ?s0 = []"
    "delivered ?s0 = []"
    by (simp_all add: server_start_def)
  let ?b1 = "receive_into (packet_buffer ?s0) (frame t p)"
  let ?s1 = "?s0\<lparr>packet_buffer := ?b1, goroutines := goroutines ?s0 @ [(t, length p + 8)]\<rparr>"
  let ?b2 = "receive_into ?b1 (frame t q)"
  let ?s2 = "?s1\<lparr>packet_buffer := ?b2, goroutines := goroutines ?s1 @ [(t, length q + 8)]\<rparr>"
  let ?s3 = "?s2\<lparr>goroutines := [(t, length q + 8)], delivered := [(t, q)]\<rparr>"
  let ?s4 = "?s3\<lparr>goroutines := [], delivered := [(t, q), (t, q)]\<rparr>"
  have r1: "server_step ?s0 (Receive (frame t p)) ?s1"
    by (rule receive_frame_step) (use start fits assms in simp_all)
  have r2: "server_step ?s1 (Receive (frame t q)) ?s2"
    using receive_frame_step [of ?s1 t q] start fits assms by simp
  have data: "go_slice 8 (length q + 8) ?b2 = Some q"
    using decode_received(2,3) [of t q ?b1] start fits assms by simp
  have r3: "server_step ?s2 (Run 0) ?s3"
    using server_step.run [of ?s2 0 t "length q + 8" q] start data assms(1) by simp
  have r4: "server_step ?s3 (Run 0) ?s4"
    using server_step.run [of ?s3 0 t "length q + 8" q] start data by simp
  show ?thesis
    using server_run_Cons [OF r1 server_run_Cons [OF r2 server_run_Cons [OF r3
        server_run_Cons [OF r4 server_run_Nil]]]] start
    by (intro exI [of _ ?s4]) simp
qed

theorem server_overwrites_witness:
  "\<exists>s. server_run (server_start 64) [Receive (frame 12 [1]), Receive (frame 12 [2]), Run 0, Run 0] s
    \<and> delivered s = [(12, [2]), (12, [2])] \<and> goroutines s = [] \<and> \<not> panicked s"
  using server_overwrites [of "[1]" "[2]" 64 12] by simp

text \<open>
  C40: a datagram whose frame is longer than the receive buffer, or that announces a longer
  payload than the buffer holds, ends the server with a panic.
\<close>

theorem server_panics:
  assumes "\<not> panicked s" and "8 \<le> length (packet_buffer s)" and "8 \<le> length datagram"
    and "length (packet_buffer s) < unat (be32 (take 4 (drop 4 datagram)) + 8)"
  shows "\<exists>s'. server_step s (Receive datagram) s' \<and> panicked s'"
proof -
  let ?buf = "receive_into (packet_buffer s) datagram"
  have "take 4 (drop 4 ?buf) = take 4 (drop 4 datagram)"
    using assms(2,3) by (simp add: receive_into_def Let_def min_def take_drop)
  then have "decode_packet ?buf = None"
    using assms(2,4) by (simp add: decode_packet_def decode_header_def go_slice_def)
  from server_step.receive_panic [OF assms(1) refl this] show ?thesis by auto
qed

theorem server_panics_witness:
  "\<exists>s'. server_step (server_start 16) (Receive [0, 0, 0, 12, 0, 0, 0, 99]) s' \<and> panicked s'"
  by (rule server_panics) (simp_all add: server_start_def be32_def)

end
