(* ===== verification/Cli.thy ===== *)
theory Cli
  imports Cmdline Signature Util Readso
begin

text \<open>
  client/src/ogrt-cli.c: the command \<open>ogrt\<close>. \<open>ogrt_read_info\<close> lists the OGRT notes of an
  ELF file, \<open>main\<close> is the command itself. libelf, \<open>open\<close>, \<open>gethostname\<close> and the fresh
  uuid are parameters.
\<close>

unbundle bit_operations_syntax

section \<open>Reading a file\<close>

text \<open>
  What libelf shows of a file: a section has its header (if \<open>gelf_getshdr\<close> succeeds), its
  name (the result of \<open>elf_strptr\<close>), and its bytes (\<open>d_buf\<close> of \<open>elf_getdata\<close>).
\<close>

record elf_section =
  shdr_ok :: bool
  sh_type :: cint
  sh_flags :: "64 word"
  sec_name :: "string option"
  sec_data :: "byte list option"

record elf_handle =
  kind_elf :: bool
  shdrstrndx_ok :: bool
  elf_sections :: "elf_section list"

record elf_library =
  version_ok :: bool
  open_file :: "string option \<Rightarrow> bool"
  elf_begin :: "string option \<Rightarrow> elf_handle option"
  elf_errmsg :: string

text \<open>
  How the function ends: with its value and what it has printed, or by \<open>err\<close> or
  \<open>errx\<close> with exit code 1, what has been printed so far, and the formatted message (the
  program's name, and for \<open>err\<close> the error's text, are left out).
\<close>

datatype info_result =
    InfoReturn int string
  | InfoExit string string

definition SHT_NOTE :: cint where
  "SHT_NOTE = 7"

definition SHF_ALLOC :: "64 word" where
  "SHF_ALLOC = 2"

definition byte_at :: "byte list \<Rightarrow> nat \<Rightarrow> byte option" where
  "byte_at bs i = (if i < length bs then Some (bs ! i) else None)"

definition word_at :: "byte list \<Rightarrow> nat \<Rightarrow> cint option" where
  "word_at bs i = do {
     b0 \<leftarrow> byte_at bs i;
     b1 \<leftarrow> byte_at bs (i + 1);
     b2 \<leftarrow> byte_at bs (i + 2);
     b3 \<leftarrow> byte_at bs (i + 3);
     Some (le32 b0 b1 b2 b3)
   }"

text \<open>The string that \<open>%s\<close> prints from a place in a buffer; it must end inside.\<close>

fun string_bytes :: "byte list \<Rightarrow> string option" where
  "string_bytes [] = None"
| "string_bytes (b # bs) =
     (if b = 0 then Some [] else map_option ((#) (char_of_byte b)) (string_bytes bs))"

definition string_at :: "byte list \<Rightarrow> nat \<Rightarrow> string option" where
  "string_at bs i = string_bytes (drop i bs)"

text \<open>Lines 56 to 65: the first note of a note section.\<close>

definition read_note :: "string \<Rightarrow> 64 word \<Rightarrow> byte list \<Rightarrow> (nat \<times> string) option" where
  "read_note name flags d_buf = do {
     ty \<leftarrow> word_at d_buf 8;
     (if ty = OGRT_ELF_NOTE_TYPE then do {
        version \<leftarrow> byte_at d_buf 20;
        note_name \<leftarrow> string_at d_buf 12;
        uuid \<leftarrow> string_at d_buf 21;
        Some (1, ''OGRT signature in section '' @ name @ newline
          @ ''allocatable:'' @ [CHR 0x09] @ (if flags AND SHF_ALLOC \<noteq> 0 then ''yes'' else ''no'') @ newline
          @ ''version:'' @ [CHR 0x09] @ decimal (unat version) @ newline
          @ ''name:'' @ [CHR 0x09, CHR 0x09] @ note_name @ newline
          @ ''uuid:'' @ [CHR 0x09, CHR 0x09] @ uuid @ newline)
      } else Some (0, []))
   }"

text \<open>The loop of lines 40 to 67.\<close>

fun read_sections :: "string \<Rightarrow> elf_section list \<Rightarrow> nat \<Rightarrow> string \<Rightarrow> info_result option" where
  "read_sections errmsg [] notes_found printed = Some (InfoReturn (int notes_found) printed)"
| "read_sections errmsg (scn # scns) notes_found printed =
     (if \<not> shdr_ok scn
      then Some (InfoExit printed (''getshdr() failed: '' @ errmsg @ ''.''))
      else (case sec_name scn of
              None \<Rightarrow> Some (InfoExit printed (''elf_strptr() failed: '' @ errmsg @ ''.''))
            | Some name \<Rightarrow>
                if sh_type scn = SHT_NOTE then
                  (case sec_data scn of
                     None \<Rightarrow> Some (InfoExit printed (''elf_getdata() failed: '' @ errmsg @ ''.''))
                   | Some d_buf \<Rightarrow>
                       (case read_note name (sh_flags scn) d_buf of
                          None \<Rightarrow> None
                        | Some (n, out) \<Rightarrow>
                            read_sections errmsg scns (notes_found + n) (printed @ out)))
                else read_sections errmsg scns notes_found printed))"

definition ogrt_read_info :: "elf_library \<Rightarrow> string option \<Rightarrow> info_result option" where
  "ogrt_read_info lib filename =
     (let shown = (case filename of Some f \<Rightarrow> f | None \<Rightarrow> ''(null)'') in
      if \<not> version_ok lib
      then Some (InfoExit [] (''ELF library initialization failed: '' @ elf_errmsg lib))
      else if \<not> open_file lib filename
      then Some (InfoExit [] (''open '' @ shown @ [CHR 0x22] @ '' failed''))
      else (case elf_begin lib filename of
              None \<Rightarrow> Some (InfoExit [] (''elf_begin() failed: '' @ elf_errmsg lib @ ''.''))
            | Some elf \<Rightarrow>
                if \<not> kind_elf elf then Some (InfoReturn 1 [])
                else if \<not> shdrstrndx_ok elf
                then Some (InfoExit [] (''elf_getshdrstrndx() failed: '' @ elf_errmsg lib @ ''.''))
                else read_sections (elf_errmsg lib) (elf_sections elf) 0 []))"

section \<open>The command\<close>

text \<open>
  \<open>uuid_unparse_lower(uuid, template_signature+0x55)\<close>: the uuid's text and its terminator
  are written over the template; outside the array this is undefined.
\<close>

definition stamp_template :: "string \<Rightarrow> byte list \<Rightarrow> byte list option" where
  "stamp_template uuid template =
     (let bs = map byte_of_char uuid @ [0] in
      if 0x55 + length bs \<le> length template
      then Some (take 0x55 template @ bs @ drop (0x55 + length bs) template) else None)"

text \<open>Lines 87 to 105: \<open>--generate-signature\<close>.\<close>

definition generate_signature ::
    "(nat \<Rightarrow> string option) \<Rightarrow> string \<Rightarrow> parser_state \<Rightarrow> parser_state outcome option" where
  "generate_signature gethostname uuid st =
     (case gethostname (HOST_NAME_MAX + 1) of
        None \<Rightarrow> Some (Returned 1 (eprintf (''failed to get hostname'' @ newline) st))
      | Some hostname \<Rightarrow> do {
          template \<leftarrow> stamp_template uuid template_signature;
          Some (Returned 0 (printf_out
            (map char_of_byte (take template_signature_len template)) st))
        })"

definition show_signature ::
    "elf_library \<Rightarrow> string option \<Rightarrow> parser_state \<Rightarrow> parser_state outcome option" where
  "show_signature lib filename st =
     (case ogrt_read_info lib filename of
        None \<Rightarrow> None
      | Some (InfoReturn n printed) \<Rightarrow> Some (Returned n (printf_out printed st))
      | Some (InfoExit printed message) \<Rightarrow>
          Some (Exited 1 (eprintf message (printf_out printed st))))"

definition ogrt_main ::
    "(nat \<Rightarrow> bool) \<Rightarrow> string \<Rightarrow> (nat \<Rightarrow> string option) \<Rightarrow> string \<Rightarrow> elf_library \<Rightarrow> nat \<Rightarrow> parser_state
     \<Rightarrow> parser_state outcome option" where
  "ogrt_main mok version gethostname uuid lib argc st =
     (case cmdline_parser mok version argc st of
        None \<Rightarrow> None
      | Some (Returned r s) \<Rightarrow>
          if r \<noteq> 0 then Some (Exited 1 s)
          else
            (let s1 = (if argc = 1 then cmdline_parser_print_help version s else s) in
             if generate_signature_given (ai s1) \<noteq> 0 then generate_signature gethostname uuid s1
             else if show_signature_given (ai s1) \<noteq> 0
             then show_signature lib (show_signature_arg (ai s1)) s1
             else Some (Returned 0 s1))
      | Some other \<Rightarrow> Some other)"

end
