(* ===== verification/Cli_Spec.thy ===== *)
theory Cli_Spec
  imports Cli Cmdline_Properties Readso_Spec
begin

text \<open>
  What the command promises: the object file that \<open>--generate-signature\<close> writes is an ELF
  file with the stamp as its note section, \<open>--show-signature\<close> reads the uuid back, and
  \<open>main\<close> does for every command line what the reference reading of its options says.
\<close>

section \<open>The template and its stamp\<close>

lemma template_lengths:
  "length template_header = 64" "length template_note = 60" "length template_names = 60"
  "length template_sections = 633"
  by (simp_all add: template_header_def template_note_def template_names_def template_sections_def)

lemma template_note_head: "take 21 template_note = take 21 (stamp_bytes [])"
  by (simp add: template_note_def stamp_bytes_def le32_bytes_def OGRT_ELF_NOTE_TYPE_def)

lemma template_note_tail: "drop 58 template_note = [0, 0]"
  by (simp add: template_note_def)

definition stamped :: "string \<Rightarrow> byte list" where
  "stamped uuid = template_header @ stamp_bytes (map byte_of_char uuid) @ template_names
     @ template_sections"

lemma length_stamped: "length uuid = 36 \<Longrightarrow> length (stamped uuid) = 817"
  by (simp add: stamped_def template_lengths length_stamp_bytes)

lemma stamp_bytes_split:
  "stamp_bytes bs = take 21 (stamp_bytes []) @ bs @ 0 # [0, 0]"
  by (simp add: stamp_bytes_def le32_bytes_def)

lemma stamp_template_stamped:
  assumes "length uuid = 36"
  shows "stamp_template uuid template_signature = Some (stamped uuid)"
  using assms
  by (simp add: stamp_template_def template_signature_def template_lengths stamped_def
      stamp_bytes_split [of "map byte_of_char uuid"] template_note_head template_note_tail)

section \<open>Reading the stamp\<close>

lemma word_at_append:
  "word_at (xs @ ys) (length xs + i) = word_at ys i"
  by (simp add: word_at_def byte_at_def nth_append add.assoc)

lemma word_at_le32_bytes: "word_at (le32_bytes w @ ys) 0 = Some w"
  by (simp add: word_at_def byte_at_def le32_bytes_def le32_le32_bytes)

lemma string_bytes_c_string:
  "is_c_string s \<Longrightarrow> string_bytes (map byte_of_char s @ 0 # rest) = Some s"
proof (induction s)
  case (Cons c s)
  have "byte_of_char c \<noteq> 0"
  proof
    assume "byte_of_char c = 0"
    then have "c = char_of_byte 0" by (metis char_of_byte_of_char)
    then have "c = NUL" by (simp add: char_of_byte_def char_of_def)
    then show False using Cons.prems by simp
  qed
  then show ?case using Cons by simp
qed simp

definition shown_text :: "string \<Rightarrow> bool \<Rightarrow> string \<Rightarrow> string" where
  "shown_text sec alloc uuid = ''OGRT signature in section '' @ sec @ newline
     @ ''allocatable:'' @ [CHR 0x09] @ (if alloc then ''yes'' else ''no'') @ newline
     @ ''version:'' @ [CHR 0x09] @ ''1'' @ newline
     @ ''name:'' @ [CHR 0x09, CHR 0x09] @ ''OGRT'' @ newline
     @ ''uuid:'' @ [CHR 0x09, CHR 0x09] @ uuid @ newline"

lemma ogrt_chars:
  "char_of_byte 79 = CHR ''O''" "char_of_byte 71 = CHR ''G''" "char_of_byte 82 = CHR ''R''"
  "char_of_byte 84 = CHR ''T''"
  by code_simp+

lemma read_note_stamp:
  assumes "length uuid = 36" and "is_c_string uuid"
  shows "read_note sec flags (stamp_bytes (map byte_of_char uuid))
    = Some (1, shown_text sec (flags AND SHF_ALLOC \<noteq> 0) uuid)"
proof -
  let ?tail = "[0x4f, 0x47, 0x52, 0x54, 0, 0, 0, 0] @ [1] @ map byte_of_char uuid @ [0] @ [0, 0]"
  have ty: "word_at (stamp_bytes (map byte_of_char uuid)) 8 = Some OGRT_ELF_NOTE_TYPE"
    using word_at_append [of "le32_bytes 5 @ le32_bytes 38" _ 0]
      word_at_le32_bytes [of OGRT_ELF_NOTE_TYPE ?tail]
    by (simp add: stamp_bytes_def)
  have str: "string_at (stamp_bytes (map byte_of_char uuid)) 21 = Some uuid"
    using string_bytes_c_string [OF assms(2)] by (simp add: string_at_def stamp_bytes_def)
  have name: "string_at (stamp_bytes (map byte_of_char uuid)) 12 = Some ''OGRT''"
    by (simp add: string_at_def stamp_bytes_def ogrt_chars)
  have version: "byte_at (stamp_bytes (map byte_of_char uuid)) 20 = Some 1"
    by (simp add: byte_at_def stamp_bytes_def nth_append)
  have one: "decimal 1 = ''1''"
    by code_simp
  show ?thesis
    using ty str name version by (simp add: read_note_def shown_text_def one [simplified])
qed


section \<open>The generated file as libelf shows it\<close>

text \<open>
  The section table of an ELF file for x86-64: the fields of the file header and of the
  section headers that libelf reads, at the offsets of the ELF specification.
\<close>

definition le_at :: "nat \<Rightarrow> nat \<Rightarrow> byte list \<Rightarrow> nat" where
  "le_at off n bs = foldr (\<lambda>b v. unat b + 256 * v) (take n (drop off bs)) 0"

definition section_of :: "byte list \<Rightarrow> nat \<Rightarrow> byte list \<Rightarrow> elf_section" where
  "section_of bs stroff hdr =
     \<lparr>shdr_ok = True, sh_type = of_nat (le_at 4 4 hdr), sh_flags = of_nat (le_at 8 8 hdr),
      sec_name = string_bytes (drop (stroff + le_at 0 4 hdr) bs),
      sec_data = Some (take (le_at 32 8 hdr) (drop (le_at 24 8 hdr) bs))\<rparr>"

text \<open>\<open>elf_nextscn\<close> starts at section 1.\<close>

definition elf_of_bytes :: "byte list \<Rightarrow> elf_handle" where
  "elf_of_bytes bs =
     (let shoff = le_at 40 8 bs; shnum = le_at 60 2 bs; shstrndx = le_at 62 2 bs;
          hdr = (\<lambda>i. take 64 (drop (shoff + 64 * i) bs))
      in \<lparr>kind_elf = (take 4 bs = [0x7f, 0x45, 0x4c, 0x46]), shdrstrndx_ok = shstrndx < shnum,
          elf_sections = map (\<lambda>i. section_of bs (le_at 24 8 (hdr shstrndx)) (hdr i)) [1..<shnum]\<rparr>)"

lemma template_header_fields:
  "le_at 40 8 (template_header @ bs) = 184" "le_at 60 2 (template_header @ bs) = 8"
  "le_at 62 2 (template_header @ bs) = 5" "take 4 (template_header @ bs) = [0x7f, 0x45, 0x4c, 0x46]"
  by (simp_all add: le_at_def template_header_def)

lemma stamped_section_table:
  assumes "length uuid = 36"
  shows "drop (184 + 64 * i) (stamped uuid) = drop (64 * i) template_sections"
  using assms by (simp add: stamped_def template_lengths length_stamp_bytes)

text \<open>Of every section header: name, type, flags, offset and length.\<close>

definition header_fields :: "byte list \<Rightarrow> nat \<times> nat \<times> nat \<times> nat \<times> nat" where
  "header_fields hdr = (le_at 0 4 hdr, le_at 4 4 hdr, le_at 8 8 hdr, le_at 24 8 hdr, le_at 32 8 hdr)"

lemma template_section_fields:
  "header_fields (take 64 (drop 64 template_sections)) = (27, 1, 6, 64, 0)"
  "header_fields (take 64 (drop 128 template_sections)) = (33, 1, 3, 64, 0)"
  "header_fields (take 64 (drop 192 template_sections)) = (39, 8, 3, 64, 0)"
  "header_fields (take 64 (drop 256 template_sections)) = (44, 7, 2, 64, 60)"
  "header_fields (take 64 (drop 320 template_sections)) = (17, 3, 0, 124, 60)"
  "header_fields (take 64 (drop 384 template_sections)) = (1, 2, 0, 696, 120)"
  "header_fields (take 64 (drop 448 template_sections)) = (9, 3, 0, 816, 1)"
  by (simp_all add: header_fields_def le_at_def template_sections_def)

text \<open>The names of sections 1 to 7.\<close>

lemma template_section_names:
  "drop 27 template_names = map byte_of_char ''.text'' @ 0 # drop 33 template_names"
  "drop 33 template_names = map byte_of_char ''.data'' @ 0 # drop 39 template_names"
  "drop 39 template_names = map byte_of_char ''.bss'' @ 0 # drop 44 template_names"
  "drop 44 template_names = map byte_of_char ''.note.ogrt.info'' @ [0]"
  "drop 17 template_names = map byte_of_char ''.shstrtab'' @ 0 # drop 27 template_names"
  "drop 1 template_names = map byte_of_char ''.symtab'' @ 0 # drop 9 template_names"
  "drop 9 template_names = map byte_of_char ''.strtab'' @ 0 # drop 17 template_names"
  by code_simp+

definition template_section_names_table :: "string list" where
  "template_section_names_table =
     [''.text'', ''.data'', ''.bss'', ''.note.ogrt.info'', ''.shstrtab'', ''.symtab'', ''.strtab'']"

lemma stamped_name:
  assumes "length uuid = 36" and "k \<le> 60"
    and "drop k template_names = map byte_of_char s @ 0 # rest" and "is_c_string s"
  shows "string_bytes (drop (124 + k) (stamped uuid)) = Some s"
proof -
  have "drop (124 + k) (stamped uuid) = drop k template_names @ template_sections"
    using assms(1,2) by (simp add: stamped_def template_lengths length_stamp_bytes)
  then show ?thesis
    using string_bytes_c_string [OF assms(4)] assms(3) by simp
qed

lemma stamped_note_data:
  assumes "length uuid = 36"
  shows "take 60 (drop 64 (stamped uuid)) = stamp_bytes (map byte_of_char uuid)"
  using assms by (simp add: stamped_def template_lengths length_stamp_bytes)

lemma section_of_fields:
  assumes "header_fields hdr = (n, t, f, off, sz)"
  shows "section_of bs stroff hdr = \<lparr>shdr_ok = True, sh_type = of_nat t, sh_flags = of_nat f,
     sec_name = string_bytes (drop (stroff + n) bs), sec_data = Some (take sz (drop off bs))\<rparr>"
  using assms by (simp add: header_fields_def section_of_def)

lemma stamped_header_fields:
  "le_at 40 8 (stamped uuid) = 184" "le_at 60 2 (stamped uuid) = 8" "le_at 62 2 (stamped uuid) = 5"
  "take 4 (stamped uuid) = [0x7f, 0x45, 0x4c, 0x46]"
  using template_header_fields [of "stamp_bytes (map byte_of_char uuid) @ template_names @ template_sections"]
  by (simp_all add: stamped_def)

lemma stamped_sections:
  assumes "length uuid = 36"
  shows "elf_sections (elf_of_bytes (stamped uuid)) =
    map (\<lambda>(t, f, name, off, sz). \<lparr>shdr_ok = True, sh_type = t, sh_flags = f, sec_name = Some name,
        sec_data = Some (take sz (drop off (stamped uuid)))\<rparr>)
      [(1, 6, ''.text'', 64, 0), (1, 3, ''.data'', 64, 0), (8, 3, ''.bss'', 64, 0),
       (7, 2, ''.note.ogrt.info'', 64, 60), (3, 0, ''.shstrtab'', 124, 60),
       (2, 0, ''.symtab'', 696, 120), (3, 0, ''.strtab'', 816, 1)]"
proof -
  note at = stamped_section_table [OF assms]
  have hdr: "take 64 (drop (184 + 64 * i) (stamped uuid)) = take 64 (drop (64 * i) template_sections)" for i
    by (simp only: at)
  have off: "le_at 24 8 (take 64 (drop (64 * 5) template_sections)) = 124"
    using template_section_fields(5) by (simp add: header_fields_def)
  have names: "string_bytes (drop (124 + 27) (stamped uuid)) = Some ''.text''"
    "string_bytes (drop (124 + 33) (stamped uuid)) = Some ''.data''"
    "string_bytes (drop (124 + 39) (stamped uuid)) = Some ''.bss''"
    "string_bytes (drop (124 + 44) (stamped uuid)) = Some ''.note.ogrt.info''"
    "string_bytes (drop (124 + 17) (stamped uuid)) = Some ''.shstrtab''"
    "string_bytes (drop (124 + 1) (stamped uuid)) = Some ''.symtab''"
    "string_bytes (drop (124 + 9) (stamped uuid)) = Some ''.strtab''"
    using template_section_names [THEN stamped_name [OF assms, rotated]] by simp_all
  have upto: "[1..<8] = [1, 2, 3, 4, 5, 6, 7 :: nat]"
    by (simp add: upt_rec)
  show ?thesis
    unfolding elf_of_bytes_def stamped_header_fields Let_def hdr off upto
    using template_section_fields [THEN section_of_fields, of "stamped uuid" 124] names
    by simp
qed

section \<open>Listing the notes of a file\<close>

text \<open>A section that needs no reading: its header and name are there and it is no note.\<close>

definition plain_section :: "elf_section \<Rightarrow> bool" where
  "plain_section s \<longleftrightarrow> shdr_ok s \<and> sec_name s \<noteq> None \<and> sh_type s \<noteq> SHT_NOTE"

lemma read_sections_plain:
  assumes "list_all plain_section ss"
  shows "read_sections e (ss @ rest) n out = read_sections e rest n out"
  using assms by (induction ss) (auto simp: plain_section_def)

lemma read_stamped:
  assumes uuid: "length uuid = 36" "is_c_string uuid"
    and lib: "version_ok lib" "open_file lib (Some f)"
      "elf_begin lib (Some f) = Some (elf_of_bytes (stamped uuid))"
  shows "ogrt_read_info lib (Some f) = Some (InfoReturn 1 (shown_text ''.note.ogrt.info'' True uuid))"
proof -
  have kind: "kind_elf (elf_of_bytes (stamped uuid))" "shdrstrndx_ok (elf_of_bytes (stamped uuid))"
    by (simp_all add: elf_of_bytes_def stamped_header_fields Let_def)
  have stamp: "read_note ''.note.ogrt.info'' 2 (take 60 (drop 64 (stamped uuid)))
      = Some (1, shown_text ''.note.ogrt.info'' True uuid)"
    by (simp add: stamped_note_data [OF uuid(1)] read_note_stamp [OF uuid] SHF_ALLOC_def)
  have "read_sections (elf_errmsg lib) (elf_sections (elf_of_bytes (stamped uuid))) 0 []
      = Some (InfoReturn 1 (shown_text ''.note.ogrt.info'' True uuid))"
    by (simp add: stamped_sections [OF uuid(1)] SHT_NOTE_def stamp)
  then show ?thesis
    using lib kind by (simp add: ogrt_read_info_def)
qed

section \<open>What is shown of a file\<close>

text \<open>
  The listing of a file, from the bytes of its sections and without the loop of the code. A
  section cannot be read when libelf has no header or no name for it, or no data though it is a
  note section. The first note of a note section begins with three words, of which the third is
  the type; an OGRT note goes on with its name, the version at offset 20 and the uuid at
  offset 21, each text with a terminator.
\<close>

definition section_unreadable :: "elf_section \<Rightarrow> bool" where
  "section_unreadable s \<longleftrightarrow> \<not> shdr_ok s \<or> sec_name s = None \<or> sh_type s = 7 \<and> sec_data s = None"

definition first_note :: "elf_section \<Rightarrow> byte list" where
  "first_note s = (case sec_data s of None \<Rightarrow> [] | Some d \<Rightarrow> d)"

definition ogrt_section :: "elf_section \<Rightarrow> bool" where
  "ogrt_section s \<longleftrightarrow> sh_type s = 7 \<and> take 4 (drop 8 (first_note s)) = le32_bytes OGRT_ELF_NOTE_TYPE"

text \<open>No byte is read behind the end of the section.\<close>

definition section_complete :: "elf_section \<Rightarrow> bool" where
  "section_complete s \<longleftrightarrow> (sh_type s = 7 \<longrightarrow> 12 \<le> length (first_note s))
     \<and> (ogrt_section s \<longrightarrow> 0 \<in> set (drop 21 (first_note s)))"

definition text_from :: "nat \<Rightarrow> byte list \<Rightarrow> string" where
  "text_from i bs = map char_of_byte (takeWhile (\<lambda>b. b \<noteq> 0) (drop i bs))"

definition section_text :: "elf_section \<Rightarrow> string" where
  "section_text s = ''OGRT signature in section '' @ the (sec_name s) @ newline
     @ ''allocatable:'' @ [CHR 0x09] @ (if bit (sh_flags s) 1 then ''yes'' else ''no'') @ newline
     @ ''version:'' @ [CHR 0x09] @ decimal (unat (first_note s ! 20)) @ newline
     @ ''name:'' @ [CHR 0x09, CHR 0x09] @ text_from 12 (first_note s) @ newline
     @ ''uuid:'' @ [CHR 0x09, CHR 0x09] @ text_from 21 (first_note s) @ newline"

text \<open>
  Value and output of \<open>--show-signature\<close>: 1 and nothing for a file that cannot be opened or is
  not ELF; otherwise the texts of the OGRT sections up to the first section that cannot be
  read, with the number of OGRT sections when there is no such section, and with 1 otherwise.
\<close>

definition shown :: "elf_library \<Rightarrow> string \<Rightarrow> (int \<times> string) option" where
  "shown lib f =
     (case (if version_ok lib \<and> open_file lib (Some f) then elf_begin lib (Some f) else None) of
        None \<Rightarrow> Some (1, [])
      | Some elf \<Rightarrow>
          if \<not> (kind_elf elf \<and> shdrstrndx_ok elf) then Some (1, [])
          else (let read = takeWhile (\<lambda>s. \<not> section_unreadable s) (elf_sections elf);
                    notes = filter ogrt_section read in
                if list_all section_complete read
                then Some (if read = elf_sections elf then int (length notes) else 1,
                       concat (map section_text notes))
                else None))"

lemma word_at_12: "word_at d 8 = (if 12 \<le> length d then
    Some (le32 (d ! 8) (d ! 9) (d ! 10) (d ! 11)) else None)"
  by (simp add: word_at_def byte_at_def)

lemma take_4_drop:
  assumes "12 \<le> length d"
  shows "take 4 (drop 8 d) = [d ! 8, d ! 9, d ! 10, d ! 11]"
  using assms by (intro nth_equalityI) (auto simp: less_Suc_eq numeral_eq_Suc)

lemma le32_bytes_le32: "le32_bytes (le32 a b c d) = [a, b, c, d]"
proof -
  have lt: "unat x < 256" for x :: byte using unsigned_less [of x] by simp
  define q3 q2 q1 where "q3 = unat d" and "q2 = unat c + 256 * q3" and "q1 = unat b + 256 * q2"
  define n where "n = unat a + 256 * q1"
  have sum: "unat a + 256 * unat b + 65536 * unat c + 16777216 * unat d = n"
    by (simp add: n_def q1_def q2_def q3_def)
  have n: "n < 2 ^ 32"
    using lt [of a] lt [of b] lt [of c] lt [of d] by (simp flip: sum)
  have low: "(unat x + 256 * m) div 256 = m" "(unat x + 256 * m) mod 256 = unat x" for x :: byte and m
    using lt [of x] by simp_all
  have q: "n div 256 = q1" "q1 div 256 = q2" "q2 div 256 = q3"
    unfolding n_def q1_def q2_def by (rule low)+
  then have "n div 65536 = q2" "n div 16777216 = q3"
    using div_mult2_eq [of n 256 256] div_mult2_eq [of n 65536 256] by simp_all
  moreover have "n mod 256 = unat a" "q1 mod 256 = unat b" "q2 mod 256 = unat c"
    unfolding n_def q1_def q2_def by (rule low)+
  moreover have "unat (le32 a b c d) = n"
    using n by (simp add: le32_def sum unsigned_of_nat take_bit_nat_eq_self)
  ultimately show ?thesis using q by (simp add: le32_bytes_def q3_def)
qed

lemma word_at_type:
  assumes "12 \<le> length d"
  shows "word_at d 8 = Some w \<longleftrightarrow> take 4 (drop 8 d) = le32_bytes w"
proof
  assume "word_at d 8 = Some w"
  then show "take 4 (drop 8 d) = le32_bytes w"
    using le32_bytes_le32 [of "d ! 8" "d ! 9" "d ! 10" "d ! 11"] assms
    by (simp add: word_at_12 take_4_drop)
next
  assume "take 4 (drop 8 d) = le32_bytes w"
  then have "drop 8 d = le32_bytes w @ drop 12 d"
    using append_take_drop_id [of 4 "drop 8 d"] by simp
  moreover have "word_at d 8 = word_at (drop 8 d) 0"
    using word_at_append [of "take 8 d" "drop 8 d" 0] assms by simp
  ultimately show "word_at d 8 = Some w"
    by (simp add: word_at_le32_bytes)
qed

lemma string_bytes_text:
  "string_bytes bs = (if 0 \<in> set bs then Some (map char_of_byte (takeWhile (\<lambda>b. b \<noteq> 0) bs)) else None)"
  by (induction bs) auto

lemma read_note_text:
  assumes "sh_type s = 7" and "sec_name s = Some n" and "sec_data s = Some d"
  shows "read_note n (sh_flags s) d = (if section_complete s
    then Some (if ogrt_section s then (1, section_text s) else (0, [])) else None)"
proof (cases "12 \<le> length d")
  case False
  then show ?thesis
    using assms by (simp add: read_note_def word_at_12 section_complete_def first_note_def)
next
  case True
  have flag: "sh_flags s AND SHF_ALLOC \<noteq> 0 \<longleftrightarrow> bit (sh_flags s) 1"
    using and_exp_eq_0_iff_not_bit [of "sh_flags s" 1] by (simp add: SHF_ALLOC_def)
  obtain w where w: "word_at d 8 = Some w" using True by (simp add: word_at_12)
  have type: "w = OGRT_ELF_NOTE_TYPE \<longleftrightarrow> ogrt_section s"
    using word_at_type [OF True, of OGRT_ELF_NOTE_TYPE] w assms
    by (simp add: ogrt_section_def first_note_def)
  have sub: "set (drop 21 d) \<subseteq> set (drop 12 d)"
    using set_drop_subset [of 9 "drop 12 d"] by simp
  have "0 \<in> set (drop 21 d) \<Longrightarrow> 20 < length d"
    by (rule ccontr) simp
  then show ?thesis
    using assms True sub w type flag
    by (auto simp: read_note_def section_complete_def first_note_def string_at_def string_bytes_text
        byte_at_def section_text_def text_from_def)
qed

text \<open>What the caller sees of a listing: an error ends the process with status 1.\<close>

fun listed_info :: "info_result \<Rightarrow> int \<times> string" where
  "listed_info (InfoReturn n printed) = (n, printed)"
| "listed_info (InfoExit printed message) = (1, printed)"

lemma read_sections_shown:
  "map_option listed_info (read_sections e ss n out) =
    (let read = takeWhile (\<lambda>s. \<not> section_unreadable s) ss; notes = filter ogrt_section read in
     if list_all section_complete read
     then Some (if read = ss then int (n + length notes) else 1, out @ concat (map section_text notes))
     else None)"
proof (induction ss arbitrary: n out)
  case (Cons s ss)
  show ?case
  proof (cases "section_unreadable s")
    case True
    then show ?thesis by (auto simp: section_unreadable_def SHT_NOTE_def split: option.split)
  next
    case False
    then obtain name where s: "shdr_ok s" "sec_name s = Some name"
      and data: "sh_type s = 7 \<Longrightarrow> \<exists>d. sec_data s = Some d"
      by (auto simp: section_unreadable_def)
    show ?thesis
    proof (cases "sh_type s = 7")
      case True
      then obtain d where "sec_data s = Some d" using data by blast
      then show ?thesis
        using False True s Cons.IH read_note_text [OF True s(2)]
        by (cases "section_complete s"; cases "ogrt_section s")
          (simp_all add: SHT_NOTE_def Let_def del: map_option_eq_Some None_eq_map_option_iff map_option_is_None)
    next
      case no: False
      then show ?thesis
        using False s Cons.IH by (simp add: SHT_NOTE_def Let_def ogrt_section_def section_complete_def)
    qed
  qed
qed simp

lemma read_info_shown: "map_option listed_info (ogrt_read_info lib (Some f)) = shown lib f"
  by (simp add: ogrt_read_info_def shown_def read_sections_shown Let_def split: option.split)

section \<open>The command\<close>

text \<open>
  What the caller of the process sees: its exit status, of which the system keeps the low eight
  bits, and its standard output.
\<close>

fun observe :: "parser_state outcome \<Rightarrow> int \<times> string" where
  "observe (Returned n s) = (n mod 256, stdout_out s)"
| "observe (Exited n s) = (n mod 256, stdout_out s)"
| "observe (Aborted s) = (134, stdout_out s)"

definition main_spec ::
    "string \<Rightarrow> (nat \<Rightarrow> string option) \<Rightarrow> string \<Rightarrow> elf_library \<Rightarrow> string list \<Rightarrow> string
     \<Rightarrow> (int \<times> string) option" where
  "main_spec version gethostname uuid lib args out =
     (case cli_result args of
        CliHelp \<Rightarrow> Some (0, out @ help_text version)
      | CliVersion \<Rightarrow> Some (0, out @ version_text version)
      | CliError \<Rightarrow> Some (1, out)
      | CliRun g sh \<Rightarrow>
          (let out1 = out @ (if args = [] then help_text version else []) in
           if g then
             (case gethostname (HOST_NAME_MAX + 1) of
                None \<Rightarrow> Some (1, out1)
              | Some _ \<Rightarrow> Some (0, out1 @ map char_of_byte (stamped uuid)))
           else
             (case sh of
                None \<Rightarrow> Some (0, out1)
              | Some f \<Rightarrow>
                  map_option (\<lambda>(n, printed). (n mod 256, out1 @ printed)) (shown lib f))))"

lemma generate_signature_out:
  assumes "length uuid = 36"
  shows "generate_signature gethostname uuid st =
    (case gethostname (HOST_NAME_MAX + 1) of
       None \<Rightarrow> Some (Returned 1 (eprintf (''failed to get hostname'' @ newline) st))
     | Some _ \<Rightarrow> Some (Returned 0 (printf_out (map char_of_byte (stamped uuid)) st)))"
  using assms
  by (simp add: generate_signature_def stamp_template_stamped length_stamped
      template_signature_len_def split: option.split)

lemma main_after_parse:
  assumes parsed: "cmdline_parser mok version argc st = Some (Returned 0 s)"
    and holds: "ai_holds (ai s) g sh" and uuid: "length uuid = 36"
    and argc: "argc = Suc (length args)" and run: "cli_result args = CliRun g sh"
  shows "map_option observe (ogrt_main mok version gethostname uuid lib argc st)
    = main_spec version gethostname uuid lib args (stdout_out s)"
proof -
  let ?s1 = "if argc = 1 then cmdline_parser_print_help version s else s"
  have s1: "ai ?s1 = ai s" "stdout_out ?s1 = stdout_out s @ (if args = [] then help_text version else [])"
    using argc by (simp_all add: print_help_out)
  have main: "ogrt_main mok version gethostname uuid lib argc st =
      (if generate_signature_given (ai ?s1) \<noteq> 0 then generate_signature gethostname uuid ?s1
       else if show_signature_given (ai ?s1) \<noteq> 0
       then show_signature lib (show_signature_arg (ai ?s1)) ?s1
       else Some (Returned 0 ?s1))"
    by (simp add: ogrt_main_def parsed Let_def)
  have given: "generate_signature_given (ai ?s1) \<noteq> 0 \<longleftrightarrow> g" "show_signature_given (ai ?s1) \<noteq> 0 \<longleftrightarrow> sh \<noteq> None"
    "show_signature_arg (ai ?s1) = sh"
    using holds s1(1) by (simp_all add: ai_holds_def)
  have "eprintf m t = t\<lparr>stderr_out := stderr_out t @ m\<rparr>" for m and t :: parser_state
    by (simp add: eprintf_def)
  then show ?thesis
    unfolding main given generate_signature_out [OF uuid] main_spec_def run Let_def cli_result.case
      s1(2) [symmetric]
    by (auto simp: show_signature_def printf_out_def simp flip: read_info_shown
        split: option.split info_result.split)
qed

lemma main_refines:
  assumes args: "argv st = name # args" and len: "length uuid = 36"
  shows "map_option observe (ogrt_main (\<lambda>_. True) version gethostname uuid lib (length (argv st)) st)
    = main_spec version gethostname uuid lib args (stdout_out st)"
proof -
  have "argv st \<noteq> []" using args by simp
  then obtain r where r: "cmdline_parser (\<lambda>_. True) version (length (argv st)) st = Some r"
    "parser_outcome version st r"
    using cmdline_parser_refines [OF _ refl, of st version] by blast
  show ?thesis
  proof (cases "cli_result args")
    case (CliRun g sh)
    then obtain s where s: "r = Returned 0 s" "ai_holds (ai s) g sh" "stdout_out s = stdout_out st"
      using r(2) args by (auto simp: parser_outcome_def)
    show ?thesis
      using main_after_parse [OF r(1) [unfolded s(1)] s(2) len _ CliRun] s(3) args by simp
  qed (use r args in \<open>auto simp: parser_outcome_def ogrt_main_def main_spec_def\<close>)
qed

section \<open>Properties\<close>

lemma byte_of_char_of_byte [simp]: "byte_of_char (char_of_byte b) = b"
proof -
  have "unat b < 256" using unsigned_less [of b] by simp
  then show ?thesis by (simp add: byte_of_char_def char_of_byte_def)
qed

text \<open>A library that shows one file, by its bytes, and no other.\<close>

definition library_with :: "string \<Rightarrow> byte list \<Rightarrow> elf_library" where
  "library_with f bs = \<lparr>version_ok = True, open_file = (\<lambda>n. n = Some f),
     elf_begin = (\<lambda>n. if n = Some f then Some (elf_of_bytes bs) else None), elf_errmsg = ''no error''\<rparr>"

definition sample_uuid :: string where
  "sample_uuid = ''01234567-89ab-cdef-0123-456789abcdef''"

lemma sample_uuid_ok: "length sample_uuid = 36" "is_c_string sample_uuid"
  by (simp_all add: sample_uuid_def)

text \<open>
  C4: when every allocation succeeds, the command as a whole is the function \<open>main_spec\<close> of its
  command line and of the sections of the file: exit status and standard output are the ones of
  the reference reading of the options; help is added when there are no arguments;
  \<open>--generate-signature\<close> wins over \<open>--show-signature\<close> and prints the template with the uuid in
  its place, with status 1 only without a host name. For an ELF file of which all sections can be
  read, \<open>--show-signature\<close> prints the first notes of its note sections that are OGRT notes, in
  the order of the sections, and its status is their number modulo 256; the status is 1 for a file
  that cannot be opened or is not ELF (nothing is printed), and when a section cannot be read
  (only what comes before it is printed). A note that is read behind the end of its section has
  no defined outcome, in the code as in \<open>main_spec\<close>.
\<close>

theorem main_correct:
  assumes "argv st = name # args" and "length uuid = 36"
  shows "map_option observe (ogrt_main (\<lambda>_. True) version gethostname uuid lib (length (argv st)) st)
    = main_spec version gethostname uuid lib args (stdout_out st)"
  by (rule main_refines [OF assms])

theorem main_correct_witness:
  "map_option observe (ogrt_main (\<lambda>_. True) ''0.5'' (\<lambda>_. Some ''host'') sample_uuid (library_with ''f'' [])
      2 (fresh_parser [''ogrt'', ''--vers''])) = Some (0, ''ogrt 0.5'' @ newline)"
proof -
  have st: "argv (fresh_parser [''ogrt'', ''--vers'']) = [''ogrt'', ''--vers'']"
    "stdout_out (fresh_parser [''ogrt'', ''--vers'']) = []"
    by (simp_all add: fresh_parser_def)
  have run: "cli_result [''--vers''] = CliVersion" by code_simp
  show ?thesis
    using main_correct [OF st(1) sample_uuid_ok(1), of "''0.5''" "\<lambda>_. Some ''host''" "library_with ''f'' []"]
    by (simp add: st main_spec_def run version_text_def numeral_2_eq_2)
qed

lemma generate_run:
  assumes "argv st = [name, ''--generate-signature'']" and "length uuid = 36"
    and "gethostname (HOST_NAME_MAX + 1) = Some h"
  shows "map_option observe (ogrt_main (\<lambda>_. True) version gethostname uuid lib 2 st)
    = Some (0, stdout_out st @ map char_of_byte (stamped uuid))"
proof -
  have gen: "cli_result [''--generate-signature''] = CliRun True None" by code_simp
  show ?thesis
    using main_refines [OF assms(1,2), of version gethostname lib] assms(1,3)
    by (simp add: main_spec_def gen numeral_2_eq_2)
qed

lemma show_stamped_run:
  assumes "argv st = [name, ''--show-signature'', f]" and "length uuid' = 36"
    and "length uuid = 36" and "is_c_string uuid"
  shows "map_option observe (ogrt_main (\<lambda>_. True) version gethostname uuid' (library_with f (stamped uuid)) 3 st)
    = Some (1, stdout_out st @ shown_text ''.note.ogrt.info'' True uuid)"
proof -
  have sh: "cli_result [''--show-signature'', f] = CliRun False (Some f)"
    by (simp add: cli_result_def ref_scan.simps nonoption_def long_token_def long_options_def
        resolve_long_def exactly_def opt_code_def no_argument_def required_argument_def cli_done_def)
  have "ogrt_read_info (library_with f (stamped uuid)) (Some f)
      = Some (InfoReturn 1 (shown_text ''.note.ogrt.info'' True uuid))"
    by (rule read_stamped [OF assms(3,4)]) (simp_all add: library_with_def)
  then have "shown (library_with f (stamped uuid)) f = Some (1, shown_text ''.note.ogrt.info'' True uuid)"
    by (simp flip: read_info_shown)
  then show ?thesis
    using main_refines [OF assms(1,2), of version gethostname "library_with f (stamped uuid)"] assms(1)
    by (simp add: main_spec_def sh numeral_3_eq_3)
qed

text \<open>
  C5: the round trip of a signature: the bytes that \<open>--generate-signature\<close> prints are an
  ELF file in which \<open>--show-signature\<close> finds exactly one OGRT note, in the allocatable
  section \<open>.note.ogrt.info\<close>, and prints the uuid that was generated.
\<close>

theorem generate_show_round_trip:
  assumes "length uuid = 36" and "length uuid' = 36" and "is_c_string uuid"
    and "gethostname (HOST_NAME_MAX + 1) = Some h"
    and "argv st = [name, ''--generate-signature'']"
    and "argv st' = [name', ''--show-signature'', f]"
  shows "\<exists>bytes. map_option observe (ogrt_main (\<lambda>_. True) version gethostname uuid lib 2 st)
      = Some (0, stdout_out st @ map char_of_byte bytes)
    \<and> map_option observe
        (ogrt_main (\<lambda>_. True) version gethostname uuid' (library_with f bytes) 3 st')
      = Some (1, stdout_out st' @ shown_text ''.note.ogrt.info'' True uuid)"
  using generate_run [of st name uuid gethostname h version lib]
    show_stamped_run [of st' name' f uuid' uuid version gethostname] assms by blast

theorem generate_show_round_trip_witness:
  "\<exists>bytes. map_option observe (ogrt_main (\<lambda>_. True) ''0.5'' (\<lambda>_. Some ''host'') sample_uuid
        (library_with ''g'' []) 2 (fresh_parser [''ogrt'', ''--generate-signature'']))
      = Some (0, map char_of_byte bytes)
    \<and> map_option observe (ogrt_main (\<lambda>_. True) ''0.5'' (\<lambda>_. Some ''host'') sample_uuid
        (library_with ''f'' bytes) 3 (fresh_parser [''ogrt'', ''--show-signature'', ''f'']))
      = Some (1, shown_text ''.note.ogrt.info'' True sample_uuid)"
proof -
  have st: "argv (fresh_parser as) = as" "stdout_out (fresh_parser as) = []" for as
    by (simp_all add: fresh_parser_def)
  show ?thesis
    using generate_show_round_trip [OF sample_uuid_ok(1) sample_uuid_ok(1) sample_uuid_ok(2) _ st(1) st(1),
        of "\<lambda>_. Some ''host''" "''host''" "''0.5''" "library_with ''g'' []"]
    by (simp add: st)
qed

text \<open>
  A file that is not ELF makes \<open>ogrt_read_info\<close> return 1 without a message, the same
  value as for a file with exactly one OGRT note.
\<close>

theorem not_elf_returns_one:
  assumes "version_ok lib" and "open_file lib f" and "elf_begin lib f = Some h" and "\<not> kind_elf h"
  shows "ogrt_read_info lib f = Some (InfoReturn 1 [])"
  using assms by (simp add: ogrt_read_info_def)

theorem not_elf_returns_one_witness:
  "ogrt_read_info (library_with ''f'' [0x23, 0x21]) (Some ''f'') = Some (InfoReturn 1 [])"
  by (rule not_elf_returns_one [where h = "elf_of_bytes [0x23, 0x21]"])
    (simp_all add: library_with_def elf_of_bytes_def Let_def)

definition section_report :: "elf_section \<Rightarrow> (nat \<times> string) option" where
  "section_report s = (if sh_type s = SHT_NOTE
     then (case (sec_name s, sec_data s) of
             (Some n, Some d) \<Rightarrow> read_note n (sh_flags s) d | _ \<Rightarrow> None)
     else Some (0, []))"

definition readable_section :: "elf_section \<Rightarrow> bool" where
  "readable_section s \<longleftrightarrow> shdr_ok s \<and> sec_name s \<noteq> None \<and> section_report s \<noteq> None"

lemma read_sections_report:
  assumes "list_all readable_section ss"
  shows "read_sections e ss n out = Some (InfoReturn
    (int n + sum_list (map (\<lambda>s. int (fst (the (section_report s)))) ss))
    (out @ concat (map (\<lambda>s. snd (the (section_report s))) ss)))"
  using assms
proof (induction ss arbitrary: n out)
  case (Cons s ss)
  then show ?case
    by (auto simp: readable_section_def section_report_def split: if_splits option.splits)
qed simp

text \<open>
  For an ELF file whose sections can be read, the value is the number of sections whose
  first note is an OGRT note, and the report is that of these sections in their order.
\<close>

theorem read_info_counts:
  assumes "version_ok lib" and "open_file lib f" and "elf_begin lib f = Some h" and "kind_elf h"
    and "shdrstrndx_ok h" and "list_all readable_section (elf_sections h)"
  shows "ogrt_read_info lib f = Some (InfoReturn
    (sum_list (map (\<lambda>s. int (fst (the (section_report s)))) (elf_sections h)))
    (concat (map (\<lambda>s. snd (the (section_report s))) (elf_sections h))))"
  using assms by (simp add: ogrt_read_info_def read_sections_report)

theorem read_info_counts_witness:
  "\<exists>lib. ogrt_read_info lib (Some ''f'') = Some (InfoReturn 0 []) \<and> version_ok lib
    \<and> open_file lib (Some ''f'')"
proof -
  define s where "s = \<lparr>shdr_ok = True, sh_type = 1, sh_flags = 6, sec_name = Some ''.text'', sec_data = None\<rparr>"
  define lib where "lib = \<lparr>version_ok = True, open_file = (\<lambda>_. True),
     elf_begin = (\<lambda>_. Some \<lparr>kind_elf = True, shdrstrndx_ok = True, elf_sections = [s]\<rparr>), elf_errmsg = []\<rparr>"
  have "ogrt_read_info lib (Some ''f'') = Some (InfoReturn
    (sum_list (map (\<lambda>s. int (fst (the (section_report s)))) [s]))
    (concat (map (\<lambda>s. snd (the (section_report s))) [s])))"
    using read_info_counts [of lib "Some ''f''" "\<lparr>kind_elf = True, shdrstrndx_ok = True, elf_sections = [s]\<rparr>"]
    by (simp add: lib_def readable_section_def section_report_def s_def SHT_NOTE_def)
  then show ?thesis
    by (intro exI [of _ lib]) (simp add: section_report_def s_def SHT_NOTE_def lib_def)
qed

text \<open>
  A note section of less than 12 bytes is read beyond its end: its size is not looked
  at before the note's type is read.
\<close>

theorem short_note_section:
  assumes "length d_buf < 12" and "shdr_ok s" and "sec_name s = Some n" and "sh_type s = SHT_NOTE"
    and "sec_data s = Some d_buf"
  shows "read_sections e (s # ss) found out = None"
proof -
  have "word_at d_buf 8 = None"
    using assms(1) by (auto simp: word_at_def byte_at_def)
  then show ?thesis using assms by (simp add: read_note_def)
qed

theorem short_note_section_witness:
  "read_sections [] [\<lparr>shdr_ok = True, sh_type = 7, sh_flags = 2, sec_name = Some ''.note'',
     sec_data = Some [0, 0, 0, 0]\<rparr>] 0 [] = None"
  by (rule short_note_section [where d_buf = "[0, 0, 0, 0]"]) (simp_all add: SHT_NOTE_def)

end
