(* ===== verification/Go_Path.thy ===== *)
theory Go_Path
  imports Prelude
begin

text \<open>
  What the server uses of Go's packages \<open>strings\<close> and \<open>path\<close>: \<open>strings.Split\<close> with a
  separator of one character, \<open>path.Clean\<close> and \<open>path.Join\<close>; and the names for which a
  joined path is an entry of the directory.
\<close>

fun split_at :: "char \<Rightarrow> string \<Rightarrow> string list" where
  "split_at c [] = [[]]"
| "split_at c (x # s) =
     (if x = c then [] # split_at c s
      else (case split_at c s of [] \<Rightarrow> [[x]] | p # ps \<Rightarrow> (x # p) # ps))"

fun join_with :: "char \<Rightarrow> string list \<Rightarrow> string" where
  "join_with c [] = []"
| "join_with c [p] = p"
| "join_with c (p # q # ps) = p @ c # join_with c (q # ps)"

text \<open>
  The elements of a cleaned path: empty elements and \<open>.\<close> are dropped, and \<open>..\<close> removes the
  element before it; at the root it is dropped, and at the start of a relative path it stays.
\<close>

fun clean_elements :: "bool \<Rightarrow> string list \<Rightarrow> string list \<Rightarrow> string list" where
  "clean_elements rooted stack [] = rev stack"
| "clean_elements rooted stack (e # es) =
     (if e = [] \<or> e = ''.'' then clean_elements rooted stack es
      else if e = ''..'' then
        (case stack of
           [] \<Rightarrow> clean_elements rooted (if rooted then [] else [''..'']) es
         | x # rest \<Rightarrow> clean_elements rooted (if x = ''..'' then ''..'' # stack else rest) es)
      else clean_elements rooted (e # stack) es)"

definition is_rooted :: "string \<Rightarrow> bool" where
  "is_rooted p \<longleftrightarrow> char_at p 0 = CHR ''/''"

definition elements :: "string \<Rightarrow> string list" where
  "elements p = clean_elements (is_rooted p) [] (split_at (CHR ''/'') p)"

definition print_path :: "bool \<Rightarrow> string list \<Rightarrow> string" where
  "print_path rooted es =
     (if rooted then CHR ''/'' # join_with (CHR ''/'') es
      else if es = [] then ''.'' else join_with (CHR ''/'') es)"

definition path_clean :: "string \<Rightarrow> string" where
  "path_clean p = print_path (is_rooted p) (elements p)"

definition path_join :: "string \<Rightarrow> string \<Rightarrow> string" where
  "path_join a b =
     (if a \<noteq> [] then path_clean (a @ CHR ''/'' # b) else if b \<noteq> [] then path_clean b else [])"

text \<open>The directory that holds an entry.\<close>

definition parent_dir :: "string \<Rightarrow> string" where
  "parent_dir p = path_join p ''..''"

text \<open>The names under which a directory can hold a file.\<close>

definition entry_name :: "string \<Rightarrow> bool" where
  "entry_name e \<longleftrightarrow> e \<noteq> [] \<and> e \<noteq> ''.'' \<and> e \<noteq> ''..'' \<and> CHR ''/'' \<notin> set e"

section \<open>Splitting and joining\<close>

lemma split_at_not_Nil [simp]: "split_at c s \<noteq> []"
  by (cases s) (auto split: list.splits)

lemma split_at_append: "split_at c (a @ c # b) = split_at c a @ split_at c b"
proof (induction a)
  case (Cons x a)
  then show ?case by (cases "split_at c a") auto
qed simp

lemma split_at_single: "c \<notin> set e \<Longrightarrow> split_at c e = [e]"
  by (induction e) auto

lemma split_at_elements: "e \<in> set (split_at c s) \<Longrightarrow> c \<notin> set e"
  by (induction s arbitrary: e) (auto split: if_splits list.splits)

lemma split_join:
  assumes "list_all (\<lambda>e. c \<notin> set e) es" and "es \<noteq> []"
  shows "split_at c (join_with c es) = es"
  using assms by (induction es rule: join_with.induct) (simp_all add: split_at_single split_at_append)

lemma length_split_join: "length (split_at c s) = Suc (length (filter (\<lambda>x. x = c) s))"
  by (induction s) (auto split: list.splits)

section \<open>Clean paths\<close>

lemma clean_elements_append:
  "clean_elements r st (xs @ ys) = clean_elements r (rev (clean_elements r st xs)) ys"
  by (induction r st xs rule: clean_elements.induct) (auto split: list.splits)

text \<open>A stack as the loop keeps it: proper names on top of leading \<open>..\<close>.\<close>

fun clean_stack :: "bool \<Rightarrow> string list \<Rightarrow> bool" where
  "clean_stack r [] = True"
| "clean_stack r (e # st) =
     (if e = ''..'' then \<not> r \<and> list_all (\<lambda>x. x = ''..'') st else entry_name e \<and> clean_stack r st)"

lemma clean_stack_dots: "\<not> r \<Longrightarrow> list_all (\<lambda>x. x = ''..'') st \<Longrightarrow> clean_stack r st"
  by (induction st) auto

lemma clean_elements_stack:
  assumes "clean_stack r st" and "list_all (\<lambda>e. CHR ''/'' \<notin> set e) es"
  shows "clean_stack r (rev (clean_elements r st es))"
  using assms
proof (induction r st es rule: clean_elements.induct)
  case (2 r st e es)
  then show ?case
    by (auto simp: entry_name_def clean_stack_dots split: list.splits if_splits)
qed simp

lemma clean_elements_dots:
  assumes "\<not> r" and "list_all (\<lambda>x. x = ''..'') st" and "list_all (\<lambda>x. x = ''..'') es"
  shows "clean_elements r st es = rev st @ es"
  using assms by (induction es arbitrary: st) (auto split: list.splits)

lemma clean_elements_clean:
  assumes "clean_stack r st"
  shows "clean_elements r [] (rev st) = rev st"
  using assms
proof (induction st)
  case (Cons e st)
  show ?case
  proof (cases "e = ''..''")
    case True
    then show ?thesis using Cons.prems
      by (subst clean_elements_dots) auto
  next
    case False
    then show ?thesis using Cons
      by (simp add: clean_elements_append entry_name_def)
  qed
qed simp

lemma clean_stack_no_slash: "clean_stack r st \<Longrightarrow> list_all (\<lambda>e. e \<noteq> [] \<and> CHR ''/'' \<notin> set e) st"
  by (induction st) (auto simp: entry_name_def list_all_iff split: if_splits)

lemma elements_stack [simp]: "clean_stack (is_rooted p) (rev (elements p))"
  unfolding elements_def
  by (rule clean_elements_stack) (auto simp: list_all_iff dest: split_at_elements)

lemma join_with_hd: "es \<noteq> [] \<Longrightarrow> hd es \<noteq> [] \<Longrightarrow> char_at (join_with c es) 0 = hd (hd es)"
  by (induction c es rule: join_with.induct) (auto simp: char_at_def nth_append hd_conv_nth)

lemma is_rooted_print:
  assumes "clean_stack r (rev es)"
  shows "is_rooted (print_path r es) = r"
proof (cases "r \<or> es = []")
  case False
  then have "hd es \<noteq> []" and "CHR ''/'' \<notin> set (hd es)"
    using clean_stack_no_slash [OF assms] by (cases es; simp)+
  then have "hd (hd es) \<noteq> CHR ''/''" by (cases "hd es") auto
  then show ?thesis
    using False join_with_hd [of es "CHR ''/''"] \<open>hd es \<noteq> []\<close>
    by (simp add: is_rooted_def print_path_def)
qed (auto simp: is_rooted_def print_path_def)

lemma elements_print:
  assumes "clean_stack r (rev es)"
  shows "elements (print_path r es) = es"
proof -
  have ns: "list_all (\<lambda>e. CHR ''/'' \<notin> set e) es"
    using clean_stack_no_slash [OF assms] by (auto simp: list_all_iff)
  have clean: "clean_elements r [] es = es"
    using clean_elements_clean [OF assms] by simp
  have "clean_elements r [] (split_at (CHR ''/'') (print_path r es)) = es"
    using ns clean by (cases "es = []") (auto simp: print_path_def split_join)
  then show ?thesis
    using is_rooted_print [OF assms] by (simp add: elements_def)
qed

lemma path_clean_idem [simp]: "path_clean (path_clean p) = path_clean p"
  unfolding path_clean_def
  by (simp add: is_rooted_print elements_print elements_stack)

lemma print_path_inject:
  assumes "clean_stack r (rev es)" and "clean_stack r' (rev es')"
  shows "print_path r es = print_path r' es' \<longleftrightarrow> r = r' \<and> es = es'"
proof
  assume eq: "print_path r es = print_path r' es'"
  show "r = r' \<and> es = es'"
    using is_rooted_print [OF assms(1)] is_rooted_print [OF assms(2)]
      elements_print [OF assms(1)] elements_print [OF assms(2)] unfolding eq by simp
qed simp

lemma is_rooted_append [simp]: "a \<noteq> [] \<Longrightarrow> is_rooted (a @ b) = is_rooted a"
  by (cases a) (simp_all add: is_rooted_def)

lemma path_join_elements:
  assumes "d \<noteq> []"
  shows "path_join d e = print_path (is_rooted d)
    (clean_elements (is_rooted d) (rev (elements d)) (split_at (CHR ''/'') e))"
  using assms
  by (simp add: path_join_def path_clean_def elements_def split_at_append clean_elements_append)

section \<open>Entries of a directory\<close>

lemma path_join_entry:
  assumes "d \<noteq> []" and "entry_name e"
  shows "path_join d e = print_path (is_rooted d) (elements d @ [e])"
  using assms by (simp add: path_join_elements split_at_single entry_name_def)

lemma entry_name_neq [simp]: "entry_name e \<Longrightarrow> e \<noteq> ''..''" "entry_name e \<Longrightarrow> e \<noteq> []"
  by (simp_all add: entry_name_def)

lemma join_with_snoc_not_Nil: "e \<noteq> [] \<Longrightarrow> join_with c (es @ [e]) \<noteq> []"
  by (induction c es rule: join_with.induct) auto

lemma print_path_not_Nil: "clean_stack r (rev es) \<Longrightarrow> print_path r es \<noteq> []"
  using clean_stack_no_slash [of r "rev es"]
  by (cases es rule: rev_cases) (auto simp: print_path_def join_with_snoc_not_Nil)

lemma path_join_not_Nil: "d \<noteq> [] \<Longrightarrow> entry_name e \<Longrightarrow> path_join d e \<noteq> []"
  by (simp add: path_join_entry print_path_def join_with_snoc_not_Nil)

lemma path_join_inject:
  assumes "d \<noteq> []" and "d' \<noteq> []" and "entry_name e" and "entry_name e'"
  shows "path_join d e = path_join d' e' \<longleftrightarrow> path_clean d = path_clean d' \<and> e = e'"
  using assms
  by (simp add: path_join_entry path_clean_def print_path_inject)

lemma parent_path_join:
  assumes "d \<noteq> []" and "entry_name e"
  shows "parent_dir (path_join d e) = path_clean d"
proof -
  have "is_rooted (path_join d e) = is_rooted d" "elements (path_join d e) = elements d @ [e]"
    using assms by (simp_all add: path_join_entry is_rooted_print elements_print)
  then have "parent_dir (path_join d e)
      = print_path (is_rooted d) (clean_elements (is_rooted d) (e # rev (elements d)) [''..''])"
    by (simp add: parent_dir_def path_join_elements [OF path_join_not_Nil [OF assms]] split_at_single
        del: clean_elements.simps)
  also have "\<dots> = path_clean d"
    using assms by (simp add: path_clean_def)
  finally show ?thesis .
qed

lemma path_join_clean [simp]: "path_clean (path_join d e) = path_join d e" if "d \<noteq> []"
  using that by (simp add: path_join_def)

lemma path_join_empty: "d \<noteq> [] \<Longrightarrow> path_join d [] = path_clean d"
  by (simp add: path_join_elements path_clean_def)

lemma path_join_dot: "d \<noteq> [] \<Longrightarrow> path_join d ''.'' = path_clean d"
  by (simp add: path_join_elements path_clean_def split_at_single)

lemma parent_dir_not_Nil: "d \<noteq> [] \<Longrightarrow> parent_dir d \<noteq> []"
  unfolding parent_dir_def
  by (subst path_join_elements) (auto intro!: print_path_not_Nil clean_elements_stack simp: split_at_single
      simp del: clean_elements.simps)

text \<open>A name that begins with \<open>../\<close> is an entry of the parent.\<close>

lemma path_join_escape:
  assumes "d \<noteq> []"
  shows "path_join d (''../'' @ e) = path_join (parent_dir d) e"
proof -
  let ?r = "is_rooted d" and ?up = "clean_elements (is_rooted d) (rev (elements d)) [''..'']"
  have up: "clean_stack ?r (rev ?up)"
    by (rule clean_elements_stack) (simp_all add: elements_stack)
  have parent: "parent_dir d = print_path ?r ?up"
    using assms by (simp add: parent_dir_def path_join_elements split_at_single)
  have "print_path ?r ?up \<noteq> []"
    by (rule print_path_not_Nil [OF up])
  have "split_at (CHR ''/'') (''../'' @ e) = [''..''] @ split_at (CHR ''/'') e"
    using split_at_append [of "CHR ''/''" "''..''" e] by (simp add: split_at_single)
  then have "path_join d (''../'' @ e)
      = print_path ?r (clean_elements ?r (rev (elements d)) ([''..''] @ split_at (CHR ''/'') e))"
    using path_join_elements [OF assms] by simp
  also have "\<dots> = print_path ?r (clean_elements ?r (rev ?up) (split_at (CHR ''/'') e))"
    by (simp only: clean_elements_append)
  also have "\<dots> = path_join (print_path ?r ?up) e"
    using path_join_elements [OF \<open>print_path ?r ?up \<noteq> []\<close>, of e]
    by (simp only: is_rooted_print [OF up] elements_print [OF up])
  finally show ?thesis by (simp only: parent)
qed

end
