(* ===== verification/Stamp.thy ===== *)
theory Stamp
  imports Cli_Spec Go_Path
begin

text \<open>
  How a program gets its signature: the assembler sources of the stamps (client/src/stamp.s,
  stamp_hello.s and stamp_helloshared.s) and the wrapper of the linker (client/wrappers/ld), which
  generates an object file with a fresh stamp and links it in.
\<close>

section \<open>Assembler sources\<close>

text \<open>
  The directives that the sources use, inside one section of data. A numeric label can be
  defined several times; \<open>1f\<close> is its next definition. \<open>Long_diff a b\<close> is \<open>.long af - bf\<close>.
\<close>

datatype directive =
    P2align nat
  | Long "32 word"
  | Long_diff nat nat
  | Byte byte
  | Asciz string
  | Label nat

definition pad_to :: "nat \<Rightarrow> nat \<Rightarrow> nat" where
  "pad_to n off = (2 ^ n - off mod 2 ^ n) mod 2 ^ n"

definition size_at :: "nat \<Rightarrow> directive \<Rightarrow> nat" where
  "size_at off d =
     (case d of P2align n \<Rightarrow> pad_to n off | Long w \<Rightarrow> 4 | Long_diff a b \<Rightarrow> 4 | Byte b \<Rightarrow> 1
      | Asciz s \<Rightarrow> length s + 1 | Label l \<Rightarrow> 0)"

fun forward :: "nat \<Rightarrow> nat \<Rightarrow> directive list \<Rightarrow> nat option" where
  "forward l off [] = None"
| "forward l off (d # ds) = (if d = Label l then Some off else forward l (off + size_at off d) ds)"

text \<open>The bytes of a section, from an offset on; \<open>None\<close> is a label that is not defined.\<close>

fun assemble :: "nat \<Rightarrow> directive list \<Rightarrow> byte list option" where
  "assemble off [] = Some []"
| "assemble off (d # ds) =
     (let off' = off + size_at off d in
      case (case d of
              P2align n \<Rightarrow> Some (replicate (pad_to n off) 0)
            | Long w \<Rightarrow> Some (le32_bytes w)
            | Long_diff a b \<Rightarrow>
                (case (forward a off' ds, forward b off' ds) of
                   (Some x, Some y) \<Rightarrow> Some (le32_bytes (of_nat x - of_nat y))
                 | _ \<Rightarrow> None)
            | Byte b \<Rightarrow> Some [b]
            | Asciz s \<Rightarrow> Some (map byte_of_char s @ [0])
            | Label l \<Rightarrow> Some []) of
        None \<Rightarrow> None
      | Some bs \<Rightarrow> map_option ((@) bs) (assemble off' ds))"

definition stamp_s :: "directive list" where
  "stamp_s = [P2align 2, Long_diff 1 0, Long_diff 3 2, Long 0x4F475254,
     Label 0, Asciz ''OGRT'',
     Label 1, P2align 2,
     Label 2, Byte 0x01, Asciz ''AAAAAAAA-AAAA-AAAA-AAAA-AAAAAAAAAAAA'',
     Label 3, P2align 2]"

definition stamp_hello_s :: "directive list" where
  "stamp_hello_s = [P2align 2, Long_diff 1 0, Long_diff 3 2, Long 0x4F475254,
     Label 0, Asciz ''OG'',
     Label 1, P2align 2,
     Label 2, Asciz ''hello from the stamp'',
     Label 3, P2align 2]"

definition stamp_helloshared_s :: "directive list" where
  "stamp_helloshared_s = [P2align 2, Long_diff 1 0, Long_diff 3 2, Long 0x4F475254,
     Label 0, Asciz ''OG'',
     Label 1, P2align 2,
     Label 2, Asciz ''hello from the shared stamp'',
     Label 3, P2align 2]"

lemma short_replicates: "replicate 2 x = [x, x]" "replicate 3 x = [x, x, x]" "replicate 4 x = [x, x, x, x]"
  by (simp_all add: numeral_eq_Suc)

lemmas assemble_defs = short_replicates size_at_def pad_to_def Let_def le32_bytes_def byte_of_char_def

text \<open>
  stamp.s is the source of the note in the template of ogrt-signature.c, and of the stamp that
  the walk over the notes is made for.
\<close>

theorem stamp_source_assembled:
  "assemble 0 stamp_s = Some template_note
   \<and> template_note = stamp_bytes (map byte_of_char ''AAAAAAAA-AAAA-AAAA-AAAA-AAAAAAAAAAAA'')"
proof
  show "assemble 0 stamp_s = Some template_note"
    by (simp add: stamp_s_def assemble_defs template_note_def)
  show "template_note = stamp_bytes (map byte_of_char ''AAAAAAAA-AAAA-AAAA-AAAA-AAAAAAAAAAAA'')"
    by (simp add: stamp_bytes_def assemble_defs template_note_def OGRT_ELF_NOTE_TYPE_def)
qed

text \<open>The notes of the other two have no version byte: the library does not take them for signatures.\<close>

lemma hello_stamps:
  "assemble 0 stamp_hello_s = Some (le32_bytes 3 @ le32_bytes 21 @ le32_bytes OGRT_ELF_NOTE_TYPE
     @ map byte_of_char (''OG'' @ [NUL, NUL] @ ''hello from the stamp'' @ replicate 4 NUL))"
  "assemble 0 stamp_helloshared_s = Some (le32_bytes 3 @ le32_bytes 28 @ le32_bytes OGRT_ELF_NOTE_TYPE
     @ map byte_of_char (''OG'' @ [NUL, NUL] @ ''hello from the shared stamp'' @ [NUL]))"
  by (simp_all add: stamp_hello_s_def stamp_helloshared_s_def assemble_defs OGRT_ELF_NOTE_TYPE_def)

lemma unversioned_note:
  assumes "loaded mem a (le32_bytes m @ le32_bytes n @ le32_bytes OGRT_ELF_NOTE_TYPE @ bs)"
    and "8 < length bs" and "bs ! 8 \<noteq> OGRT_STAMP_SUPPORTED_VERSION" and "add_int32 n m = Some k" "add_int32 k 12 = Some l"
  shows "read_signature mem a v sig = Some (l, v, sig)"
proof -
  have parts: "loaded mem a (le32_bytes m)" "loaded mem (a + 4) (le32_bytes n)"
    "loaded mem (a + 8) (le32_bytes OGRT_ELF_NOTE_TYPE)" "loaded mem (a + 12) bs"
    using assms(1) by (simp_all add: loaded_append algebra_simps)
  have "mem (a + 12 + 8) = Some (bs ! 8)"
    using parts(4) assms(2) unfolding loaded_def by (metis of_nat_numeral)
  then show ?thesis
    using assms(3-5)
    by (simp add: read_signature_def load32_loaded [OF parts(1)] load32_loaded [OF parts(2)]
        load32_loaded [OF parts(3)])
qed

theorem hello_stamps_ignored:
  assumes "assemble 0 stamp_hello_s = Some bs \<or> assemble 0 stamp_helloshared_s = Some bs" and "loaded mem a bs"
  shows "\<exists>n. read_signature mem a v sig = Some (n, v, sig)"
proof -
  have "add_int32 21 3 = Some 24" "add_int32 24 12 = Some 36" "add_int32 28 3 = Some 31" "add_int32 31 12 = Some 43"
    by (simp_all add: add_int32_def Let_def)
  then show ?thesis
    using assms unversioned_note [of mem a 3 21 _ 24 36 v sig] unversioned_note [of mem a 3 28 _ 31 43 v sig]
    by (auto simp: hello_stamps OGRT_STAMP_SUPPORTED_VERSION_def byte_of_char_def)
qed

section \<open>The wrapper of the linker\<close>

text \<open>
  What the script finds: the variable \<open>PATH\<close>, its own name, the tests \<open>-x\<close> and \<open>-ef\<close>, whether
  there is a command \<open>ogrt\<close>, the file that \<open>mktemp\<close> makes, and the status and output of
  \<open>ogrt --generate-signature\<close>. The script does not quote the file's name: it is taken to be one
  word for the shell, without blanks or wildcards (which \<open>mktemp\<close> gives unless they are in
  \<open>TMPDIR\<close>).
\<close>

record script =
  PATH :: string
  own_name :: string
  executable :: "string \<Rightarrow> bool"
  same_file :: "string \<Rightarrow> string \<Rightarrow> bool"
  has_ogrt :: bool
  mktemp :: "string option"
  generated :: "int \<times> byte list"

text \<open>\<open>IFS=: read -ra\<close> reads one line; a colon at its end does not begin another element.\<close>

definition path_elements :: "string \<Rightarrow> string list" where
  "path_elements p =
     (let es = split_at (CHR '':'') (takeWhile (\<lambda>c. [c] \<noteq> newline) p) in
      if last es = [] then butlast es else es)"

text \<open>\<open>${0##*/}\<close>\<close>

definition base_name :: "string \<Rightarrow> string" where
  "base_name p = last (split_at (CHR ''/'') p)"

text \<open>The loop of lines 18 to 26, with the variable \<open>self\<close>.\<close>

fun unwrapped :: "script \<Rightarrow> bool \<Rightarrow> string list \<Rightarrow> string" where
  "unwrapped sh self [] = ''false''"
| "unwrapped sh self (p # ps) =
     (let binary = p @ ''/'' @ base_name (own_name sh) in
      if self \<and> executable sh binary then binary
      else if same_file sh binary (own_name sh) then unwrapped sh True ps
      else unwrapped sh self ps)"

text \<open>
  The program that replaces the script, with its arguments, and the temporary files that
  there are then. Nothing behind \<open>exec\<close> is run.
\<close>

definition ld_wrapper :: "script \<Rightarrow> string list \<Rightarrow> string \<times> string list \<times> (string \<times> byte list) list" where
  "ld_wrapper sh args =
     (let ld = unwrapped sh False (path_elements (PATH sh)) in
      if args = [] then (ld, [], [])
      else if has_ogrt sh then
        (case mktemp sh of
           None \<Rightarrow> (ld, args, [])
         | Some sigfile \<Rightarrow>
             (case generated sh of
                (status, out) \<Rightarrow>
                  (ld, (if status = 0 then [sigfile] else []) @ args, [(sigfile, out)])))
      else (ld, args, []))"

text \<open>The linker that is called: the first executable one behind the wrapper itself.\<close>

lemma unwrapped_self:
  "unwrapped sh True ps
    = (case filter (\<lambda>p. executable sh (p @ ''/'' @ base_name (own_name sh))) ps of
         [] \<Rightarrow> ''false''
       | q # qs \<Rightarrow> q @ ''/'' @ base_name (own_name sh))"
  by (induction ps) (simp_all add: Let_def)

lemma unwrapped_search:
  "unwrapped sh False ps
    = (case dropWhile (\<lambda>p. \<not> same_file sh (p @ ''/'' @ base_name (own_name sh)) (own_name sh)) ps of
         [] \<Rightarrow> ''false''
       | p # qs \<Rightarrow> unwrapped sh True qs)"
  by (induction ps) (simp_all add: Let_def)

lemma inj_char_of_byte: "inj char_of_byte"
  by (metis byte_of_char_of_byte injI)

text \<open>
  C6: A program that is linked through the wrapper carries a signature that is found again.
  The wrapper calls the first executable linker behind itself in \<open>PATH\<close>, with the arguments it
  was given behind the file that \<open>ogrt --generate-signature\<close> has written; this file is an
  ELF file in which \<open>ogrt --show-signature\<close> finds the uuid; its note, when it is mapped with
  zeros behind it, leads the preloaded library to the uuid; and the file is still there when
  the linker runs, and never removed.
\<close>

theorem wrapper_adds_signature:
  assumes "path_elements (PATH sh) = ps @ w # qs @ l # rs"
    and "list_all (\<lambda>p. \<not> same_file sh (p @ ''/'' @ base_name (own_name sh)) (own_name sh)) ps"
    and "same_file sh (w @ ''/'' @ base_name (own_name sh)) (own_name sh)"
    and "list_all (\<lambda>p. \<not> executable sh (p @ ''/'' @ base_name (own_name sh))) qs"
    and "executable sh (l @ ''/'' @ base_name (own_name sh))"
    and "has_ogrt sh" and "mktemp sh = Some f" and "args \<noteq> []"
    and "length uuid = 36" and "is_c_string uuid" and "gethostname (HOST_NAME_MAX + 1) = Some h"
    and "argv st = [name, ''--generate-signature'']" and "stdout_out st = []"
    and "map_option observe (ogrt_main (\<lambda>_. True) version gethostname uuid lib 2 st)
      = Some (fst (generated sh), map char_of_byte (snd (generated sh)))"
    and "argv st' = [name', ''--show-signature'', f]" and "length uuid' = 36"
  shows "\<exists>bytes. ld_wrapper sh args = (l @ ''/'' @ base_name (own_name sh), f # args, [(f, bytes)])
    \<and> map_option observe (ogrt_main (\<lambda>_. True) version gethostname uuid' (library_with f bytes) 3 st')
      = Some (1, stdout_out st' @ shown_text ''.note.ogrt.info'' True uuid)
    \<and> (\<forall>mem a field. loaded mem a (take 60 (drop 64 bytes) @ replicate 7 0) \<longrightarrow>
        note_loop mem a 60 0 0 None field = Some (Done (Some (a + 21)))
        \<and> loaded mem (a + 21) (map byte_of_char uuid @ [0]))"
proof (intro exI conjI allI impI)
  let ?ld = "l @ ''/'' @ base_name (own_name sh)" and ?bytes = "stamped uuid"
  have "map_option observe (ogrt_main (\<lambda>_. True) version gethostname uuid lib 2 st)
      = Some (0, map char_of_byte ?bytes)"
    using generate_run [of st name uuid gethostname h version lib] assms(9,11-13) by simp
  then have "fst (generated sh) = 0" and "snd (generated sh) = ?bytes"
    using assms(14) by (simp_all add: inj_map_eq_map [OF inj_char_of_byte])
  then have out: "generated sh = (0, ?bytes)" by (simp add: prod_eq_iff)
  have "filter (\<lambda>p. executable sh (p @ ''/'' @ base_name (own_name sh))) qs = []"
    using assms(4) by (simp add: filter_empty_conv list_all_iff)
  then have "unwrapped sh True (qs @ l # rs) = ?ld"
    using assms(5) by (simp add: unwrapped_self)
  moreover have "dropWhile (\<lambda>p. \<not> same_file sh (p @ ''/'' @ base_name (own_name sh)) (own_name sh))
      (ps @ w # qs @ l # rs) = w # qs @ l # rs"
    using assms(2,3) by (subst dropWhile_append2) (simp_all add: list_all_iff)
  ultimately have "unwrapped sh False (path_elements (PATH sh)) = ?ld"
    by (simp add: unwrapped_search assms(1))
  then show "ld_wrapper sh args = (?ld, f # args, [(f, ?bytes)])"
    using assms(6-8) by (simp add: ld_wrapper_def Let_def out)
  show "map_option observe (ogrt_main (\<lambda>_. True) version gethostname uuid' (library_with f ?bytes) 3 st')
      = Some (1, stdout_out st' @ shown_text ''.note.ogrt.info'' True uuid)"
    using show_stamped_run [of st' name' f uuid' uuid version gethostname] assms(9,10,15,16) by simp
  fix mem a field
  assume "loaded mem a (take 60 (drop 64 ?bytes) @ replicate 7 0)"
  then have l: "loaded mem a (stamp_bytes (map byte_of_char uuid) @ replicate 7 0)"
    by (simp add: stamped_note_data [OF assms(9)])
  show "note_loop mem a 60 0 0 None field = Some (Done (Some (a + 21)))"
    by (rule stamp_found [OF l]) (simp add: assms(9))
  show "loaded mem (a + 21) (map byte_of_char uuid @ [0])"
    using l assms(9) by (simp add: stamp_bytes_def loaded_append loaded_Cons algebra_simps)
qed

definition sample_script :: script where
  "sample_script = \<lparr>PATH = ''/opt/ogrt:/empty:/usr/bin'', own_name = ''/opt/ogrt/ld'',
     executable = (\<lambda>p. p \<in> {''/opt/ogrt/ld'', ''/usr/bin/ld''}), same_file = (\<lambda>p q. p = q),
     has_ogrt = True, mktemp = Some ''/tmp/sig'', generated = (0, stamped sample_uuid)\<rparr>"

theorem wrapper_adds_signature_witness:
  "\<exists>bytes. ld_wrapper sample_script [''-o'', ''a.out'', ''main.o'']
      = (''/usr/bin/ld'', [''/tmp/sig'', ''-o'', ''a.out'', ''main.o''], [(''/tmp/sig'', bytes)])
    \<and> map_option observe (ogrt_main (\<lambda>_. True) ''0.5'' (\<lambda>_. Some ''host'') sample_uuid (library_with ''/tmp/sig'' bytes) 3
        (fresh_parser [''ogrt'', ''--show-signature'', ''/tmp/sig'']))
      = Some (1, shown_text ''.note.ogrt.info'' True sample_uuid)"
proof -
  have st: "argv (fresh_parser as) = as" "stdout_out (fresh_parser as) = []" for as
    by (simp_all add: fresh_parser_def)
  have base: "base_name (own_name sample_script) = ''ld''"
    by (simp add: sample_script_def base_name_def)
  have path: "path_elements (PATH sample_script) = [] @ ''/opt/ogrt'' # [''/empty''] @ ''/usr/bin'' # []"
    by (simp add: sample_script_def path_elements_def)
  have gen: "map_option observe (ogrt_main (\<lambda>_. True) ''0.5'' (\<lambda>_. Some ''host'') sample_uuid (library_with ''g'' []) 2
      (fresh_parser [''ogrt'', ''--generate-signature'']))
    = Some (fst (generated sample_script), map char_of_byte (snd (generated sample_script)))"
    using generate_run [OF st(1) sample_uuid_ok(1), of "\<lambda>_. Some ''host''" "''host''" "''0.5''" "library_with ''g'' []"]
    by (simp add: st sample_script_def)
  let ?ld = "\<lambda>p. p @ ''/'' @ base_name (own_name sample_script)"
  have env: "list_all (\<lambda>p. \<not> same_file sample_script (?ld p) (own_name sample_script)) []"
    "same_file sample_script (?ld ''/opt/ogrt'') (own_name sample_script)"
    "list_all (\<lambda>p. \<not> executable sample_script (?ld p)) [''/empty'']"
    "executable sample_script (?ld ''/usr/bin'')"
    "has_ogrt sample_script" "mktemp sample_script = Some ''/tmp/sig''" "[''-o'', ''a.out'', ''main.o''] \<noteq> []"
    unfolding base by (simp_all add: sample_script_def)
  have "\<exists>bytes. ld_wrapper sample_script [''-o'', ''a.out'', ''main.o'']
        = (?ld ''/usr/bin'', ''/tmp/sig'' # [''-o'', ''a.out'', ''main.o''], [(''/tmp/sig'', bytes)])
    \<and> map_option observe (ogrt_main (\<lambda>_. True) ''0.5'' (\<lambda>_. Some ''host'') sample_uuid (library_with ''/tmp/sig'' bytes) 3
        (fresh_parser [''ogrt'', ''--show-signature'', ''/tmp/sig'']))
      = Some (1, stdout_out (fresh_parser [''ogrt'', ''--show-signature'', ''/tmp/sig''])
          @ shown_text ''.note.ogrt.info'' True sample_uuid)"
    using wrapper_adds_signature [OF path env sample_uuid_ok(1,2) refl st(1) st(2) gen st(1) sample_uuid_ok(1)]
    by blast
  then show ?thesis by (simp add: base st)
qed

end
