(* ===== verification/Go_Messages.thy ===== *)
theory Go_Messages
  imports Proto
begin

text \<open>
  The messages of the server, server/src/protocol/ogrt.pb.go, as far as the server uses
  them: structs whose pointers are options, the numbers of the message types and the getters
  that read a nil pointer as a default; and the message that a client's message becomes.
\<close>

record go_shared_object =
  go_Path :: "string option"
  go_Signature :: "string option"

record go_module =
  go_Name :: "string option"

record go_process_info =
  Binpath :: "string option"
  Pid :: "32 word option"
  ParentPid :: "32 word option"
  Time :: "64 word option"
  Signature :: "string option"
  JobId :: "string option"
  Username :: "string option"
  Hostname :: "string option"
  Cmdline :: "string option"
  EnvironmentVariables :: "string list"
  Arguments :: "string list"
  SharedObjects :: "go_shared_object list"
  LoadedModules :: "go_module list"

record go_job_info =
  job_JobId :: "string option"
  Processes :: "go_process_info list"

definition empty_process_info :: go_process_info where
  "empty_process_info = \<lparr>Binpath = None, Pid = None, ParentPid = None, Time = None,
     Signature = None, JobId = None, Username = None, Hostname = None, Cmdline = None,
     EnvironmentVariables = [], Arguments = [], SharedObjects = [], LoadedModules = []\<rparr>"

definition MessageType_value :: "string \<Rightarrow> 32 word option" where
  "MessageType_value = map_of [(''JobStartMsg'', 10), (''JobEndMsg'', 11), (''ProcessInfoMsg'', 12),
     (''SharedObjectMsg'', 13), (''ForkMsg'', 14), (''ExecveMsg'', 15)]"

definition GetBinpath :: "go_process_info \<Rightarrow> string" where
  "GetBinpath m = (case Binpath m of Some p \<Rightarrow> p | None \<Rightarrow> [])"

definition GetPid :: "go_process_info \<Rightarrow> 32 word" where
  "GetPid m = (case Pid m of Some p \<Rightarrow> p | None \<Rightarrow> 0)"

definition GetJobId :: "go_process_info \<Rightarrow> string" where
  "GetJobId m = (case JobId m of Some j \<Rightarrow> j | None \<Rightarrow> [])"

text \<open>
  What \<open>proto.Unmarshal\<close> makes of the message that a client has packed: a null pointer is
  an absent field, the other fields are present.
\<close>

definition go_shared_object_of :: "pb_shared_object \<Rightarrow> go_shared_object" where
  "go_shared_object_of so = \<lparr>go_Path = pso_path so, go_Signature = pso_signature so\<rparr>"

definition go_module_of :: "pb_module \<Rightarrow> go_module" where
  "go_module_of m = \<lparr>go_Name = pm_name m\<rparr>"

definition go_process_info_of :: "pb_process_info \<Rightarrow> go_process_info" where
  "go_process_info_of m = \<lparr>Binpath = pi_binpath m, Pid = Some (pi_pid m),
     ParentPid = Some (pi_parent_pid m), Time = Some (pi_time m), Signature = pi_signature m,
     JobId = pi_job_id m, Username = pi_username m, Hostname = pi_hostname m,
     Cmdline = pi_cmdline m, EnvironmentVariables = pi_environment_variables m,
     Arguments = pi_arguments m, SharedObjects = map go_shared_object_of (pi_shared_objects m),
     LoadedModules = map go_module_of (pi_loaded_modules m)\<rparr>"

lemma GetJobId_simps [simp]:
  "JobId m = Some j \<Longrightarrow> GetJobId m = j"
  "JobId m = None \<Longrightarrow> GetJobId m = []"
  by (simp_all add: GetJobId_def)

lemma GetJobId_Time [simp]: "GetJobId (m\<lparr>Time := t\<rparr>) = GetJobId m"
  by (simp add: GetJobId_def)

text \<open>The numbers of the message types are those of the client's enumeration.\<close>

lemma message_type_values:
  "MessageType_value ''ProcessInfoMsg'' = Some OGRT__MESSAGE_TYPE__ProcessInfoMsg"
  by (simp add: MessageType_value_def OGRT__MESSAGE_TYPE__ProcessInfoMsg_def)

end
