(* ===== verification/Proto_Spec.thy ===== *)
theory Proto_Spec
  imports Proto
begin

text \<open>
  What the generated tables promise protobuf-c: they agree with the structs they describe
  and with the schema; and what the functions of a message promise their caller.
\<close>

section \<open>Well-formed tables\<close>

text \<open>\<open>strcmp\<close> order, in which protobuf-c searches a table by name.\<close>

fun str_less :: "string \<Rightarrow> string \<Rightarrow> bool" where
  "str_less s [] = False"
| "str_less [] (d # t) = True"
| "str_less (c # s) (d # t) =
     ((of_char c :: nat) < of_char d \<or> c = d \<and> str_less s t)"

fun ascending :: "string list \<Rightarrow> bool" where
  "ascending (s # t # ss) = (str_less s t \<and> ascending (t # ss))"
| "ascending ss = True"

definition indices_by_name :: "nat list \<Rightarrow> string list \<Rightarrow> bool" where
  "indices_by_name by_name names \<longleftrightarrow>
     length by_name = length names \<and> distinct by_name \<and>
     list_all (\<lambda>i. i < length names) by_name \<and> ascending (map ((!) names) by_name)"

text \<open>The C type of a member that holds one value of the field, or all of a repeated one.\<close>

definition member_type :: "field_descriptor \<Rightarrow> ctype" where
  "member_type f =
     (if fd_label f = REPEATED then CPtr
      else case fd_type f of TYPE_INT32 \<Rightarrow> CInt32 | TYPE_INT64 \<Rightarrow> CInt64 | _ \<Rightarrow> CPtr)"

definition well_formed_field :: "(string \<times> ctype) list \<Rightarrow> string list \<Rightarrow> field_descriptor \<Rightarrow> bool" where
  "well_formed_field layout messages f \<longleftrightarrow>
     map_of layout (fd_offset f) = Some (member_type f) \<and>
     (case fd_quantifier f of
        None \<Rightarrow> fd_label f \<noteq> REPEATED
      | Some q \<Rightarrow> fd_label f = REPEATED \<and> map_of layout q = Some CSize) \<and>
     (case fd_descriptor f of
        None \<Rightarrow> fd_type f \<noteq> TYPE_MESSAGE
      | Some m \<Rightarrow> fd_type f = TYPE_MESSAGE \<and> m \<in> set messages)"

text \<open>
  Every member belongs to exactly one field, as its value or its quantifier, so that no
  two fields share memory.
\<close>

definition members_of :: "field_descriptor \<Rightarrow> string list" where
  "members_of f = (case fd_quantifier f of None \<Rightarrow> [] | Some q \<Rightarrow> [q]) @ [fd_offset f]"

definition well_formed_descriptor :: "string list \<Rightarrow> message_descriptor \<Rightarrow> bool" where
  "well_formed_descriptor messages d \<longleftrightarrow>
     md_n_fields d = length (md_fields d) \<and>
     list_all (well_formed_field (md_layout d) messages) (md_fields d) \<and>
     distinct (map fst (md_layout d)) \<and>
     concat (map members_of (md_fields d)) = map fst (md_layout d) \<and>
     indices_by_name (md_by_name d) (map fd_name (md_fields d)) \<and>
     md_n_ranges d = 1 \<and>
     (case md_ranges d of
        [(first, 0), (0, n)] \<Rightarrow>
          n = md_n_fields d \<and> map fd_id (md_fields d) = [first..<first + n]
      | _ \<Rightarrow> False) \<and>
     md_name d = md_package d @ ''.'' @ md_short_name d \<and>
     md_c_name d = md_package d @ ''__'' @ md_short_name d"

definition well_formed_enum :: "enum_descriptor \<Rightarrow> bool" where
  "well_formed_enum e \<longleftrightarrow>
     ascending (map fst (ed_by_name e)) \<and>
     distinct (map snd (ed_by_name e)) \<and> length (ed_by_name e) = length (ed_by_number e) \<and>
     list_all (\<lambda>(n, i). i < length (ed_by_number e) \<and> fst (ed_by_number e ! i) = n) (ed_by_name e) \<and>
     (case ed_ranges e of
        [(first, 0), (0, n)] \<Rightarrow> map snd (ed_by_number e) = [first..<first + n]
      | _ \<Rightarrow> False)"

section \<open>The schema that a descriptor stands for\<close>

definition short_name_of :: "string \<Rightarrow> string option" where
  "short_name_of n =
     map_option md_short_name (find (\<lambda>d. md_name d = n) message_descriptors)"

definition schema_of ::
    "message_descriptor
     \<Rightarrow> string \<times> (string \<times> nat \<times> label \<times> ftype \<times> string option) list" where
  "schema_of d =
     (md_short_name d,
      map (\<lambda>f. (fd_name f, fd_id f, fd_label f, fd_type f,
                Option.bind (fd_descriptor f) short_name_of)) (md_fields d))"

lemmas table_defs =
  job_start_descriptor_def job_end_descriptor_def shared_object_descriptor_def
  module_descriptor_def process_info_descriptor_def job_info_descriptor_def
  fork_descriptor_def execve_descriptor_def
  job_start_fields_def job_end_fields_def shared_object_fields_def module_fields_def
  process_info_fields_def job_info_fields_def fork_fields_def execve_fields_def
  job_start_layout_def job_end_layout_def shared_object_layout_def module_layout_def
  process_info_layout_def job_info_layout_def fork_layout_def execve_layout_def

text \<open>
  C22: The tables of all eight messages are well formed: the number of fields is right, the
  field numbers are the contiguous range the number table states, the table by name is
  every field's index in strictly ascending order of the names, every offset is that of a
  member whose C type fits the field (a \<open>size_t\<close> counter where the field is repeated),
  every member of the struct is used exactly once and in order, and a message field's
  descriptor is one of the eight.
\<close>

theorem descriptors_well_formed:
  "list_all (well_formed_descriptor (map md_name message_descriptors)) message_descriptors"
  by code_simp

text \<open>
  C23: The tables say what protocol/ogrt.proto says: for every message of the schema, in
  its order, there is one descriptor with the same short name and the same fields with
  their numbers, labels and types; and the enumeration table lists the schema's
  message types by number and, ascending, by name.
\<close>

theorem descriptors_match_schema:
  "map schema_of message_descriptors = proto_messages \<and>
   ed_by_number ogrt__message_type__descriptor = proto_message_type \<and>
   well_formed_enum ogrt__message_type__descriptor \<and>
   map_of proto_message_type ''ProcessInfoMsg'' = Some (unat OGRT__MESSAGE_TYPE__ProcessInfoMsg)"
  by code_simp

section \<open>The functions of a message\<close>

text \<open>
  The contract of a message's functions with protobuf-c: on a message that carries its
  own descriptor they are the library's functions, and on any other they end the program.
\<close>

locale typed_message =
  fixes ops :: "'m message_ops"
    and lib :: protobuf_c
    and wrap :: "'m \<Rightarrow> message"
    and base :: "'m \<Rightarrow> string"
    and descriptor :: string
  assumes init_base: "base (m_init ops) = descriptor"
    and get_packed_size:
      "m_get_packed_size ops m = (if base m = descriptor then Some (lib_get_packed_size lib (wrap m)) else None)"
    and pack: "m_pack ops m = (if base m = descriptor then Some (lib_pack lib (wrap m)) else None)"
    and pack_to_buffer:
      "m_pack_to_buffer ops m =
         (if base m = descriptor then Some (lib_pack_to_buffer lib (wrap m)) else None)"
    and unpack_wrapped: "lib_unpack lib descriptor bs = Some (wrap m) \<Longrightarrow> m_unpack ops bs = Some m"
    and unpack_failed: "lib_unpack lib descriptor bs = None \<Longrightarrow> m_unpack ops bs = None"
    and free_unpacked: "m_free_unpacked ops m = (if base m = descriptor then Some () else None)"
begin

lemma wrong_base_refused:
  assumes "base m \<noteq> descriptor"
  shows "m_get_packed_size ops m = None" and "m_pack ops m = None"
    and "m_pack_to_buffer ops m = None" and "m_free_unpacked ops m = None"
  using assms by (simp_all add: get_packed_size pack pack_to_buffer free_unpacked)

lemma init_packs: "m_pack ops (m_init ops) = Some (lib_pack lib (wrap (m_init ops)))"
  by (simp add: pack init_base)

lemma round_trip:
  assumes "base m = descriptor"
    and "lib_get_packed_size lib (wrap m) = length (lib_pack lib (wrap m))"
    and "lib_unpack lib descriptor (lib_pack lib (wrap m)) = Some (wrap m)"
  shows "\<exists>bs. m_pack ops m = Some bs \<and> m_get_packed_size ops m = Some (length bs)
    \<and> m_unpack ops bs = Some m"
  using assms by (simp add: pack get_packed_size unpack_wrapped)

end

interpretation job_start: typed_message
  "job_start_ops lib" lib MJobStart js_base "''OGRT.JobStart''" for lib
  by unfold_locales (simp_all add: job_start_ops_def ogrt__job_start__init_def)

interpretation job_end: typed_message
  "job_end_ops lib" lib MJobEnd je_base "''OGRT.JobEnd''" for lib
  by unfold_locales (simp_all add: job_end_ops_def ogrt__job_end__init_def)

interpretation shared_obj: typed_message
  "shared_object_ops lib" lib MSharedObject pso_base "''OGRT.SharedObject''" for lib
  by unfold_locales (simp_all add: shared_object_ops_def ogrt__shared_object__init_def)

interpretation modul: typed_message
  "module_ops lib" lib MModule pm_base "''OGRT.Module''" for lib
  by unfold_locales (simp_all add: module_ops_def ogrt__module__init_def)

interpretation process_info: typed_message
  "process_info_ops lib" lib MProcessInfo pi_base "''OGRT.ProcessInfo''" for lib
  by unfold_locales (simp_all add: process_info_ops_def ogrt__process_info__init_def)

interpretation job_info: typed_message
  "job_info_ops lib" lib MJobInfo ji_base "''OGRT.JobInfo''" for lib
  by unfold_locales (simp_all add: job_info_ops_def ogrt__job_info__init_def)

interpretation fork: typed_message
  "fork_ops lib" lib MFork fk_base "''OGRT.Fork''" for lib
  by unfold_locales (simp_all add: fork_ops_def ogrt__fork__init_def)

interpretation execve: typed_message
  "execve_ops lib" lib MExecve ex_base "''OGRT.Execve''" for lib
  by unfold_locales (simp_all add: execve_ops_def ogrt__execve__init_def)

end
