(* ===== verification/Go_Generated.thy ===== *)
theory Go_Generated
  imports Go_Path Go_Messages Proto_Spec
begin

text \<open>
  The rest of server/src/protocol/ogrt.pb.go: the messages that the server does not use, the
  getters, which also take a nil receiver, the tables of the message types, and the struct
  tags by which \<open>proto\<close> and \<open>encoding/json\<close> read and write the messages; and that these tags
  are those of the schema, as the client's descriptors are.
\<close>

section \<open>Structs\<close>

record go_job_start =
  start_JobId :: "string option"
  start_StartTime :: "64 word option"

record go_job_end =
  end_JobId :: "string option"
  end_EndTime :: "64 word option"

record go_fork =
  fork_Hostname :: "string option"
  fork_ParentPid :: "32 word option"
  fork_ChildPid :: "32 word option"
  fork_Name :: "string option"

record go_execve =
  execve_Hostname :: "string option"
  execve_Pid :: "32 word option"
  execve_ParentPid :: "32 word option"
  execve_Filename :: "string option"
  execve_Arguments :: "string list"
  execve_EnvironmentVariables :: "string list"
  execve_Uuid :: "string option"

text \<open>\<open>Reset\<close> makes a message what it is without any field.\<close>

definition JobStart_Reset :: "go_job_start \<Rightarrow> go_job_start" where
  "JobStart_Reset m = \<lparr>start_JobId = None, start_StartTime = None\<rparr>"

definition JobEnd_Reset :: "go_job_end \<Rightarrow> go_job_end" where
  "JobEnd_Reset m = \<lparr>end_JobId = None, end_EndTime = None\<rparr>"

definition SharedObject_Reset :: "go_shared_object \<Rightarrow> go_shared_object" where
  "SharedObject_Reset m = \<lparr>go_Path = None, go_Signature = None\<rparr>"

definition Module_Reset :: "go_module \<Rightarrow> go_module" where
  "Module_Reset m = \<lparr>go_Name = None\<rparr>"

definition ProcessInfo_Reset :: "go_process_info \<Rightarrow> go_process_info" where
  "ProcessInfo_Reset m = empty_process_info"

definition JobInfo_Reset :: "go_job_info \<Rightarrow> go_job_info" where
  "JobInfo_Reset m = \<lparr>job_JobId = None, Processes = []\<rparr>"

definition Fork_Reset :: "go_fork \<Rightarrow> go_fork" where
  "Fork_Reset m = \<lparr>fork_Hostname = None, fork_ParentPid = None, fork_ChildPid = None, fork_Name = None\<rparr>"

definition Execve_Reset :: "go_execve \<Rightarrow> go_execve" where
  "Execve_Reset m = \<lparr>execve_Hostname = None, execve_Pid = None, execve_ParentPid = None,
     execve_Filename = None, execve_Arguments = [], execve_EnvironmentVariables = [], execve_Uuid = None\<rparr>"

section \<open>Getters\<close>

text \<open>
  A getter of a pointer field, on a receiver that may be nil. Go's nil slice is the empty list.
\<close>

definition getter :: "('m \<Rightarrow> 'a option) \<Rightarrow> 'a \<Rightarrow> 'm option \<Rightarrow> 'a" where
  "getter field absent m =
     (case m of
        None \<Rightarrow> absent
      | Some m \<Rightarrow> (case field m of None \<Rightarrow> absent | Some x \<Rightarrow> x))"

definition JobStart_GetJobId :: "go_job_start option \<Rightarrow> string" where
  "JobStart_GetJobId m = getter start_JobId [] m"

definition JobStart_GetStartTime :: "go_job_start option \<Rightarrow> 64 word" where
  "JobStart_GetStartTime m = getter start_StartTime 0 m"

definition JobEnd_GetJobId :: "go_job_end option \<Rightarrow> string" where
  "JobEnd_GetJobId m = getter end_JobId [] m"

definition JobEnd_GetEndTime :: "go_job_end option \<Rightarrow> 64 word" where
  "JobEnd_GetEndTime m = getter end_EndTime 0 m"

definition SharedObject_GetPath :: "go_shared_object option \<Rightarrow> string" where
  "SharedObject_GetPath m = getter go_Path [] m"

definition SharedObject_GetSignature :: "go_shared_object option \<Rightarrow> string" where
  "SharedObject_GetSignature m = getter go_Signature [] m"

definition Module_GetName :: "go_module option \<Rightarrow> string" where
  "Module_GetName m = getter go_Name [] m"

definition ProcessInfo_GetParentPid :: "go_process_info option \<Rightarrow> 32 word" where
  "ProcessInfo_GetParentPid m = getter ParentPid 0 m"

definition ProcessInfo_GetTime :: "go_process_info option \<Rightarrow> 64 word" where
  "ProcessInfo_GetTime m = getter Time 0 m"

definition ProcessInfo_GetSignature :: "go_process_info option \<Rightarrow> string" where
  "ProcessInfo_GetSignature m = getter Signature [] m"

definition ProcessInfo_GetUsername :: "go_process_info option \<Rightarrow> string" where
  "ProcessInfo_GetUsername m = getter Username [] m"

definition ProcessInfo_GetHostname :: "go_process_info option \<Rightarrow> string" where
  "ProcessInfo_GetHostname m = getter Hostname [] m"

definition ProcessInfo_GetCmdline :: "go_process_info option \<Rightarrow> string" where
  "ProcessInfo_GetCmdline m = getter Cmdline [] m"

definition ProcessInfo_GetEnvironmentVariables :: "go_process_info option \<Rightarrow> string list" where
  "ProcessInfo_GetEnvironmentVariables m = (case m of None \<Rightarrow> [] | Some m \<Rightarrow> EnvironmentVariables m)"

definition ProcessInfo_GetArguments :: "go_process_info option \<Rightarrow> string list" where
  "ProcessInfo_GetArguments m = (case m of None \<Rightarrow> [] | Some m \<Rightarrow> Arguments m)"

definition ProcessInfo_GetSharedObjects :: "go_process_info option \<Rightarrow> go_shared_object list" where
  "ProcessInfo_GetSharedObjects m = (case m of None \<Rightarrow> [] | Some m \<Rightarrow> SharedObjects m)"

definition ProcessInfo_GetLoadedModules :: "go_process_info option \<Rightarrow> go_module list" where
  "ProcessInfo_GetLoadedModules m = (case m of None \<Rightarrow> [] | Some m \<Rightarrow> LoadedModules m)"

definition JobInfo_GetJobId :: "go_job_info option \<Rightarrow> string" where
  "JobInfo_GetJobId m = getter job_JobId [] m"

definition JobInfo_GetProcesses :: "go_job_info option \<Rightarrow> go_process_info list" where
  "JobInfo_GetProcesses m = (case m of None \<Rightarrow> [] | Some m \<Rightarrow> Processes m)"

definition Fork_GetHostname :: "go_fork option \<Rightarrow> string" where
  "Fork_GetHostname m = getter fork_Hostname [] m"

definition Fork_GetParentPid :: "go_fork option \<Rightarrow> 32 word" where
  "Fork_GetParentPid m = getter fork_ParentPid 0 m"

definition Fork_GetChildPid :: "go_fork option \<Rightarrow> 32 word" where
  "Fork_GetChildPid m = getter fork_ChildPid 0 m"

definition Fork_GetName :: "go_fork option \<Rightarrow> string" where
  "Fork_GetName m = getter fork_Name [] m"

definition Execve_GetHostname :: "go_execve option \<Rightarrow> string" where
  "Execve_GetHostname m = getter execve_Hostname [] m"

definition Execve_GetPid :: "go_execve option \<Rightarrow> 32 word" where
  "Execve_GetPid m = getter execve_Pid 0 m"

definition Execve_GetParentPid :: "go_execve option \<Rightarrow> 32 word" where
  "Execve_GetParentPid m = getter execve_ParentPid 0 m"

definition Execve_GetFilename :: "go_execve option \<Rightarrow> string" where
  "Execve_GetFilename m = getter execve_Filename [] m"

definition Execve_GetArguments :: "go_execve option \<Rightarrow> string list" where
  "Execve_GetArguments m = (case m of None \<Rightarrow> [] | Some m \<Rightarrow> execve_Arguments m)"

definition Execve_GetEnvironmentVariables :: "go_execve option \<Rightarrow> string list" where
  "Execve_GetEnvironmentVariables m = (case m of None \<Rightarrow> [] | Some m \<Rightarrow> execve_EnvironmentVariables m)"

definition Execve_GetUuid :: "go_execve option \<Rightarrow> string" where
  "Execve_GetUuid m = getter execve_Uuid [] m"

section \<open>Message types\<close>

definition MessageType_name :: "32 word \<Rightarrow> string option" where
  "MessageType_name = map_of [(10, ''JobStartMsg''), (11, ''JobEndMsg''), (12, ''ProcessInfoMsg''),
     (13, ''SharedObjectMsg''), (14, ''ForkMsg''), (15, ''ExecveMsg'')]"

text \<open>\<open>enum_name\<close> and \<open>unmarshal_enum\<close> stand for \<open>EnumName\<close> and \<open>UnmarshalJSONEnum\<close> of the package \<open>proto\<close>.\<close>

definition MessageType_String :: "((32 word \<Rightarrow> string option) \<Rightarrow> 32 word \<Rightarrow> string) \<Rightarrow> 32 word \<Rightarrow> string" where
  "MessageType_String enum_name x = enum_name MessageType_name x"

definition MessageType_UnmarshalJSON ::
    "((string \<Rightarrow> 32 word option) \<Rightarrow> byte list \<Rightarrow> string \<Rightarrow> 'err + 32 word)
      \<Rightarrow> byte list \<Rightarrow> 32 word \<Rightarrow> 'err option \<times> 32 word" where
  "MessageType_UnmarshalJSON unmarshal_enum data x =
     (case unmarshal_enum MessageType_value data ''MessageType'' of
        Inl err \<Rightarrow> (Some err, x)
      | Inr v \<Rightarrow> (None, v))"

section \<open>Struct tags\<close>

text \<open>
  A struct with its fields: their names and types in Go, the tag for \<open>proto\<close> and the tag for
  \<open>encoding/json\<close>. The field \<open>XXX_unrecognized\<close>, which every struct has, is left out.
\<close>

type_synonym go_struct = "string \<times> (string \<times> string \<times> string \<times> string) list"

definition go_job_start_tags :: go_struct where
  "go_job_start_tags = (''JobStart'',
    [(''JobId'', ''*string'', ''bytes,100,req,name=job_id'', ''job_id,omitempty''),
     (''StartTime'', ''*int64'', ''varint,101,req,name=start_time'', ''start_time,omitempty'')])"

definition go_job_end_tags :: go_struct where
  "go_job_end_tags = (''JobEnd'',
    [(''JobId'', ''*string'', ''bytes,200,req,name=job_id'', ''job_id,omitempty''),
     (''EndTime'', ''*int64'', ''varint,201,req,name=end_time'', ''end_time,omitempty'')])"

definition go_shared_object_tags :: go_struct where
  "go_shared_object_tags = (''SharedObject'',
    [(''Path'', ''*string'', ''bytes,400,req,name=path'', ''path,omitempty''),
     (''Signature'', ''*string'', ''bytes,401,opt,name=signature'', ''signature,omitempty'')])"

definition go_module_tags :: go_struct where
  "go_module_tags = (''Module'',
    [(''Name'', ''*string'', ''bytes,700,req,name=name'', ''name,omitempty'')])"

definition go_process_info_tags :: go_struct where
  "go_process_info_tags = (''ProcessInfo'',
    [(''Binpath'', ''*string'', ''bytes,300,req,name=binpath'', ''binpath,omitempty''),
     (''Pid'', ''*int32'', ''varint,301,req,name=pid'', ''pid,omitempty''),
     (''ParentPid'', ''*int32'', ''varint,302,req,name=parent_pid'', ''parent_pid,omitempty''),
     (''Time'', ''*int64'', ''varint,303,req,name=time'', ''time,omitempty''),
     (''Signature'', ''*string'', ''bytes,304,opt,name=signature'', ''signature,omitempty''),
     (''JobId'', ''*string'', ''bytes,305,opt,name=job_id'', ''job_id,omitempty''),
     (''Username'', ''*string'', ''bytes,306,opt,name=username'', ''username,omitempty''),
     (''Hostname'', ''*string'', ''bytes,307,opt,name=hostname'', ''hostname,omitempty''),
     (''Cmdline'', ''*string'', ''bytes,308,opt,name=cmdline'', ''cmdline,omitempty''),
     (''EnvironmentVariables'', ''[]string'', ''bytes,309,rep,name=environment_variables'', ''environment_variables,omitempty''),
     (''Arguments'', ''[]string'', ''bytes,310,rep,name=arguments'', ''arguments,omitempty''),
     (''SharedObjects'', ''[]*SharedObject'', ''bytes,311,rep,name=shared_objects'', ''shared_objects,omitempty''),
     (''LoadedModules'', ''[]*Module'', ''bytes,312,rep,name=loaded_modules'', ''loaded_modules,omitempty'')])"

definition go_job_info_tags :: go_struct where
  "go_job_info_tags = (''JobInfo'',
    [(''JobId'', ''*string'', ''bytes,400,req,name=job_id'', ''job_id,omitempty''),
     (''Processes'', ''[]*ProcessInfo'', ''bytes,401,rep,name=processes'', ''processes,omitempty'')])"

definition go_fork_tags :: go_struct where
  "go_fork_tags = (''Fork'',
    [(''Hostname'', ''*string'', ''bytes,500,req,name=hostname'', ''hostname,omitempty''),
     (''ParentPid'', ''*int32'', ''varint,501,req,name=parent_pid'', ''parent_pid,omitempty''),
     (''ChildPid'', ''*int32'', ''varint,502,req,name=child_pid'', ''child_pid,omitempty''),
     (''Name'', ''*string'', ''bytes,503,opt,name=name'', ''name,omitempty'')])"

definition go_execve_tags :: go_struct where
  "go_execve_tags = (''Execve'',
    [(''Hostname'', ''*string'', ''bytes,600,req,name=hostname'', ''hostname,omitempty''),
     (''Pid'', ''*int32'', ''varint,601,req,name=pid'', ''pid,omitempty''),
     (''ParentPid'', ''*int32'', ''varint,602,req,name=parent_pid'', ''parent_pid,omitempty''),
     (''Filename'', ''*string'', ''bytes,603,req,name=filename'', ''filename,omitempty''),
     (''Arguments'', ''[]string'', ''bytes,604,rep,name=arguments'', ''arguments,omitempty''),
     (''EnvironmentVariables'', ''[]string'', ''bytes,605,rep,name=environment_variables'', ''environment_variables,omitempty''),
     (''Uuid'', ''*string'', ''bytes,606,opt,name=uuid'', ''uuid,omitempty'')])"

definition go_structs :: "go_struct list" where
  "go_structs = [go_job_start_tags, go_job_end_tags, go_shared_object_tags, go_module_tags,
     go_process_info_tags, go_job_info_tags, go_fork_tags, go_execve_tags]"

section \<open>The structs that a schema stands for\<close>

text \<open>What the compiler of schemas documents for Go: names in camel case, pointers, and tags.\<close>

definition capital :: "string \<Rightarrow> string" where
  "capital s = (case s of [] \<Rightarrow> [] | c # cs \<Rightarrow> char_of ((of_char c :: nat) - 32) # cs)"

definition camel_case :: "string \<Rightarrow> string" where
  "camel_case s = concat (map capital (split_at (CHR ''_'') s))"

definition go_type_of :: "label \<Rightarrow> ftype \<Rightarrow> string option \<Rightarrow> string" where
  "go_type_of l t m =
     (let base = (case t of TYPE_STRING \<Rightarrow> ''string'' | TYPE_INT32 \<Rightarrow> ''int32'' | TYPE_INT64 \<Rightarrow> ''int64''
        | TYPE_MESSAGE \<Rightarrow> (case m of None \<Rightarrow> [] | Some n \<Rightarrow> CHR ''*'' # n)) in
      if l = REPEATED then ''[]'' @ base else if t = TYPE_MESSAGE then base else CHR ''*'' # base)"

definition proto_tag_of :: "string \<Rightarrow> nat \<Rightarrow> label \<Rightarrow> ftype \<Rightarrow> string" where
  "proto_tag_of name number l t =
     (case t of TYPE_INT32 \<Rightarrow> ''varint'' | TYPE_INT64 \<Rightarrow> ''varint'' | _ \<Rightarrow> ''bytes'') @ '','' @ decimal number
     @ (case l of REQUIRED \<Rightarrow> '',req'' | OPTIONAL \<Rightarrow> '',opt'' | REPEATED \<Rightarrow> '',rep'') @ '',name='' @ name"

definition go_struct_of :: "string \<times> (string \<times> nat \<times> label \<times> ftype \<times> string option) list \<Rightarrow> go_struct" where
  "go_struct_of msg =
     (fst msg, map (\<lambda>(name, number, l, t, m).
        (camel_case name, go_type_of l t m, proto_tag_of name number l t, name @ '',omitempty'')) (snd msg))"

text \<open>
  C24: The server reads what the client writes: the tags of every Go struct are those of the
  message in protocol/ogrt.proto that the client's descriptor of the same name describes,
  field by field in number, wire type, label and name; no two fields of a struct share a name,
  a tag or a JSON key; and the two tables of the message types are inverse to each other and
  list the numbers of the client's enumeration.
\<close>

theorem go_structs_match_descriptors:
  "go_structs = map go_struct_of proto_messages
   \<and> go_structs = map (\<lambda>d. go_struct_of (schema_of d)) message_descriptors
   \<and> list_all (\<lambda>(name, fields). distinct (map fst fields) \<and> distinct (map (\<lambda>(f, t, tag, json). tag) fields)
       \<and> distinct (map (\<lambda>(f, t, tag, json). json) fields)) go_structs
   \<and> (\<forall>n v. MessageType_name v = Some n \<longleftrightarrow> MessageType_value n = Some v)
   \<and> (\<forall>n. MessageType_value n = map_option word_of_nat (map_of (ed_by_number ogrt__message_type__descriptor) n))"
proof (intro conjI allI)
  show "go_structs = map go_struct_of proto_messages" by code_simp
  show "go_structs = map (\<lambda>d. go_struct_of (schema_of d)) message_descriptors" by code_simp
  show "list_all (\<lambda>(name, fields). distinct (map fst fields) \<and> distinct (map (\<lambda>(f, t, tag, json). tag) fields)
      \<and> distinct (map (\<lambda>(f, t, tag, json). json) fields)) go_structs"
    by code_simp
  show "MessageType_name v = Some n \<longleftrightarrow> MessageType_value n = Some v" for n v
    by (auto simp: MessageType_name_def MessageType_value_def split: if_splits)
  show "MessageType_value n = map_option word_of_nat (map_of (ed_by_number ogrt__message_type__descriptor) n)" for n
    by (simp add: MessageType_value_def ogrt__message_type__descriptor_def)
qed

text \<open>What a client has put into a message, the getters read on the server.\<close>

lemma getters_read_report:
  fixes m :: pb_process_info
  defines "g \<equiv> Some (go_process_info_of m)"
  shows "ProcessInfo_GetParentPid g = pi_parent_pid m" and "ProcessInfo_GetTime g = pi_time m"
    and "ProcessInfo_GetArguments g = pi_arguments m"
    and "ProcessInfo_GetEnvironmentVariables g = pi_environment_variables m"
    and "map (\<lambda>so. SharedObject_GetPath (Some so)) (ProcessInfo_GetSharedObjects g)
      = map (\<lambda>so. case pso_path so of None \<Rightarrow> [] | Some p \<Rightarrow> p) (pi_shared_objects m)"
    and "map (\<lambda>l. Module_GetName (Some l)) (ProcessInfo_GetLoadedModules g)
      = map (\<lambda>l. case pm_name l of None \<Rightarrow> [] | Some n \<Rightarrow> n) (pi_loaded_modules m)"
  unfolding g_def
  by (simp_all add: go_process_info_of_def ProcessInfo_GetParentPid_def ProcessInfo_GetTime_def
      ProcessInfo_GetArguments_def ProcessInfo_GetEnvironmentVariables_def ProcessInfo_GetSharedObjects_def
      ProcessInfo_GetLoadedModules_def SharedObject_GetPath_def Module_GetName_def getter_def
      go_shared_object_of_def go_module_of_def comp_def)

end
