(* ===== verification/Preload.thy ===== *)
theory Preload
  imports Cmdline Frame Readso Util Proto
begin

text \<open>
  client/src/ogrt-main.c: the constructor of the preloaded library,
  \<open>ogrt_preload_init_hook\<close>, and \<open>ogrt_send_processinfo\<close>, which collects what is known
  about the process and sends it to the server.

  The macros of the generated config.h are the record \<open>config\<close>. What the operating system
  and the C library answer is the record \<open>system\<close>. The globals of the file, the output,
  the heap and the network actions are the state \<open>client\<close>, which every function takes and
  returns. The result is \<open>None\<close> where the C code has undefined behaviour or does not return.

  \<open>Log\<close> at level \<open>OGRT_LOG_DBG\<close> is left out: its arguments are not evaluated when the
  level is above \<open>ogrt_log_level\<close>, and \<open>ogrt_log_level\<close> is at most \<open>OGRT_LOG_INFO\<close>
  (\<open>hook_net\<close> in Preload_Spec). The messages of \<open>perror\<close> in ogrt-util.c are left out.
\<close>

section \<open>Configuration and system\<close>

record config =
  net_host :: string
  net_port :: string
  env_jobid :: string
  parser_version :: string
  msg_send_username :: bool
  msg_send_hostname :: bool
  msg_send_environment :: bool
  msg_send_cmdline :: bool
  msg_send_loadedmodules :: bool
  environment_whitelist :: "string list option"
  filter_regexps :: "string list"

text \<open>
  An entry of the list that \<open>getaddrinfo\<close> returns, with what \<open>socket\<close> answers for it (the
  text of the error or the descriptor) and what \<open>connect\<close> answers (the text of the error).
\<close>

record address =
  socket_result :: "string + cint"
  connect_error :: "string option"

text \<open>
  \<open>malloc_ok n\<close> tells whether the n-th allocation of the process succeeds, \<open>asprintf\<close>
  included. \<open>counted\<close> and \<open>visited\<close> are the objects that the two iterations of
  \<open>dl_iterate_phdr\<close> show.
\<close>

record system =
  getenv :: "string \<Rightarrow> string option"
  environ :: "string list"
  getpid :: cint
  getppid :: cint
  gethostname :: "nat \<Rightarrow> string option"
  gethostname_error :: string
  regcomp_ok :: "string \<Rightarrow> bool"
  regexec_matches :: "string \<Rightarrow> string \<Rightarrow> bool"
  getaddrinfo :: "string + address list"
  last_error :: string
  malloc_ok :: "nat \<Rightarrow> bool"
  exe_link :: "string option"
  cmdline_opened :: bool
  cmdline_contents :: "string option"
  pw_name :: "string option"
  clock_seconds :: "64 word"
  mem :: memory
  realpath :: "string \<Rightarrow> string option"
  counted :: "dl_phdr_info list"
  visited :: "dl_phdr_info list"

section \<open>State\<close>

datatype net_action =
    OpenSocket cint
  | Connect cint
  | CloseFd cint
  | Send cint "byte list"

text \<open>
  \<open>heap\<close> holds the numbers of the allocated blocks and \<open>next_block\<close> the number of the next
  allocation; \<open>unclosed_files\<close> counts the descriptors left open on files.
\<close>

record client =
  ogrt_active :: bool
  daemon_socket :: cint
  pid :: cint
  parent_pid :: cint
  host_name :: string
  ogrt_log_level :: nat
  log_out :: string
  std_out :: string
  net_actions :: "net_action list"
  heap :: "nat multiset"
  next_block :: nat
  unclosed_files :: nat

definition client_start :: client where
  "client_start =
     \<lparr>ogrt_active = False, daemon_socket = -1, pid = 0, parent_pid = 0, host_name = [],
      ogrt_log_level = 0, log_out = [], std_out = [], net_actions = [], heap = {#},
      next_block = 0, unclosed_files = 0\<rparr>"

definition OGRT_LOG_NOTHING :: nat where
  "OGRT_LOG_NOTHING = 0"

definition OGRT_LOG_ERR :: nat where
  "OGRT_LOG_ERR = 2"

definition OGRT_LOG_INFO :: nat where
  "OGRT_LOG_INFO = 4"

definition Log :: "nat \<Rightarrow> string \<Rightarrow> client \<Rightarrow> client" where
  "Log level text s =
     (if level \<le> ogrt_log_level s
      then s\<lparr>log_out := log_out s @ CMDLINE_PARSER_PACKAGE @ '': '' @ text\<rparr> else s)"

definition act :: "net_action \<Rightarrow> client \<Rightarrow> client" where
  "act a s = s\<lparr>net_actions := net_actions s @ [a]\<rparr>"

section \<open>Allocation\<close>

definition malloc :: "system \<Rightarrow> client \<Rightarrow> nat option \<times> client" where
  "malloc sys s =
     (let b = next_block s in
      if malloc_ok sys b then (Some b, s\<lparr>next_block := Suc b, heap := add_mset b (heap s)\<rparr>)
      else (None, s\<lparr>next_block := Suc b\<rparr>))"

text \<open>\<open>free\<close> of a null pointer does nothing; of anything but an allocated block it is undefined.\<close>

definition free_block :: "nat option \<Rightarrow> client \<Rightarrow> client option" where
  "free_block p s =
     (case p of
        None \<Rightarrow> Some s
      | Some b \<Rightarrow> if b \<in># heap s then Some (s\<lparr>heap := heap s - {#b#}\<rparr>) else None)"

fun free_blocks :: "nat option list \<Rightarrow> client \<Rightarrow> client option" where
  "free_blocks [] s = Some s"
| "free_blocks (p # ps) s = do { s \<leftarrow> free_block p s; free_blocks ps s }"

text \<open>A pointer to a string on the heap.\<close>

type_synonym heap_string = "(nat \<times> string) option"

abbreviation block_of :: "heap_string \<Rightarrow> nat option" where
  "block_of p \<equiv> map_option fst p"

abbreviation text_of :: "heap_string \<Rightarrow> string option" where
  "text_of p \<equiv> map_option snd p"

text \<open>The string that a function allocates and returns: the next block, if there is a string.\<close>

definition own :: "string option \<Rightarrow> client \<Rightarrow> heap_string \<times> client" where
  "own r s =
     (let b = next_block s in
      case r of
        None \<Rightarrow> (None, s\<lparr>next_block := Suc b\<rparr>)
      | Some t \<Rightarrow> (Some (b, t), s\<lparr>next_block := Suc b, heap := add_mset b (heap s)\<rparr>))"

definition strdup :: "system \<Rightarrow> string \<Rightarrow> client \<Rightarrow> heap_string \<times> client" where
  "strdup sys t s = own (if malloc_ok sys (next_block s) then Some t else None) s"

definition get_binpath :: "system \<Rightarrow> client \<Rightarrow> (heap_string \<times> client) option" where
  "get_binpath sys s = do {
     r \<leftarrow> ogrt_get_binpath (malloc_ok sys (next_block s)) (exe_link sys);
     Some (own (ret r) s)
   }"

definition get_cmdline :: "system \<Rightarrow> client \<Rightarrow> (heap_string \<times> client) option" where
  "get_cmdline sys s = do {
     r \<leftarrow> ogrt_get_cmdline (malloc_ok sys (next_block s)) (cmdline_opened sys) (cmdline_contents sys);
     Some (own (ret r) (s\<lparr>unclosed_files := unclosed_files s + fds r\<rparr>))
   }"

definition get_username :: "system \<Rightarrow> client \<Rightarrow> heap_string \<times> client" where
  "get_username sys s = own (ogrt_get_username (malloc_ok sys (next_block s)) (pw_name sys)) s"

definition get_hostname :: "system \<Rightarrow> client \<Rightarrow> heap_string \<times> client" where
  "get_hostname sys s = own (ogrt_get_hostname (malloc_ok sys (next_block s)) (gethostname sys)) s"

section \<open>Strings of the process\<close>

text \<open>The C string at an address: undefined when it runs into an address that is not mapped.\<close>

partial_function (option) mem_string :: "memory \<Rightarrow> addr \<Rightarrow> string option" where
  [code]: "mem_string m a = do {
     b \<leftarrow> m a;
     if b = 0 then Some [] else do { t \<leftarrow> mem_string m (a + 1); Some (char_of_byte b # t) }
   }"

text \<open>What successive calls of \<open>strtok\<close> return for one separator.\<close>

lemma dropWhile_token_shorter:
  assumes "dropWhile (\<lambda>x. x = c) s = x # t"
  shows "length (dropWhile (\<lambda>x. x \<noteq> c) (x # t)) < length s"
proof -
  have "x \<noteq> c" using hd_dropWhile [of "\<lambda>x. x = c" s] assms by simp
  moreover have "length (x # t) \<le> length s"
    using length_dropWhile_le [of "\<lambda>x. x = c" s] assms by simp
  ultimately show ?thesis
    using length_dropWhile_le [of "\<lambda>x. x \<noteq> c" t] by simp
qed

function strtok_tokens :: "char \<Rightarrow> string \<Rightarrow> string list" where
  "strtok_tokens c s =
     (case dropWhile (\<lambda>x. x = c) s of
        [] \<Rightarrow> []
      | x # t \<Rightarrow> takeWhile (\<lambda>x. x \<noteq> c) (x # t) # strtok_tokens c (dropWhile (\<lambda>x. x \<noteq> c) (x # t)))"
  by pat_completeness auto
termination
  by (relation "measure (\<lambda>(c, s). length s)") (simp_all add: dropWhile_token_shorter del: dropWhile.simps)

declare strtok_tokens.simps [simp del]

section \<open>Shared objects\<close>

text \<open>
  The array of the loaded objects as blocks: the array itself and the path of each object;
  \<open>None\<close> in the list is an entry that has not been written.
\<close>

fun own_paths :: "shared_object option list \<Rightarrow> client \<Rightarrow> nat option option list \<times> client" where
  "own_paths [] s = ([], s)"
| "own_paths (None # os) s = (let (ps, s) = own_paths os s in (None # ps, s))"
| "own_paths (Some so # os) s =
     (let (p, s) = own (so_path so) s; (ps, s) = own_paths os s in (Some (block_of p) # ps, s))"

definition get_loaded_so ::
    "system \<Rightarrow> client \<Rightarrow> (so_infos \<times> nat option \<times> nat option option list \<times> client) option" where
  "get_loaded_so sys s =
     (case ogrt_get_loaded_so (mem sys) (\<lambda>n. ret (ogrt_normalize_path True (realpath sys) n))
             (malloc_ok sys (next_block s)) (counted sys) (visited sys) of
        Some (Done infos) \<Rightarrow>
          (let (array, s) = malloc sys s;
               (paths, s) = own_paths (shared_objects infos) s
           in Some (infos, array, paths, s))
      | _ \<Rightarrow> None)"

text \<open>A stored object as the message that its pointer stands for when it is packed.\<close>

definition signature_text :: "memory \<Rightarrow> addr option \<Rightarrow> string option option" where
  "signature_text m sig =
     (case sig of None \<Rightarrow> Some None | Some a \<Rightarrow> map_option Some (mem_string m a))"

definition object_message :: "memory \<Rightarrow> shared_object option \<Rightarrow> pb_shared_object option" where
  "object_message m entry = do {
     so \<leftarrow> entry;
     sig \<leftarrow> signature_text m (so_signature so);
     Some (ogrt__shared_object__init\<lparr>pso_path := so_path so, pso_signature := sig\<rparr>)
   }"

text \<open>
  Lines 144 to 156 and 256: pointers to the entries from index 2 on. With a size below 2
  the array of pointers has no defined length or the number of objects wraps.
\<close>

definition shared_object_ptr :: "memory \<Rightarrow> so_infos \<Rightarrow> pb_shared_object list option" where
  "shared_object_ptr m infos =
     (if 2 \<le> sint (so_size infos)
      then those (map (object_message m)
             (take (nat (sint (so_size infos)) - 2) (drop 2 (shared_objects infos))))
      else None)"

section \<open>Loaded modules\<close>

text \<open>One block per module and one for its name; the result of \<open>malloc\<close> is not checked.\<close>

fun new_modules :: "system \<Rightarrow> string list \<Rightarrow> client \<Rightarrow> ((nat \<times> heap_string) list \<times> client) option" where
  "new_modules sys [] s = Some ([], s)"
| "new_modules sys (module_token # tokens) s =
     (case malloc sys s of
        (None, _) \<Rightarrow> None
      | (Some b, s) \<Rightarrow> do {
          let (name, s) = strdup sys module_token s;
          (ms, s) \<leftarrow> new_modules sys tokens s;
          Some ((b, name) # ms, s)
        })"

definition module_message :: "nat \<times> heap_string \<Rightarrow> pb_module" where
  "module_message m = ogrt__module__init\<lparr>pm_name := text_of (snd m)\<rparr>"

text \<open>
  Lines 166 to 204: the block of the array and the modules. \<open>strtok\<close> on a copy that could
  not be made is undefined.
\<close>

definition loaded_modules ::
    "config \<Rightarrow> system \<Rightarrow> client \<Rightarrow> (nat option \<times> (nat \<times> heap_string) list \<times> client) option" where
  "loaded_modules cfg sys s =
     (if \<not> msg_send_loadedmodules cfg then Some (None, [], s)
      else case getenv sys ''LOADEDMODULES'' of
        None \<Rightarrow> Some (None, [], s)
      | Some module_env \<Rightarrow>
          (case strdup sys module_env s of
             (None, _) \<Rightarrow> None
           | (Some count_string, s) \<Rightarrow> do {
               let module_count = length (strtok_tokens CHR '':'' module_env);
               s \<leftarrow> free_block (Some (fst count_string)) s;
               if module_count > 0 then
                 (case malloc sys s of
                    (array, s) \<Rightarrow>
                      (case strdup sys module_env s of
                         (None, _) \<Rightarrow> None
                       | (Some module_string, s) \<Rightarrow>
                           if array = None then None
                           else do {
                             (ms, s) \<leftarrow> new_modules sys (strtok_tokens CHR '':'' module_env) s;
                             s \<leftarrow> free_block (Some (fst module_string)) s;
                             Some (array, ms, s)
                           }))
               else Some (None, [], s)
             }))"

text \<open>Lines 277 to 280.\<close>

fun free_modules :: "(nat \<times> heap_string) list \<Rightarrow> client \<Rightarrow> client option" where
  "free_modules [] s = Some s"
| "free_modules ((b, name) # ms) s = do {
     s \<leftarrow> free_block (block_of name) s;
     s \<leftarrow> free_block (Some b) s;
     free_modules ms s
   }"

section \<open>Environment\<close>

text \<open>
  Lines 231 to 241: the variables of the whitelist that are set. When \<open>asprintf\<close> fails,
  the entry stays undefined and is counted all the same.
\<close>

fun whitelisted :: "system \<Rightarrow> string list \<Rightarrow> client \<Rightarrow> heap_string list \<times> client" where
  "whitelisted sys [] s = ([], s)"
| "whitelisted sys (name # whitelist) s =
     (case getenv sys name of
        None \<Rightarrow> whitelisted sys whitelist s
      | Some env \<Rightarrow>
          (let (entry, s) = strdup sys (name @ ''='' @ env) s;
               s = (if entry = None then Log OGRT_LOG_ERR (''failed copying environment variable'' @ newline) s
                    else s);
               (entries, s) = whitelisted sys whitelist s
           in (entry # entries, s)))"

text \<open>The blocks and the strings of lines 225 to 251; packing an undefined entry is undefined.\<close>

definition environment ::
    "config \<Rightarrow> system \<Rightarrow> client \<Rightarrow> (nat option list \<times> string list \<times> client) option" where
  "environment cfg sys s =
     (if \<not> msg_send_environment cfg then Some ([], [], s)
      else case environment_whitelist cfg of
        None \<Rightarrow> Some ([], environ sys, s)
      | Some whitelist \<Rightarrow>
          (let (entries, s) = whitelisted sys whitelist s in
           do { texts \<leftarrow> those (map text_of entries); Some (map block_of entries, texts, s) }))"

section \<open>Sending\<close>

definition or_unknown :: "string option \<Rightarrow> string option" where
  "or_unknown t = Some (case t of None \<Rightarrow> ''UNKNOWN'' | Some t \<Rightarrow> t)"

definition when_sent :: "bool \<Rightarrow> string option \<Rightarrow> string option" where
  "when_sent enabled t = (if enabled then t else None)"

text \<open>Lines 161 to 163 and 202 to 257: the message, from what has been collected.\<close>

definition process_info_message ::
    "config \<Rightarrow> system \<Rightarrow> client \<Rightarrow> heap_string \<Rightarrow> (nat \<times> heap_string) list \<Rightarrow> heap_string
     \<Rightarrow> heap_string \<Rightarrow> heap_string \<Rightarrow> string list \<Rightarrow> string option \<Rightarrow> pb_shared_object list
     \<Rightarrow> pb_process_info" where
  "process_info_message cfg sys s binpath modules cmdline username hostname env sig objects =
     ogrt__process_info__init
       \<lparr>pi_binpath := text_of binpath,
        pi_loaded_modules := map module_message modules,
        pi_cmdline := text_of cmdline,
        pi_pid := pid s,
        pi_parent_pid := parent_pid s,
        pi_time := clock_seconds sys,
        pi_job_id := or_unknown (getenv sys (env_jobid cfg)),
        pi_username := when_sent (msg_send_username cfg) (or_unknown (text_of username)),
        pi_hostname := when_sent (msg_send_hostname cfg) (or_unknown (text_of hostname)),
        pi_environment_variables := env,
        pi_signature := sig,
        pi_shared_objects := objects\<rparr>"

text \<open>
  Lines 259 to 265: the size, the buffer, the packed message, and \<open>send\<close>, whose result is
  not looked at. The result is the block of the buffer.
\<close>

definition send_info ::
    "system \<Rightarrow> protobuf_c \<Rightarrow> pb_process_info \<Rightarrow> client \<Rightarrow> (nat option \<times> client) option" where
  "send_info sys lib msg s = do {
     msg_len \<leftarrow> m_get_packed_size (process_info_ops lib) msg;
     packed \<leftarrow> m_pack (process_info_ops lib) msg;
     datagram \<leftarrow> send_message (\<lambda>_. malloc_ok sys (next_block s))
       OGRT__MESSAGE_TYPE__ProcessInfoMsg msg_len packed;
     let (msg_buffer, s) = malloc sys s;
     Some (msg_buffer, act (Send (daemon_socket s) datagram) s)
   }"

text \<open>
  \<open>free(so_infos->shared_objects[i].path)\<close> for every \<open>i\<close> below the size: reading an entry
  that has not been written is undefined.
\<close>

definition free_paths :: "so_infos \<Rightarrow> nat option option list \<Rightarrow> client \<Rightarrow> client option" where
  "free_paths infos paths s = do {
     ps \<leftarrow> those (take (nat (sint (so_size infos))) paths);
     free_blocks ps s
   }"

definition optionally ::
    "bool \<Rightarrow> (client \<Rightarrow> heap_string \<times> client) \<Rightarrow> client \<Rightarrow> heap_string \<times> client" where
  "optionally enabled get s = (if enabled then get s else (None, s))"

text \<open>
  The locals of \<open>ogrt_send_processinfo\<close>: the message and the blocks that are freed at
  the end.
\<close>

record collected =
  c_msg :: pb_process_info
  c_infos :: so_infos
  c_array :: "nat option"
  c_paths :: "nat option option list"
  c_binpath :: heap_string
  c_modules_block :: "nat option"
  c_modules :: "(nat \<times> heap_string) list"
  c_cmdline :: heap_string
  c_username :: heap_string
  c_hostname :: heap_string
  c_env_blocks :: "nat option list"

text \<open>Lines 143 to 257.\<close>

definition collect_info :: "config \<Rightarrow> system \<Rightarrow> client \<Rightarrow> (collected \<times> client) option" where
  "collect_info cfg sys s = do {
     (infos, array, paths, s) \<leftarrow> get_loaded_so sys s;
     objects \<leftarrow> shared_object_ptr (mem sys) infos;
     (binpath, s) \<leftarrow> get_binpath sys s;
     (modules_block, modules, s) \<leftarrow> loaded_modules cfg sys s;
     (cmdline, s) \<leftarrow> (if msg_send_cmdline cfg then get_cmdline sys s else Some (None, s));
     (username, s) \<leftarrow> Some (optionally (msg_send_username cfg) (get_username sys) s);
     (hostname, s) \<leftarrow> Some (optionally (msg_send_hostname cfg) (get_hostname sys) s);
     (env_blocks, env, s) \<leftarrow> environment cfg sys s;
     first \<leftarrow> shared_objects infos ! 0;
     sig \<leftarrow> signature_text (mem sys) (so_signature first);
     Some (\<lparr>c_msg = process_info_message cfg sys s binpath modules cmdline username hostname env sig objects,
            c_infos = infos, c_array = array, c_paths = paths, c_binpath = binpath,
            c_modules_block = modules_block, c_modules = modules, c_cmdline = cmdline,
            c_username = username, c_hostname = hostname, c_env_blocks = env_blocks\<rparr>, s)
   }"

text \<open>Lines 268 to 299.\<close>

definition free_info :: "collected \<Rightarrow> nat option \<Rightarrow> client \<Rightarrow> client option" where
  "free_info c msg_buffer s = do {
     s \<leftarrow> free_block (block_of (c_binpath c)) s;
     s \<leftarrow> free_paths (c_infos c) (c_paths c) s;
     s \<leftarrow> free_block (c_array c) s;
     s \<leftarrow> free_block msg_buffer s;
     s \<leftarrow> (if c_modules c \<noteq> []
           then do { s \<leftarrow> free_modules (c_modules c) s; free_block (c_modules_block c) s }
           else Some s);
     s \<leftarrow> free_block (block_of (c_username c)) s;
     s \<leftarrow> free_block (block_of (c_hostname c)) s;
     s \<leftarrow> free_block (block_of (c_cmdline c)) s;
     free_blocks (c_env_blocks c) s
   }"

definition ogrt_send_processinfo ::
    "config \<Rightarrow> system \<Rightarrow> protobuf_c \<Rightarrow> client \<Rightarrow> (bool \<times> client) option" where
  "ogrt_send_processinfo cfg sys lib s = do {
     (c, s) \<leftarrow> collect_info cfg sys s;
     (msg_buffer, s) \<leftarrow> send_info sys lib (c_msg c) s;
     s \<leftarrow> free_info c msg_buffer s;
     Some (True, s)
   }"

section \<open>The constructor\<close>

text \<open>Lines 23 to 28.\<close>

definition set_log_level :: "system \<Rightarrow> client \<Rightarrow> client" where
  "set_log_level sys s =
     s\<lparr>ogrt_log_level :=
         (if ogrt_env_enabled (getenv sys) ''OGRT_SILENT''
             \<or> ogrt_env_enabled (getenv sys) ''OGRT_SCHLEICHFAHRT''
          then OGRT_LOG_NOTHING else OGRT_LOG_INFO)\<rparr>"

definition flag :: "bool \<Rightarrow> string" where
  "flag b = (if b then ''1'' else ''0'')"

definition indented_list :: "string \<Rightarrow> string list \<Rightarrow> string" where
  "indented_list title items =
     ''  '' @ title @ '':'' @ newline @ concat (map (\<lambda>i. ''    '' @ i @ newline) items)"

text \<open>Lines 30 to 52: what \<open>OGRT_DEBUG_INFO\<close> prints.\<close>

definition debug_info :: "config \<Rightarrow> string" where
  "debug_info cfg =
     version_lines (parser_version cfg)
     @ ''  OGRT_NET_HOST='' @ net_host cfg @ newline
     @ ''  OGRT_NET_PORT='' @ net_port cfg @ newline
     @ ''  OGRT_ENV_JOBID='' @ env_jobid cfg @ newline
     @ ''  OGRT_ELF_SECTION_NAME=.note.ogrt.info'' @ newline
     @ ''  OGRT_ELF_NOTE_TYPE=0x4f475254'' @ newline
     @ ''  OGRT_MSG_SEND_USERNAME='' @ flag (msg_send_username cfg) @ newline
     @ ''  OGRT_MSG_SEND_HOSTNAME='' @ flag (msg_send_hostname cfg) @ newline
     @ ''  OGRT_MSG_SEND_ENVIRONMENT='' @ flag (msg_send_environment cfg) @ newline
     @ ''  OGRT_MSG_SEND_CMDLINE='' @ flag (msg_send_cmdline cfg) @ newline
     @ ''  OGRT_MSG_SEND_LOADEDMODULES='' @ flag (msg_send_loadedmodules cfg) @ newline
     @ (if filter_regexps cfg \<noteq> []
        then indented_list ''OGRT_FILTER_REGEXP_LIST'' (filter_regexps cfg) else [])
     @ (case environment_whitelist cfg of
          Some whitelist \<Rightarrow>
            if msg_send_environment cfg
            then indented_list ''OGRT_ENVIRONMENT_WHITELIST'' whitelist else []
        | None \<Rightarrow> [])"

definition print_debug_info :: "config \<Rightarrow> system \<Rightarrow> client \<Rightarrow> client" where
  "print_debug_info cfg sys s =
     (if ogrt_env_enabled (getenv sys) ''OGRT_DEBUG_INFO''
      then s\<lparr>std_out := std_out s @ debug_info cfg\<rparr> else s)"

definition deactivate :: "client \<Rightarrow> client" where
  "deactivate s = s\<lparr>ogrt_active := False\<rparr>"

text \<open>
  Lines 68 to 84: whether the constructor returns 1 here. A compiled expression is a block
  that is not freed (there is no \<open>regfree\<close>), and so is the path it is matched against;
  matching a null pointer is undefined.
\<close>

fun filter_loop :: "system \<Rightarrow> string list \<Rightarrow> client \<Rightarrow> (bool \<times> client) option" where
  "filter_loop sys [] s = Some (False, s)"
| "filter_loop sys (r # rs) s =
     (if \<not> regcomp_ok sys r
      then Some (True, deactivate (Log OGRT_LOG_ERR (''Can not compile regex: '' @ r @ newline) s))
      else do {
        let (regex, s) = own (Some r) s;
        (binpath, s) \<leftarrow> get_binpath sys s;
        path \<leftarrow> text_of binpath;
        if regexec_matches sys r path then Some (True, deactivate s) else filter_loop sys rs s
      })"

text \<open>Lines 99 to 114: whether the loop ended with a connected socket.\<close>

fun connect_loop :: "address list \<Rightarrow> client \<Rightarrow> bool \<times> client" where
  "connect_loop [] s = (False, s)"
| "connect_loop (p # ps) s =
     (case socket_result p of
        Inl err \<Rightarrow>
          connect_loop ps (deactivate (Log OGRT_LOG_ERR (err @ newline) (s\<lparr>daemon_socket := -1\<rparr>)))
      | Inr fd \<Rightarrow>
          (let s = act (OpenSocket fd) (s\<lparr>daemon_socket := fd\<rparr>) in
           case connect_error p of
             Some err \<Rightarrow>
               connect_loop ps (Log OGRT_LOG_ERR (err @ newline) (deactivate (act (CloseFd fd) s)))
           | None \<Rightarrow> (True, act (Connect fd) s)))"

text \<open>
  Line 126: the path is a new block that is not freed, and is asked for only when the
  message is printed. \<open>%s\<close> of a null pointer is undefined.
\<close>

definition log_watching :: "system \<Rightarrow> client \<Rightarrow> client option" where
  "log_watching sys s =
     (if OGRT_LOG_INFO \<le> ogrt_log_level s then do {
        (binpath, s) \<leftarrow> get_binpath sys s;
        path \<leftarrow> text_of binpath;
        Some (Log OGRT_LOG_INFO
          (''I be watchin'' @ [CHR 0x27] @ '' yo! (process '' @ signed_decimal (pid s) @ '' ['' @ path
           @ ''] with parent '' @ signed_decimal (getppid sys) @ '')'' @ newline) s)
      } else Some s)"

text \<open>
  Lines 87 to 132: the return value and the state when the branch returns, and the state
  to go on with otherwise. The list of addresses is a block of the heap.
\<close>

definition connect_and_send ::
    "config \<Rightarrow> system \<Rightarrow> protobuf_c \<Rightarrow> client \<Rightarrow> (int option \<times> client) option" where
  "connect_and_send cfg sys lib s =
     (case getaddrinfo sys of
        Inl err \<Rightarrow>
          Some (Some 1, deactivate (Log OGRT_LOG_ERR (''getaddrinfo: '' @ err @ newline) s))
      | Inr addresses \<Rightarrow>
          (let (servinfo, s) = own (Some ''addresses'') s;
               (connected, s) = connect_loop addresses s
           in if \<not> connected
              then Some (Some 1, deactivate (Log OGRT_LOG_ERR (last_error sys @ newline) s))
              else do {
                s \<leftarrow> free_block (block_of servinfo) s;
                s \<leftarrow> log_watching sys (Log OGRT_LOG_INFO (''Connected to socket.'' @ newline) s);
                (sent, s) \<leftarrow> ogrt_send_processinfo cfg sys lib s;
                if sent then Some (None, s)
                else Some (Some 1, deactivate (Log OGRT_LOG_ERR (''failed to send process info'' @ newline) s))
              }))"

definition start_tracing ::
    "config \<Rightarrow> system \<Rightarrow> protobuf_c \<Rightarrow> client \<Rightarrow> (int option \<times> client) option" where
  "start_tracing cfg sys lib s =
     (let s = s\<lparr>pid := getpid sys, parent_pid := getppid sys\<rparr> in
      case gethostname sys HOST_NAME_MAX of
        None \<Rightarrow> Some (Some 1, deactivate (Log OGRT_LOG_ERR (gethostname_error sys @ newline) s))
      | Some h \<Rightarrow> do {
          (filtered, s) \<leftarrow> filter_loop sys (filter_regexps cfg) (s\<lparr>host_name := h\<rparr>);
          if filtered then Some (Some 1, s) else connect_and_send cfg sys lib s
        })"

definition ogrt_preload_init_hook ::
    "config \<Rightarrow> system \<Rightarrow> protobuf_c \<Rightarrow> client \<Rightarrow> (int \<times> client) option" where
  "ogrt_preload_init_hook cfg sys lib s = do {
     let s = print_debug_info cfg sys (set_log_level sys s);
     let s = (if ogrt_env_enabled (getenv sys) ''OGRT_ACTIVE'' then s\<lparr>ogrt_active := True\<rparr> else s);
     (returned, s) \<leftarrow>
       (if ogrt_active s \<and> sint (daemon_socket s) < 0 then start_tracing cfg sys lib s
        else Some (None, s));
     Some (case returned of
             Some r \<Rightarrow> (r, s)
           | None \<Rightarrow> (0, act (CloseFd (daemon_socket s)) s))
   }"

end
