(* ===== verification/Preload_Spec.thy ===== *)
theory Preload_Spec
  imports Preload Proto_Spec Readso_Spec Util_Spec Wire_Properties
begin

text \<open>
  What the preload hook does: the blocks it allocates are freed, the datagram it sends is
  the frame of the process's description, and nothing is sent by a process that is not
  traced.
\<close>

section \<open>Allocation and release\<close>

text \<open>What the steps between the socket and \<open>send\<close> leave alone.\<close>

definition core :: "client \<Rightarrow> bool \<times> cint \<times> cint \<times> cint \<times> nat \<times> string" where
  "core s = (ogrt_active s, daemon_socket s, pid s, parent_pid s, ogrt_log_level s, std_out s)"

definition blocks_of :: "nat option list \<Rightarrow> nat multiset" where
  "blocks_of ps = mset (concat (map (\<lambda>p. case p of None \<Rightarrow> [] | Some b \<Rightarrow> [b]) ps))"

definition extends :: "client \<Rightarrow> client \<Rightarrow> nat multiset \<Rightarrow> bool" where
  "extends s s' A \<longleftrightarrow>
     core s' = core s \<and> net_actions s' = net_actions s \<and> heap s' = heap s + A \<and>
     (ogrt_log_level s < OGRT_LOG_ERR \<longrightarrow> log_out s' = log_out s)"

lemma blocks_of_simps [simp]:
  "blocks_of [] = {#}"
  "blocks_of (None # ps) = blocks_of ps"
  "blocks_of (Some b # ps) = add_mset b (blocks_of ps)"
  "blocks_of (ps @ qs) = blocks_of ps + blocks_of qs"
  by (simp_all add: blocks_of_def)

lemma extends_refl [simp, intro]: "extends s s {#}"
  by (simp add: extends_def)

lemma extends_trans [trans]: "extends s t A \<Longrightarrow> extends t u B \<Longrightarrow> extends s u (A + B)"
  by (auto simp: extends_def core_def add.assoc)

lemma extends_heap: "extends s s' A \<Longrightarrow> heap s' = heap s + A"
  and extends_net: "extends s s' A \<Longrightarrow> net_actions s' = net_actions s"
  and extends_core: "extends s s' A \<Longrightarrow> core s' = core s"
  by (simp_all add: extends_def)

lemma extends_Log [simp]: "extends s s' A \<Longrightarrow> extends s (Log OGRT_LOG_ERR t s') A"
  by (auto simp: extends_def Log_def core_def)

lemma extends_files [simp]: "extends s (s'\<lparr>unclosed_files := n\<rparr>) A \<longleftrightarrow> extends s s' A"
  by (simp add: extends_def core_def)

lemma extends_files_left [simp]: "extends (s\<lparr>unclosed_files := n\<rparr>) s' A \<longleftrightarrow> extends s s' A"
  by (simp add: extends_def core_def)

text \<open>Releasing.\<close>

lemma free_block_Some:
  "free_block p s = Some s' \<Longrightarrow>
     s' = s\<lparr>heap := heap s - blocks_of [p]\<rparr> \<and> blocks_of [p] \<subseteq># heap s"
  by (cases p) (auto simp: free_block_def split: if_splits)

lemma free_block_owned:
  "blocks_of [p] \<subseteq># heap s \<Longrightarrow> free_block p s = Some (s\<lparr>heap := heap s - blocks_of [p]\<rparr>)"
  by (cases p) (auto simp: free_block_def)

lemma free_blocks_owned:
  "blocks_of ps \<subseteq># heap s \<Longrightarrow> free_blocks ps s = Some (s\<lparr>heap := heap s - blocks_of ps\<rparr>)"
proof (induction ps arbitrary: s)
  case Nil
  then show ?case by simp
next
  case (Cons p ps)
  have two: "blocks_of (p # ps) = blocks_of [p] + blocks_of ps" by (cases p) simp_all
  have all: "blocks_of [p] + blocks_of ps \<subseteq># heap s"
    using Cons.prems two by simp
  then have p: "free_block p s = Some (s\<lparr>heap := heap s - blocks_of [p]\<rparr>)"
    by (intro free_block_owned) (rule subset_mset.order_trans [OF mset_subset_eq_add_left])
  have "blocks_of ps \<subseteq># heap (s\<lparr>heap := heap s - blocks_of [p]\<rparr>)"
    using all by (auto simp: subseteq_mset_def simp del: blocks_of_simps intro: add_le_imp_le_diff simp: add.commute)
  from Cons.IH [OF this] p show ?case
    by (simp add: two del: blocks_of_simps)
qed

lemma free_blocks_append:
  "free_blocks (ps @ qs) s = Option.bind (free_blocks ps s) (free_blocks qs)"
proof (induction ps arbitrary: s)
  case (Cons p ps)
  then show ?case by (cases "free_block p s") simp_all
qed simp

text \<open>
  The contract of an operation that allocates: it leaves everything but the heap alone, and
  the heap grows by exactly the blocks of its result.
\<close>

locale allocating =
  fixes run :: "client \<Rightarrow> ('r \<times> client) option"
    and owned :: "'r \<Rightarrow> nat option list"
  assumes grows: "run s = Some (r, s') \<Longrightarrow> extends s s' (blocks_of (owned r))"
begin

lemma released:
  assumes "run s = Some (r, s')"
  shows "free_blocks (owned r) s' = Some (s'\<lparr>heap := heap s\<rparr>)"
  using grows [OF assms] by (simp add: free_blocks_owned extends_heap)

end

text \<open>One allocation after another.\<close>

lemma extends_malloc: "malloc sys s = (p, s') \<Longrightarrow> extends s s' (blocks_of [p])"
  by (auto simp: malloc_def extends_def core_def Let_def split: if_splits)

lemma extends_own: "own r s = (p, s') \<Longrightarrow> extends s s' (blocks_of [block_of p])"
  by (auto simp: own_def extends_def core_def Let_def split: option.splits)

lemma extends_strdup: "strdup sys t s = (p, s') \<Longrightarrow> extends s s' (blocks_of [block_of p])"
  unfolding strdup_def by (rule extends_own)

interpretation binpath: allocating "get_binpath sys" "\<lambda>p. [block_of p]" for sys
  by unfold_locales (auto simp: get_binpath_def split: Option.bind_splits dest!: extends_own)

interpretation cmdline: allocating "get_cmdline sys" "\<lambda>p. [block_of p]" for sys
  by unfold_locales (auto simp: get_cmdline_def split: Option.bind_splits dest!: extends_own)

interpretation username: allocating "\<lambda>s. Some (optionally enabled (get_username sys) s)" "\<lambda>p. [block_of p]"
  for enabled sys
  by unfold_locales (auto simp: get_username_def optionally_def split: if_splits dest!: extends_own)

interpretation hostname: allocating "\<lambda>s. Some (optionally enabled (get_hostname sys) s)" "\<lambda>p. [block_of p]"
  for enabled sys
  by unfold_locales (auto simp: get_hostname_def optionally_def split: if_splits dest!: extends_own)

section \<open>The shared objects\<close>

lemma own_paths_written:
  "own_paths (map Some xs @ replicate k None) s = (ps, s') \<Longrightarrow>
     \<exists>qs. ps = map Some qs @ replicate k None \<and> length qs = length xs \<and> extends s s' (blocks_of qs)"
proof (induction xs arbitrary: s ps s')
  case Nil
  have "own_paths (replicate k None) s = (replicate k None, s)" for s
    by (induction k) (simp_all add: Let_def)
  then show ?case using Nil by simp
next
  case (Cons x xs)
  obtain p s1 where p: "own (so_path x) s = (p, s1)" by (metis surj_pair)
  obtain qs s2 where qs: "own_paths (map Some xs @ replicate k None) s1 = (qs, s2)" by (metis surj_pair)
  from Cons.IH [OF qs] obtain rs where rs:
    "qs = map Some rs @ replicate k None" "length rs = length xs" "extends s1 s2 (blocks_of rs)" by blast
  have "extends s s2 (blocks_of (block_of p # rs))"
    using extends_trans [OF extends_own [OF p] rs(3)]
    by (metis append_Cons append_Nil blocks_of_simps(4))
  then show ?case using Cons.prems p qs rs
    by (intro exI [of _ "block_of p # rs"]) (simp add: Let_def)
qed

definition normalizer :: "system \<Rightarrow> string \<Rightarrow> string option" where
  "normalizer sys n = ret (ogrt_normalize_path True (realpath sys) n)"

definition infos_of :: "system \<Rightarrow> dl_phdr_info list \<Rightarrow> so_infos" where
  "infos_of sys objs =
     \<lparr>so_size = of_nat (length objs), so_index = of_nat (length objs),
      shared_objects = map (Some \<circ> object_of (mem sys) (normalizer sys)) objs @ [None]\<rparr>"

text \<open>
  A process whose list of objects does not change while it is walked and whose segments
  can all be read.
\<close>

definition objects_walkable :: "system \<Rightarrow> dl_phdr_info list \<Rightarrow> bool" where
  "objects_walkable sys objs \<longleftrightarrow>
     counted sys = objs \<and> visited sys = objs \<and> length objs < 2 ^ 31 \<and>
     list_all (walkable (mem sys)) objs"

lemma get_loaded_so_run:
  assumes "objects_walkable sys objs"
  shows "get_loaded_so sys s = (if malloc_ok sys (next_block s)
    then (let (array, s) = malloc sys s; (paths, s) = own_paths (shared_objects (infos_of sys objs)) s
          in Some (infos_of sys objs, array, paths, s))
    else None)"
proof -
  have len: "length objs < 2 ^ 32" using assms by (simp add: objects_walkable_def)
  have "ogrt_get_loaded_so (mem sys) (normalizer sys) False objs objs = Some Fault"
    by (simp add: ogrt_get_loaded_so_def counted_objects [OF len])
  then show ?thesis
    using loaded_objects [OF len, of objs "mem sys" "normalizer sys"] assms
    by (simp add: get_loaded_so_def objects_walkable_def infos_of_def normalizer_def [abs_def]
        cong: if_cong)
qed

lemma get_loaded_so_Some:
  assumes "objects_walkable sys objs" and "get_loaded_so sys s = Some (infos, array, paths, s')"
  shows "infos = infos_of sys objs \<and> (\<exists>qs. paths = map Some qs @ [None] \<and> length qs = length objs
    \<and> extends s s' (blocks_of (array # qs)))"
proof -
  obtain a s1 where a: "malloc sys s = (a, s1)" by (metis surj_pair)
  have eq: "shared_objects (infos_of sys objs)
      = map Some (map (object_of (mem sys) (normalizer sys)) objs) @ replicate 1 None"
    by (simp add: infos_of_def)
  obtain ps s2 where ps: "own_paths (shared_objects (infos_of sys objs)) s1 = (ps, s2)" by (metis surj_pair)
  from own_paths_written [OF ps [unfolded eq]] obtain qs where
    qs: "ps = map Some qs @ [None]" "length qs = length objs" "extends s1 s2 (blocks_of qs)" by auto
  have "extends s s2 (blocks_of (a # qs))"
    using extends_trans [OF extends_malloc [OF a] qs(3)]
    by (metis append_Cons append_Nil blocks_of_simps(4))
  then show ?thesis
    using assms(2) a ps qs by (auto simp: get_loaded_so_run [OF assms(1)] split: if_splits)
qed

section \<open>The modules\<close>

definition module_blocks :: "nat \<times> heap_string \<Rightarrow> nat option list" where
  "module_blocks m = [block_of (snd m), Some (fst m)]"

abbreviation modules_blocks :: "(nat \<times> heap_string) list \<Rightarrow> nat option list" where
  "modules_blocks ms \<equiv> concat (map module_blocks ms)"

lemma free_modules_blocks: "free_modules ms s = free_blocks (modules_blocks ms) s"
  by (induction ms arbitrary: s)
    (auto simp: module_blocks_def free_blocks_append split: Option.bind_splits)

lemma blocks_of_Cons: "blocks_of (p # ps) = blocks_of [p] + blocks_of ps"
  by (cases p) simp_all

interpretation new_module: allocating "new_modules sys tokens" modules_blocks for sys tokens
proof unfold_locales
  fix s r s'
  show "new_modules sys tokens s = Some (r, s') \<Longrightarrow> extends s s' (blocks_of (modules_blocks r))"
  proof (induction tokens arbitrary: s r s')
    case (Cons t ts)
    obtain p s1 where p: "malloc sys s = (p, s1)" by (metis surj_pair)
    with Cons.prems obtain b where b: "p = Some b" by (cases p) simp_all
    obtain name s2 where n: "strdup sys t s1 = (name, s2)" by (metis surj_pair)
    from Cons.prems p b n obtain ms where ms: "new_modules sys ts s2 = Some (ms, s')" "r = (b, name) # ms"
      by (auto split: Option.bind_splits)
    show ?case
      using extends_trans [OF extends_trans [OF extends_malloc [OF p] extends_strdup [OF n]] Cons.IH [OF ms(1)]]
      by (cases name) (simp_all add: ms(2) b module_blocks_def)
  qed simp
qed

lemma extends_free:
  assumes "extends s s1 (add_mset b A)" and "free_block (Some b) s1 = Some s2"
  shows "extends s s2 A"
  using assms by (auto simp: extends_def core_def free_block_def split: if_splits)

lemma strdup_SomeD:
  "strdup sys t s = (Some p, s') \<Longrightarrow> snd p = t \<and> extends s s' {#fst p#}"
  using extends_strdup [of sys t s "Some p" s']
  by (auto simp: strdup_def own_def Let_def split: option.splits if_splits)

definition modules_owned :: "nat option \<times> (nat \<times> heap_string) list \<Rightarrow> nat option list" where
  "modules_owned r = modules_blocks (snd r) @ [fst r]"

lemma loaded_modules_Some:
  assumes "loaded_modules cfg sys s = Some (array, ms, s')"
  shows "extends s s' (blocks_of (modules_owned (array, ms))) \<and> (ms = [] \<longrightarrow> array = None)"
proof (cases "msg_send_loadedmodules cfg \<and> getenv sys ''LOADEDMODULES'' \<noteq> None")
  case False
  then show ?thesis
    using assms by (auto simp: loaded_modules_def modules_owned_def split: if_splits)
next
  case True
  then obtain env where env: "getenv sys ''LOADEDMODULES'' = Some env" by auto
  let ?tokens = "strtok_tokens CHR '':'' env"
  obtain p s1 where p: "strdup sys env s = (p, s1)" by (metis surj_pair)
  then obtain c where c: "p = Some c"
    using assms True env by (cases p) (auto simp: loaded_modules_def)
  obtain s2 where s2: "free_block (Some (fst c)) s1 = Some s2"
    using assms True env p c by (auto simp: loaded_modules_def split: Option.bind_splits)
  have e2: "extends s s2 {#}"
    using strdup_SomeD p c s2 extends_free by fastforce
  show ?thesis
  proof (cases "?tokens")
    case Nil
    then show ?thesis
      using assms True env p c s2 e2 by (simp add: loaded_modules_def modules_owned_def)
  next
    case (Cons t ts)
    obtain a s3 where a: "malloc sys s2 = (a, s3)" by (metis surj_pair)
    obtain q s4 where q: "strdup sys env s3 = (q, s4)" by (metis surj_pair)
    obtain m where m: "q = Some m"
      using assms True env p c s2 Cons a q by (cases q) (auto simp: loaded_modules_def)
    obtain b where b: "a = Some b"
      using assms True env p c s2 Cons a q m by (cases a) (auto simp: loaded_modules_def)
    obtain ns s5 where ns: "new_modules sys ?tokens s4 = Some (ns, s5)"
      and fin: "free_block (Some (fst m)) s5 = Some s'" "array = a" "ms = ns"
      using assms True env p c s2 Cons a q m b
      by (auto simp: loaded_modules_def split: Option.bind_splits)
    have "extends s s4 {#b, fst m#}"
      using extends_trans [OF extends_trans [OF e2 extends_malloc [OF a]]
          strdup_SomeD [OF q [unfolded m], THEN conjunct2]]
      by (simp add: b add_mset_commute)
    from extends_trans [OF this new_module.grows [OF ns]]
    have "extends s s5 (add_mset (fst m) (add_mset b (blocks_of (modules_blocks ns))))"
      by (simp add: add_mset_commute)
    from extends_free [OF this fin(1)] have "extends s s' (blocks_of (modules_owned (array, ms)))"
      by (simp add: modules_owned_def fin b)
    moreover have "ns \<noteq> []"
      using ns Cons by (auto split: Option.bind_splits prod.splits option.splits)
    ultimately show ?thesis by (simp add: fin)
  qed
qed

section \<open>The environment\<close>

lemma extends_whitelisted:
  "whitelisted sys ws s = (entries, s') \<Longrightarrow> extends s s' (blocks_of (map block_of entries))"
proof (induction ws arbitrary: s entries s')
  case (Cons w ws)
  show ?case
  proof (cases "getenv sys w")
    case (Some v)
    obtain p s1 where p: "strdup sys (w @ ''='' @ v) s = (p, s1)" by (metis surj_pair)
    define s2 where "s2 = (if p = None then Log OGRT_LOG_ERR (''failed copying environment variable'' @ newline) s1 else s1)"
    obtain es s3 where es: "whitelisted sys ws s2 = (es, s3)" by (metis surj_pair)
    have r: "entries = p # es" "s' = s3"
      using Cons.prems Some p es by (simp_all add: Let_def s2_def [symmetric])
    have "extends s s2 (blocks_of [block_of p])"
      using extends_strdup [OF p] by (cases p) (simp_all add: s2_def)
    from extends_trans [OF this Cons.IH [OF es]] show ?thesis
      by (cases p) (simp_all add: r)
  qed (use Cons in simp)
qed simp

lemma environment_Some:
  assumes "environment cfg sys s = Some (env_blocks, env, s')"
  shows "extends s s' (blocks_of env_blocks)"
proof (cases "environment_whitelist cfg")
  case None
  then show ?thesis using assms by (auto simp: environment_def split: if_splits)
next
  case (Some ws)
  obtain es s1 where es: "whitelisted sys ws s = (es, s1)" by (metis surj_pair)
  then show ?thesis
    using assms Some extends_whitelisted [OF es]
    by (auto simp: environment_def split: if_splits Option.bind_splits)
qed

section \<open>Everything that is collected\<close>

definition owned_by :: "nat option list \<Rightarrow> collected \<Rightarrow> nat option list" where
  "owned_by qs c =
     [block_of (c_binpath c)] @ qs @ [c_array c] @ modules_owned (c_modules_block c, c_modules c)
     @ [block_of (c_username c), block_of (c_hostname c), block_of (c_cmdline c)] @ c_env_blocks c"

lemma collect_info_Some:
  assumes "objects_walkable sys objs" and "collect_info cfg sys s = Some (c, s')"
  shows "\<exists>qs. c_paths c = map Some qs @ [None] \<and> length qs = length objs
    \<and> c_infos c = infos_of sys objs \<and> (c_modules c = [] \<longrightarrow> c_modules_block c = None)
    \<and> extends s s' (blocks_of (owned_by qs c))"
proof -
  obtain infos array paths s1 where 1: "get_loaded_so sys s = Some (infos, array, paths, s1)"
    using assms(2) by (auto simp: collect_info_def split: Option.bind_splits)
  obtain b s2 where 2: "get_binpath sys s1 = Some (b, s2)"
    using assms(2) 1 by (auto simp: collect_info_def split: Option.bind_splits)
  obtain mb ms s3 where 3: "loaded_modules cfg sys s2 = Some (mb, ms, s3)"
    using assms(2) 1 2 by (auto simp: collect_info_def split: Option.bind_splits)
  obtain cl s4 where 4: "(if msg_send_cmdline cfg then get_cmdline sys s3 else Some (None, s3)) = Some (cl, s4)"
    using assms(2) 1 2 3 by (auto simp: collect_info_def split: Option.bind_splits)
  obtain u s5 where 5: "Some (optionally (msg_send_username cfg) (get_username sys) s4) = Some (u, s5)"
    by (metis surj_pair)
  obtain h s6 where 6: "Some (optionally (msg_send_hostname cfg) (get_hostname sys) s5) = Some (h, s6)"
    by (metis surj_pair)
  obtain eb env where 7: "environment cfg sys s6 = Some (eb, env, s')"
    and c: "c_infos c = infos" "c_array c = array" "c_paths c = paths" "c_binpath c = b"
      "c_modules_block c = mb" "c_modules c = ms" "c_cmdline c = cl" "c_username c = u"
      "c_hostname c = h" "c_env_blocks c = eb"
    using assms(2) 1 2 3 4 5 6 by (auto simp: collect_info_def split: Option.bind_splits)
  from get_loaded_so_Some [OF assms(1) 1] obtain qs where
    qs: "infos = infos_of sys objs" "paths = map Some qs @ [None]" "length qs = length objs"
      "extends s s1 (blocks_of (array # qs))" by blast
  have e4: "extends s3 s4 (blocks_of [block_of cl])"
    using 4 cmdline.grows by (auto split: if_splits)
  note m = loaded_modules_Some [OF 3]
  have "extends s s' (blocks_of (array # qs) + blocks_of [block_of b] + blocks_of (modules_owned (mb, ms))
      + blocks_of [block_of cl] + blocks_of [block_of u] + blocks_of [block_of h] + blocks_of eb)"
    using extends_trans [OF extends_trans [OF extends_trans [OF extends_trans [OF extends_trans
      [OF extends_trans [OF qs(4) binpath.grows [OF 2]] m [THEN conjunct1]] e4] username.grows [OF 5]]
      hostname.grows [OF 6]] environment_Some [OF 7]] .
  also have "blocks_of (array # qs) + blocks_of [block_of b] + blocks_of (modules_owned (mb, ms))
      + blocks_of [block_of cl] + blocks_of [block_of u] + blocks_of [block_of h] + blocks_of eb
    = blocks_of (owned_by qs c)"
    unfolding owned_by_def c blocks_of_simps(4)
    by (cases array; cases b; cases cl; cases u; cases h) simp_all
  finally show ?thesis using qs m c by blast
qed

section \<open>Sending and releasing\<close>

lemma those_map_Some: "those (map Some xs) = Some xs"
  by (induction xs) simp_all

lemma free_info_blocks:
  assumes "c_infos c = infos_of sys objs" and "length objs < 2 ^ 31"
    and "c_paths c = map Some qs @ [None]" and "length qs = length objs"
    and "c_modules c = [] \<longrightarrow> c_modules_block c = None"
  shows "free_info c msg_buffer s = free_blocks
    ([block_of (c_binpath c)] @ qs @ [c_array c] @ [msg_buffer] @ modules_owned (c_modules_block c, c_modules c)
     @ [block_of (c_username c)] @ [block_of (c_hostname c)] @ [block_of (c_cmdline c)] @ c_env_blocks c) s"
proof -
  have "free_paths (c_infos c) (c_paths c) = free_blocks qs"
    using assms(1-4) by (intro ext) (simp add: free_paths_def infos_of_def sint_of_nat those_map_Some)
  moreover have nil: "free_blocks [] = Some" by (intro ext) simp
  moreover have "(if c_modules c \<noteq> []
      then do { s \<leftarrow> free_modules (c_modules c) s; free_block (c_modules_block c) s } else Some s)
    = free_blocks (modules_owned (c_modules_block c, c_modules c)) s" for s
    using assms(5) nil
    by (auto simp: modules_owned_def free_blocks_append free_modules_blocks free_block_def
        intro!: Option.bind_cong)
  moreover have single: "free_block p = free_blocks [p]" for p
    by (intro ext) (simp add: nil)
  ultimately show ?thesis
    unfolding free_info_def free_blocks_append single by (simp add: Option.bind_assoc)
qed

lemma free_info_owned:
  assumes "c_infos c = infos_of sys objs" and "length objs < 2 ^ 31"
    and "c_paths c = map Some qs @ [None]" and "length qs = length objs"
    and "c_modules c = [] \<longrightarrow> c_modules_block c = None"
    and "heap s = H + blocks_of (owned_by qs c) + blocks_of [msg_buffer]"
  shows "free_info c msg_buffer s = Some (s\<lparr>heap := H\<rparr>)"
proof -
  let ?ps = "[block_of (c_binpath c)] @ qs @ [c_array c] @ [msg_buffer]
    @ modules_owned (c_modules_block c, c_modules c)
    @ [block_of (c_username c)] @ [block_of (c_hostname c)] @ [block_of (c_cmdline c)] @ c_env_blocks c"
  have "blocks_of (owned_by qs c) + blocks_of [msg_buffer] = blocks_of ?ps"
    unfolding owned_by_def
    by (cases "c_binpath c"; cases "c_array c"; cases msg_buffer; cases "c_username c";
        cases "c_hostname c"; cases "c_cmdline c") simp_all
  then have "heap s = H + blocks_of ?ps" using assms(6) by (simp add: add.assoc)
  then have "free_blocks ?ps s = Some (s\<lparr>heap := H\<rparr>)"
    using free_blocks_owned [of ?ps s] by simp
  then show ?thesis using free_info_blocks [OF assms(1-5)] by simp
qed

lemma send_info_Some:
  assumes "send_info sys lib msg s = Some (b, s')"
  obtains datagram where "net_actions s' = net_actions s @ [Send (daemon_socket s) datagram]"
    and "core s' = core s" and "heap s' = heap s + blocks_of [b]"
proof -
  obtain datagram s1 where "malloc sys s = (b, s1)" "s' = act (Send (daemon_socket s1) datagram) s1"
    using assms by (auto simp: send_info_def Let_def split: Option.bind_splits prod.splits)
  with extends_malloc [of sys s b s1] show ?thesis
    by (intro that [of datagram]) (auto simp: extends_def act_def core_def)
qed

text \<open>Every block that is released is still allocated then.\<close>

lemma release_defined:
  assumes "objects_walkable sys objs" and run: "collect_info cfg sys s = Some (c, s1)"
      "send_info sys lib (c_msg c) s1 = Some (b, s2)"
  shows "free_info c b s2 = Some (s2\<lparr>heap := heap s\<rparr>) \<and> core s2 = core s
    \<and> (\<exists>datagram. net_actions s2 = net_actions s @ [Send (daemon_socket s) datagram])"
proof -
  from collect_info_Some [OF assms(1) run(1)] obtain qs where
    c: "c_paths c = map Some qs @ [None]" "length qs = length objs" "c_infos c = infos_of sys objs"
      "c_modules c = [] \<longrightarrow> c_modules_block c = None" "extends s s1 (blocks_of (owned_by qs c))"
    by blast
  from send_info_Some [OF run(2)] obtain d where
    d: "net_actions s2 = net_actions s1 @ [Send (daemon_socket s1) d]" "core s2 = core s1"
      "heap s2 = heap s1 + blocks_of [b]" .
  have "free_info c b s2 = Some (s2\<lparr>heap := heap s\<rparr>)"
    using free_info_owned [OF c(3) _ c(1,2,4)] assms(1) d(3) c(5)
    by (simp add: extends_heap objects_walkable_def)
  then show ?thesis
    using d c(5) by (auto simp: extends_def core_def)
qed

lemma send_processinfo_Some:
  assumes "objects_walkable sys objs" and "ogrt_send_processinfo cfg sys lib s = Some (r, s')"
  shows "r \<and> heap s' = heap s \<and> core s' = core s
    \<and> (\<exists>datagram. net_actions s' = net_actions s @ [Send (daemon_socket s) datagram])"
proof -
  obtain c s1 b s2 where run: "collect_info cfg sys s = Some (c, s1)"
      "send_info sys lib (c_msg c) s1 = Some (b, s2)" "free_info c b s2 = Some s'" "r"
    using assms(2) by (auto simp: ogrt_send_processinfo_def split: Option.bind_splits)
  from release_defined [OF assms(1) run(1,2)] run(3,4) show ?thesis by (auto simp: core_def)
qed

section \<open>The tokens of a list of modules\<close>

fun parts :: "char \<Rightarrow> string \<Rightarrow> string list" where
  "parts c [] = [[]]"
| "parts c (x # s) =
     (if x = c then [] # parts c s
      else (case parts c s of [] \<Rightarrow> [[x]] | p # ps \<Rightarrow> (x # p) # ps))"

lemma parts_neq_Nil [simp]: "parts c s \<noteq> []"
  by (induction s) (auto split: list.splits)

lemma parts_token:
  "c \<notin> set t \<Longrightarrow> parts c (t @ s) = (t @ hd (parts c s)) # tl (parts c s)"
  by (induction t) (auto split: list.splits)

lemma parts_skip: "filter (\<lambda>p. p \<noteq> []) (parts c (dropWhile (\<lambda>x. x = c) s)) = filter (\<lambda>p. p \<noteq> []) (parts c s)"
  by (induction s) auto

text \<open>Successive calls of \<open>strtok\<close> return the parts between separators that are not empty.\<close>

lemma strtok_parts: "strtok_tokens c s = filter (\<lambda>p. p \<noteq> []) (parts c s)"
proof (induction c s rule: strtok_tokens.induct)
  case (1 c s)
  show ?case
  proof (cases "dropWhile (\<lambda>x. x = c) s")
    case Nil
    have "strtok_tokens c s = []" by (subst strtok_tokens.simps) (unfold Nil, simp)
    then show ?thesis using parts_skip [of c s] unfolding Nil by simp
  next
    case (Cons x t)
    have x: "x \<noteq> c" using hd_dropWhile [of "\<lambda>x. x = c" s] Cons by simp
    define tok rest where "tok = takeWhile (\<lambda>x. x \<noteq> c) (x # t)" and "rest = dropWhile (\<lambda>x. x \<noteq> c) (x # t)"
    have tok: "tok \<noteq> []" "c \<notin> set tok" "x # t = tok @ rest"
      using x by (auto simp: tok_def rest_def dest: set_takeWhileD)
    have head: "rest = [] \<or> hd rest = c"
      using hd_dropWhile [of "\<lambda>x. x \<noteq> c" "x # t"] unfolding rest_def by blast
    have "parts c (x # t) = (tok @ hd (parts c rest)) # tl (parts c rest)"
      unfolding tok(3) by (rule parts_token [OF tok(2)])
    then have "filter (\<lambda>p. p \<noteq> []) (parts c (x # t)) = tok # filter (\<lambda>p. p \<noteq> []) (parts c rest)"
      using head tok(1) by (cases rest) simp_all
    moreover have "strtok_tokens c s = tok # strtok_tokens c rest"
      by (subst strtok_tokens.simps) (simp add: Cons tok_def rest_def del: takeWhile.simps dropWhile.simps)
    ultimately show ?thesis
      using 1 [OF Cons] parts_skip [of c s] unfolding Cons rest_def [symmetric] by simp
  qed
qed

section \<open>What is collected when memory is available\<close>

definition memory_available :: "system \<Rightarrow> bool" where
  "memory_available sys \<longleftrightarrow> malloc_ok sys = (\<lambda>_. True)"

lemma text_of_own [simp]: "text_of (fst (own r s)) = r"
  by (simp add: own_def Let_def split: option.splits)

lemma text_of_strdup [simp]: "memory_available sys \<Longrightarrow> text_of (fst (strdup sys t s)) = Some t"
  by (simp add: strdup_def memory_available_def)

lemma text_of_username:
  "memory_available sys \<Longrightarrow> text_of (fst (get_username sys s)) = pw_name sys"
  by (simp add: get_username_def ogrt_get_username_def memory_available_def split: option.splits)

lemma text_of_hostname:
  "memory_available sys \<Longrightarrow> text_of (fst (get_hostname sys s)) = gethostname sys (HOST_NAME_MAX + 1)"
  by (simp add: get_hostname_def ogrt_get_hostname_def memory_available_def split: option.splits)

lemma get_binpath_available:
  assumes "memory_available sys" and "exe_link sys = Some target" and "is_c_string target"
    and "length target < PATH_MAX"
  shows "get_binpath sys s = Some (own (Some target) s)"
  using binpath_short [OF assms(3,4)] assms(1,2) by (simp add: get_binpath_def memory_available_def)

lemma strdup_available:
  assumes "memory_available sys"
  obtains b s' where "strdup sys t s = (Some (b, t), s')"
  using assms by (simp add: strdup_def own_def Let_def memory_available_def)

lemma malloc_available:
  assumes "memory_available sys"
  obtains b s' where "malloc sys s = (Some b, s')"
  using assms by (simp add: malloc_def Let_def memory_available_def)

lemma new_modules_available:
  assumes "memory_available sys"
  shows "\<exists>ms s'. new_modules sys ts s = Some (ms, s') \<and> map (text_of \<circ> snd) ms = map Some ts"
proof (induction ts arbitrary: s)
  case (Cons t ts)
  obtain b s1 where b: "malloc sys s = (Some b, s1)" using malloc_available [OF assms] .
  obtain n s2 where n: "strdup sys t s1 = (Some (n, t), s2)" using strdup_available [OF assms] .
  from Cons.IH [of s2] obtain ms s' where "new_modules sys ts s2 = Some (ms, s')"
    "map (text_of \<circ> snd) ms = map Some ts" by blast
  then show ?case using b n by (simp add: comp_def)
qed simp

lemma free_own_block:
  assumes "extends s s' (add_mset b A)"
  shows "\<exists>s''. free_block (Some b) s' = Some s'' \<and> extends s s'' A"
  using assms by (auto simp: free_block_def extends_def core_def)

definition described_modules :: "config \<Rightarrow> system \<Rightarrow> pb_module list" where
  "described_modules cfg sys =
     (case getenv sys ''LOADEDMODULES'' of
        Some env \<Rightarrow>
          if msg_send_loadedmodules cfg
          then map (\<lambda>t. ogrt__module__init\<lparr>pm_name := Some t\<rparr>)
                 (filter (\<lambda>p. p \<noteq> []) (parts CHR '':'' env))
          else []
      | None \<Rightarrow> [])"

lemma loaded_modules_available:
  assumes "memory_available sys"
  shows "\<exists>a ms s'. loaded_modules cfg sys s = Some (a, ms, s')
    \<and> map module_message ms = described_modules cfg sys"
proof (cases "msg_send_loadedmodules cfg \<and> getenv sys ''LOADEDMODULES'' \<noteq> None")
  case False
  then show ?thesis by (auto simp: loaded_modules_def described_modules_def split: option.splits)
next
  case True
  then obtain env where env: "getenv sys ''LOADEDMODULES'' = Some env" by auto
  let ?tokens = "strtok_tokens CHR '':'' env"
  obtain b s1 where b: "strdup sys env s = (Some (b, env), s1)" using strdup_available [OF assms] .
  have "extends s s1 (add_mset b {#})" using strdup_SomeD [OF b] by simp
  then obtain s2 where s2: "free_block (Some b) s1 = Some s2" using free_own_block by blast
  show ?thesis
  proof (cases ?tokens)
    case Nil
    then show ?thesis
      using True env b s2 strtok_parts [of "CHR '':''" env]
      by (simp add: loaded_modules_def described_modules_def)
  next
    case (Cons t ts)
    obtain a s3 where a: "malloc sys s2 = (Some a, s3)" using malloc_available [OF assms] .
    obtain m s4 where m: "strdup sys env s3 = (Some (m, env), s4)" using strdup_available [OF assms] .
    obtain ms s5 where ms: "new_modules sys ?tokens s4 = Some (ms, s5)"
      "map (text_of \<circ> snd) ms = map Some ?tokens"
      using new_modules_available [OF assms] by blast
    have "extends s3 s5 (add_mset m (blocks_of (modules_blocks ms)))"
      using extends_trans [OF strdup_SomeD [OF m, THEN conjunct2] new_module.grows [OF ms(1)]] by simp
    then obtain s6 where s6: "free_block (Some m) s5 = Some s6" using free_own_block by blast
    have "map module_message ms
        = map (\<lambda>t. ogrt__module__init\<lparr>pm_name := t\<rparr>) (map (text_of \<circ> snd) ms)"
      by (simp add: module_message_def)
    then have "map module_message ms = described_modules cfg sys"
      unfolding ms(2) by (simp add: strtok_parts described_modules_def env True comp_def)
    then show ?thesis
      using True env b s2 Cons a m ms(1) s6 by (simp add: loaded_modules_def)
  qed
qed

definition described_environment :: "config \<Rightarrow> system \<Rightarrow> string list" where
  "described_environment cfg sys =
     (if \<not> msg_send_environment cfg then []
      else case environment_whitelist cfg of
        None \<Rightarrow> environ sys
      | Some whitelist \<Rightarrow>
          concat (map (\<lambda>n. case getenv sys n of None \<Rightarrow> [] | Some v \<Rightarrow> [n @ ''='' @ v]) whitelist))"

lemma whitelisted_available:
  assumes "memory_available sys"
  shows "map text_of (fst (whitelisted sys ws s))
    = map Some (concat (map (\<lambda>n. case getenv sys n of None \<Rightarrow> [] | Some v \<Rightarrow> [n @ ''='' @ v]) ws))"
proof (induction ws arbitrary: s)
  case (Cons w ws)
  show ?case
  proof (cases "getenv sys w")
    case (Some v)
    obtain b s1 where "strdup sys (w @ ''='' @ v) s = (Some (b, w @ ''='' @ v), s1)"
      using strdup_available [OF assms] .
    then show ?thesis using Cons.IH [of s1] Some
      by (cases "whitelisted sys ws s1") (simp add: Let_def)
  qed (simp add: Cons.IH)
qed simp

lemma environment_available:
  assumes "memory_available sys"
  shows "\<exists>bs s'. environment cfg sys s = Some (bs, described_environment cfg sys, s')"
proof (cases "environment_whitelist cfg")
  case None
  then show ?thesis by (simp add: environment_def described_environment_def)
next
  case (Some ws)
  have "those (map text_of (fst (whitelisted sys ws s)))
    = Some (concat (map (\<lambda>n. case getenv sys n of None \<Rightarrow> [] | Some v \<Rightarrow> [n @ ''='' @ v]) ws))"
    unfolding whitelisted_available [OF assms] by (rule those_map_Some)
  then show ?thesis
    using Some
    by (cases "whitelisted sys ws s") (simp add: environment_def described_environment_def)
qed

section \<open>The description of a process\<close>

abbreviation loaded_object :: "system \<Rightarrow> dl_phdr_info \<Rightarrow> shared_object" where
  "loaded_object sys \<equiv> object_of (mem sys) (normalizer sys)"

definition described_object :: "system \<Rightarrow> dl_phdr_info \<Rightarrow> pb_shared_object" where
  "described_object sys info =
     ogrt__shared_object__init
       \<lparr>pso_path := so_path (loaded_object sys info),
        pso_signature := the (signature_text (mem sys) (so_signature (loaded_object sys info)))\<rparr>"

text \<open>What a process with the loaded objects and arguments given is described by.\<close>

definition described ::
    "config \<Rightarrow> system \<Rightarrow> dl_phdr_info list \<Rightarrow> string list \<Rightarrow> cint \<Rightarrow> cint \<Rightarrow> pb_process_info" where
  "described cfg sys objs args p pp =
     ogrt__process_info__init
       \<lparr>pi_binpath := exe_link sys,
        pi_loaded_modules := described_modules cfg sys,
        pi_cmdline := when_sent (msg_send_cmdline cfg) (Some (join_blank args)),
        pi_pid := p,
        pi_parent_pid := pp,
        pi_time := clock_seconds sys,
        pi_job_id := or_unknown (getenv sys (env_jobid cfg)),
        pi_username := when_sent (msg_send_username cfg) (or_unknown (pw_name sys)),
        pi_hostname :=
          when_sent (msg_send_hostname cfg) (or_unknown (gethostname sys (HOST_NAME_MAX + 1))),
        pi_environment_variables := described_environment cfg sys,
        pi_signature := pso_signature (described_object sys (hd objs)),
        pi_shared_objects := map (described_object sys) (drop 2 objs)\<rparr>"

text \<open>
  A process that can be described: the vdso and the binary are loaded, the signatures can
  be read, and the paths under /proc are readable and fit their buffers.
\<close>

definition describable :: "system \<Rightarrow> dl_phdr_info list \<Rightarrow> string list \<Rightarrow> bool" where
  "describable sys objs args \<longleftrightarrow>
     objects_walkable sys objs \<and> 2 \<le> length objs \<and>
     list_all (\<lambda>i. signature_text (mem sys) (so_signature (loaded_object sys i)) \<noteq> None) objs \<and>
     (case exe_link sys of None \<Rightarrow> False | Some t \<Rightarrow> is_c_string t \<and> length t < PATH_MAX) \<and>
     cmdline_opened sys \<and> cmdline_contents sys = Some (proc_cmdline args) \<and>
     args \<noteq> [] \<and> list_all is_c_string args \<and> length (proc_cmdline args) < PATH_MAX"

lemma those_map_all: "list_all (\<lambda>x. g x = Some (h x)) xs \<Longrightarrow> those (map g xs) = Some (map h xs)"
  by (induction xs) simp_all

lemma object_message_readable:
  assumes "signature_text (mem sys) (so_signature (loaded_object sys i)) \<noteq> None"
  shows "object_message (mem sys) (Some (loaded_object sys i)) = Some (described_object sys i)"
  using assms by (auto simp: object_message_def described_object_def)

lemma shared_object_ptr_described:
  assumes "describable sys objs args"
  shows "shared_object_ptr (mem sys) (infos_of sys objs) = Some (map (described_object sys) (drop 2 objs))"
proof -
  have len: "length objs < 2 ^ 31" "2 \<le> length objs"
    using assms by (simp_all add: describable_def objects_walkable_def)
  have "list_all (\<lambda>i. signature_text (mem sys) (so_signature (loaded_object sys i)) \<noteq> None) (drop 2 objs)"
    using assms by (auto simp: describable_def list_all_iff dest: in_set_dropD)
  then have "list_all (\<lambda>i. object_message (mem sys) (Some (loaded_object sys i)) = Some (described_object sys i))
      (drop 2 objs)"
    using object_message_readable by (auto simp: list_all_iff)
  from those_map_all [OF this]
  have "those (map (object_message (mem sys)) (map (Some \<circ> loaded_object sys) (drop 2 objs)))
    = Some (map (described_object sys) (drop 2 objs))"
    by (simp add: comp_def)
  moreover have "take (length objs - 2) (drop 2 (shared_objects (infos_of sys objs)))
      = map (Some \<circ> loaded_object sys) (drop 2 objs)"
    using len(2) by (simp add: infos_of_def drop_map)
  ultimately show ?thesis
    using len by (simp add: shared_object_ptr_def infos_of_def sint_of_nat)
qed

lemma text_of_optionally:
  "text_of (fst (optionally enabled get s)) = (if enabled then text_of (fst (get s)) else None)"
  by (simp add: optionally_def)

lemma when_sent_optionally:
  "when_sent enabled (or_unknown (text_of (fst (optionally enabled get s))))
    = when_sent enabled (or_unknown (text_of (fst (get s))))"
  by (simp add: when_sent_def text_of_optionally)

lemma get_cmdline_described:
  assumes "memory_available sys" and "describable sys objs args"
  shows "\<exists>cl s'. (if msg_send_cmdline cfg then get_cmdline sys s else Some (None, s)) = Some (cl, s')
    \<and> text_of cl = when_sent (msg_send_cmdline cfg) (Some (join_blank args))"
proof (cases "msg_send_cmdline cfg")
  case True
  let ?s = "s\<lparr>unclosed_files := unclosed_files s + 1\<rparr>"
  have "get_cmdline sys s = Some (own (Some (join_blank args)) ?s)"
    using cmdline_joined [of args] assms
    by (simp add: get_cmdline_def describable_def memory_available_def)
  moreover obtain p s' where p: "own (Some (join_blank args)) ?s = (p, s')" by (metis surj_pair)
  moreover have "text_of p = Some (join_blank args)"
    using text_of_own [of "Some (join_blank args)" ?s] unfolding p fst_conv .
  ultimately show ?thesis using True by (simp add: when_sent_def)
qed (simp add: when_sent_def)

lemma names_described:
  assumes "memory_available sys"
  shows "when_sent (msg_send_username cfg)
      (or_unknown (text_of (fst (optionally (msg_send_username cfg) (get_username sys) s))))
    = when_sent (msg_send_username cfg) (or_unknown (pw_name sys))"
    and "when_sent (msg_send_hostname cfg)
      (or_unknown (text_of (fst (optionally (msg_send_hostname cfg) (get_hostname sys) s))))
    = when_sent (msg_send_hostname cfg) (or_unknown (gethostname sys (HOST_NAME_MAX + 1)))"
  by (simp_all add: when_sent_optionally text_of_username [OF assms] text_of_hostname [OF assms])

lemma collect_info_described:
  assumes "memory_available sys" and "describable sys objs args"
  shows "\<exists>c s'. collect_info cfg sys s = Some (c, s')
    \<and> c_msg c = described cfg sys objs args (pid s) (parent_pid s)"
proof -
  have walk: "objects_walkable sys objs" using assms(2) by (simp add: describable_def)
  obtain target where target: "exe_link sys = Some target" "is_c_string target" "length target < PATH_MAX"
    using assms(2) by (auto simp: describable_def split: option.splits)
  obtain i objs' where objs: "objs = i # objs'"
    using assms(2) by (cases objs) (auto simp: describable_def)
  have first: "shared_objects (infos_of sys objs) ! 0 = Some (loaded_object sys i)"
    by (simp add: infos_of_def objs)
  obtain sig where sig: "signature_text (mem sys) (so_signature (loaded_object sys i)) = Some sig"
    using assms(2) by (auto simp: describable_def objs)
  obtain a s0 where a: "malloc sys s = (a, s0)" by (metis surj_pair)
  obtain ps s1 where "own_paths (shared_objects (infos_of sys objs)) s0 = (ps, s1)" by (metis surj_pair)
  then have s1: "get_loaded_so sys s = Some (infos_of sys objs, a, ps, s1)"
    using get_loaded_so_run [OF walk, of s] assms(1) a
    by (simp add: memory_available_def)
  obtain b s2 where s2: "get_binpath sys s1 = Some (b, s2)" "text_of b = Some target"
    using get_binpath_available [OF assms(1) target, of s1] text_of_own
    by (metis surj_pair fst_conv)
  obtain mb ms s3 where s3: "loaded_modules cfg sys s2 = Some (mb, ms, s3)"
      "map module_message ms = described_modules cfg sys"
    using loaded_modules_available [OF assms(1)] by blast
  obtain cl s4 where s4: "(if msg_send_cmdline cfg then get_cmdline sys s3 else Some (None, s3)) = Some (cl, s4)"
      "text_of cl = when_sent (msg_send_cmdline cfg) (Some (join_blank args))"
    using get_cmdline_described [OF assms] by blast
  obtain u s5 where s5: "optionally (msg_send_username cfg) (get_username sys) s4 = (u, s5)"
    by (metis surj_pair)
  obtain h s6 where s6: "optionally (msg_send_hostname cfg) (get_hostname sys) s5 = (h, s6)"
    by (metis surj_pair)
  obtain bs s7 where s7: "environment cfg sys s6 = Some (bs, described_environment cfg sys, s7)"
    using environment_available [OF assms(1)] by blast
  have names: "when_sent (msg_send_username cfg) (or_unknown (text_of u))
        = when_sent (msg_send_username cfg) (or_unknown (pw_name sys))"
      "when_sent (msg_send_hostname cfg) (or_unknown (text_of h))
        = when_sent (msg_send_hostname cfg) (or_unknown (gethostname sys (HOST_NAME_MAX + 1)))"
    using names_described [OF assms(1), of cfg s4] names_described [OF assms(1), of cfg s5]
    by (simp_all add: s5 s6)
  obtain c where c: "collect_info cfg sys s = Some (c, s7)"
      "c_msg c = process_info_message cfg sys s7 b ms cl u h (described_environment cfg sys) sig
        (map (described_object sys) (drop 2 objs))"
    by (simp add: collect_info_def s1 shared_object_ptr_described [OF assms(2)] s2(1) s3(1) s4(1)
        s5 s6 s7 first sig)
  have "core s7 = core s"
    using collect_info_Some [OF walk c(1)] by (auto dest: extends_core)
  then have "c_msg c = described cfg sys objs args (pid s) (parent_pid s)"
    unfolding c(2) process_info_message_def described_def
    by (simp add: s2(2) target(1) s3(2) s4(2) names core_def objs described_object_def sig)
  with c(1) show ?thesis by blast
qed

section \<open>Sending the description\<close>

definition packable :: "protobuf_c \<Rightarrow> pb_process_info \<Rightarrow> bool" where
  "packable lib m \<longleftrightarrow>
     lib_get_packed_size lib (MProcessInfo m) = length (lib_pack lib (MProcessInfo m)) \<and>
     length (lib_pack lib (MProcessInfo m)) + 8 < 2 ^ 31"

abbreviation packed_info :: "protobuf_c \<Rightarrow> pb_process_info \<Rightarrow> byte list" where
  "packed_info lib m \<equiv> lib_pack lib (MProcessInfo m)"

lemma described_base [simp]: "pi_base (described cfg sys objs args p pp) = ''OGRT.ProcessInfo''"
  by (simp add: described_def ogrt__process_info__init_def)

lemma send_info_packable:
  assumes "memory_available sys" and "pi_base m = ''OGRT.ProcessInfo''" and "packable lib m"
  shows "\<exists>b s'. send_info sys lib m s = Some (b, s')
    \<and> net_actions s' = net_actions s @ [Send (daemon_socket s) (frame 12 (packed_info lib m))]
    \<and> heap s' = heap s + blocks_of [b] \<and> core s' = core s"
proof -
  obtain b s1 where b: "malloc sys s = (Some b, s1)" using malloc_available [OF assms(1)] .
  have "send_message (\<lambda>_. True) 12 (length (packed_info lib m)) (packed_info lib m)
      = Some (frame 12 (packed_info lib m))"
    using send_packed_frame [of "packed_info lib m" "\<lambda>_. True" 12] assms(3)
    by (simp add: packable_def send_packed_def)
  then have "send_info sys lib m s
      = Some (Some b, act (Send (daemon_socket s1) (frame 12 (packed_info lib m))) s1)"
    using assms b
    by (simp add: send_info_def process_info.get_packed_size process_info.pack packable_def
        memory_available_def OGRT__MESSAGE_TYPE__ProcessInfoMsg_def)
  moreover from extends_malloc [OF b]
  have "daemon_socket s1 = daemon_socket s" "net_actions s1 = net_actions s" "core s1 = core s"
    "heap s1 = heap s + {#b#}"
    by (simp_all add: extends_def core_def)
  ultimately show ?thesis by (simp add: act_def core_def)
qed

lemma send_processinfo_described:
  assumes "memory_available sys" and "describable sys objs args"
    and "packable lib (described cfg sys objs args (pid s) (parent_pid s))"
  shows "\<exists>s'. ogrt_send_processinfo cfg sys lib s = Some (True, s')
    \<and> net_actions s' = net_actions s
        @ [Send (daemon_socket s) (frame 12 (packed_info lib (described cfg sys objs args (pid s) (parent_pid s))))]
    \<and> heap s' = heap s \<and> core s' = core s"
proof -
  let ?m = "described cfg sys objs args (pid s) (parent_pid s)"
  have walk: "objects_walkable sys objs" using assms(2) by (simp add: describable_def)
  obtain c s1 where c: "collect_info cfg sys s = Some (c, s1)" "c_msg c = ?m"
    using collect_info_described [OF assms(1,2)] by blast
  from collect_info_Some [OF walk c(1)] obtain qs where
    qs: "c_paths c = map Some qs @ [None]" "length qs = length objs" "c_infos c = infos_of sys objs"
      "c_modules c = [] \<longrightarrow> c_modules_block c = None" "extends s s1 (blocks_of (owned_by qs c))"
    by blast
  obtain b s2 where s2: "send_info sys lib ?m s1 = Some (b, s2)"
      "net_actions s2 = net_actions s1 @ [Send (daemon_socket s1) (frame 12 (packed_info lib ?m))]"
      "heap s2 = heap s1 + blocks_of [b]" "core s2 = core s1"
    using send_info_packable [OF assms(1) described_base assms(3)] by blast
  have "free_info c b s2 = Some (s2\<lparr>heap := heap s\<rparr>)"
    using free_info_owned [OF qs(3) _ qs(1,2,4)] walk s2(3) qs(5)
    by (simp add: extends_heap objects_walkable_def)
  then show ?thesis
    using c s2 qs(5) by (auto simp: ogrt_send_processinfo_def extends_def core_def)
qed

section \<open>Whatever happens\<close>

text \<open>Without an assumption on the objects: the steps before and after \<open>send\<close> leave the core alone.\<close>

lemma own_paths_extends: "own_paths os s = (ps, s') \<Longrightarrow> \<exists>A. extends s s' A"
proof (induction os arbitrary: s ps s')
  case (Cons e os)
  show ?case
  proof (cases e)
    case None
    then show ?thesis using Cons by (auto simp: Let_def split: prod.splits)
  next
    case (Some so)
    obtain p s1 where p: "own (so_path so) s = (p, s1)" by (metis surj_pair)
    obtain ps1 s2 where ps1: "own_paths os s1 = (ps1, s2)" by (metis surj_pair)
    from Cons.IH [OF this] obtain A where "extends s1 s2 A" ..
    then show ?thesis
      using extends_trans [OF extends_own [OF p]] Cons.prems p ps1 Some by (auto simp: Let_def)
  qed
qed auto

lemma collect_info_extends:
  assumes "collect_info cfg sys s = Some (c, s')"
  shows "\<exists>A. extends s s' A"
proof -
  obtain infos array paths s1 where 1: "get_loaded_so sys s = Some (infos, array, paths, s1)"
    using assms by (auto simp: collect_info_def split: Option.bind_splits)
  obtain b s2 where 2: "get_binpath sys s1 = Some (b, s2)"
    using assms 1 by (auto simp: collect_info_def split: Option.bind_splits)
  obtain mb ms s3 where 3: "loaded_modules cfg sys s2 = Some (mb, ms, s3)"
    using assms 1 2 by (auto simp: collect_info_def split: Option.bind_splits)
  obtain cl s4 where 4: "(if msg_send_cmdline cfg then get_cmdline sys s3 else Some (None, s3)) = Some (cl, s4)"
    using assms 1 2 3 by (auto simp: collect_info_def split: Option.bind_splits)
  obtain u s5 where 5: "Some (optionally (msg_send_username cfg) (get_username sys) s4) = Some (u, s5)"
    by (metis surj_pair)
  obtain h s6 where 6: "Some (optionally (msg_send_hostname cfg) (get_hostname sys) s5) = Some (h, s6)"
    by (metis surj_pair)
  obtain eb env where 7: "environment cfg sys s6 = Some (eb, env, s')"
    using assms 1 2 3 4 5 6 by (auto simp: collect_info_def split: Option.bind_splits)
  have "\<exists>A. extends s s1 A"
  proof -
    obtain a s0 where a: "malloc sys s = (a, s0)" by (metis surj_pair)
    obtain A where "extends s0 s1 A"
      using 1 a own_paths_extends [of "shared_objects infos" s0 paths s1]
      by (auto simp: get_loaded_so_def Let_def split: option.splits attempt.splits prod.splits)
    then show ?thesis using extends_trans [OF extends_malloc [OF a]] by blast
  qed
  moreover have "extends s3 s4 (blocks_of [block_of cl])"
    using 4 cmdline.grows by (auto split: if_splits)
  ultimately show ?thesis
    using extends_trans binpath.grows [OF 2] loaded_modules_Some [OF 3] username.grows [OF 5]
      hostname.grows [OF 6] environment_Some [OF 7] by metis
qed

lemma free_block_only_heap: "free_block p s = Some s' \<Longrightarrow> \<exists>h. s' = s\<lparr>heap := h\<rparr>"
  by (auto dest: free_block_Some)

lemma free_blocks_only_heap: "free_blocks ps s = Some s' \<Longrightarrow> \<exists>h. s' = s\<lparr>heap := h\<rparr>"
proof (induction ps arbitrary: s)
  case Nil
  then show ?case by (intro exI [of _ "heap s"]) simp
next
  case (Cons p ps)
  then obtain s1 where s1: "free_block p s = Some s1" "free_blocks ps s1 = Some s'"
    by (auto split: Option.bind_splits)
  from free_block_only_heap [OF s1(1)] Cons.IH [OF s1(2)] show ?case by auto
qed

lemma free_info_only_heap: "free_info c b s = Some s' \<Longrightarrow> \<exists>h. s' = s\<lparr>heap := h\<rparr>"
  unfolding free_info_def free_paths_def free_modules_blocks
  by (auto split: Option.bind_splits if_splits dest!: free_blocks_only_heap free_block_only_heap)

lemma send_processinfo_core:
  assumes "ogrt_send_processinfo cfg sys lib s = Some (r, s')"
  shows "r \<and> core s' = core s
    \<and> (\<exists>datagram. net_actions s' = net_actions s @ [Send (daemon_socket s) datagram])
    \<and> (ogrt_log_level s < OGRT_LOG_ERR \<longrightarrow> log_out s' = log_out s)"
proof -
  obtain c s1 b s2 where run: "collect_info cfg sys s = Some (c, s1)"
      "send_info sys lib (c_msg c) s1 = Some (b, s2)" "free_info c b s2 = Some s'" "r"
    using assms by (auto simp: ogrt_send_processinfo_def split: Option.bind_splits)
  obtain A where A: "extends s s1 A" using collect_info_extends [OF run(1)] ..
  obtain datagram t where t: "malloc sys s1 = (b, t)" "s2 = act (Send (daemon_socket t) datagram) t"
    using run(2) by (auto simp: send_info_def Let_def split: Option.bind_splits prod.splits)
  from extends_trans [OF A extends_malloc [OF t(1)]] free_info_only_heap [OF run(3)] run(4)
  show ?thesis by (auto simp: extends_def act_def core_def t(2))
qed

section \<open>The constructor\<close>

fun track :: "net_action \<Rightarrow> cint multiset \<Rightarrow> cint multiset" where
  "track (OpenSocket fd) open_fds = add_mset fd open_fds"
| "track (CloseFd fd) open_fds = open_fds - {#fd#}"
| "track _ open_fds = open_fds"

definition open_sockets :: "net_action list \<Rightarrow> cint multiset" where
  "open_sockets as = fold track as {#}"

definition datagrams :: "net_action list \<Rightarrow> byte list list" where
  "datagrams as = concat (map (\<lambda>a. case a of Send fd d \<Rightarrow> [d] | _ \<Rightarrow> []) as)"

lemma open_sockets_simps [simp]:
  "open_sockets [] = {#}"
  "open_sockets (as @ bs) = fold track bs (open_sockets as)"
  by (simp_all add: open_sockets_def)

lemma datagrams_simps [simp]:
  "datagrams [] = []"
  "datagrams (as @ bs) = datagrams as @ datagrams bs"
  "datagrams [Send fd d] = [d]" "datagrams [OpenSocket fd] = []" "datagrams [CloseFd fd] = []"
  "datagrams [Connect fd] = []"
  by (simp_all add: datagrams_def)

text \<open>Quiet steps: nothing is sent and, at a level below \<open>ERR\<close>, nothing is logged.\<close>

definition quiet :: "client \<Rightarrow> client \<Rightarrow> bool" where
  "quiet s s' \<longleftrightarrow>
     ogrt_log_level s' = ogrt_log_level s \<and> pid s' = pid s \<and> parent_pid s' = parent_pid s \<and>
     datagrams (net_actions s') = datagrams (net_actions s) \<and>
     (ogrt_log_level s < OGRT_LOG_ERR \<longrightarrow> log_out s' = log_out s)"

lemma quiet_refl [simp, intro]: "quiet s s"
  by (simp add: quiet_def)

lemma quiet_trans [trans]: "quiet s t \<Longrightarrow> quiet t u \<Longrightarrow> quiet s u"
  by (auto simp: quiet_def)

lemma quiet_Log [simp]: "OGRT_LOG_ERR \<le> l \<Longrightarrow> quiet s (Log l t s') = quiet s s'"
  by (auto simp: quiet_def Log_def)

lemma quiet_deactivate [simp]: "quiet s (deactivate s') = quiet s s'"
  by (simp add: quiet_def deactivate_def)

lemma quiet_socket [simp]:
  "quiet s (s'\<lparr>daemon_socket := fd\<rparr>) = quiet s s'" "quiet s (s'\<lparr>host_name := h\<rparr>) = quiet s s'"
  by (simp_all add: quiet_def)

lemma quiet_act [simp]:
  "quiet s (act (OpenSocket fd) s') = quiet s s'" "quiet s (act (CloseFd fd) s') = quiet s s'"
  "quiet s (act (Connect fd) s') = quiet s s'"
  by (simp_all add: quiet_def act_def)

lemma extends_quiet: "extends s s' A \<Longrightarrow> quiet s s'"
  by (simp add: extends_def quiet_def core_def)

lemma free_block_quiet: "free_block p s = Some s' \<Longrightarrow> quiet s s'"
  by (auto dest!: free_block_Some simp: quiet_def)

lemma log_level_ERR [simp]: "OGRT_LOG_ERR \<le> OGRT_LOG_ERR" "OGRT_LOG_ERR \<le> OGRT_LOG_INFO"
  by (simp_all add: OGRT_LOG_ERR_def OGRT_LOG_INFO_def)

text \<open>The steps of the constructor.\<close>

lemma get_binpath_net:
  "get_binpath sys s = Some (p, s') \<Longrightarrow>
     quiet s s' \<and> net_actions s' = net_actions s \<and> daemon_socket s' = daemon_socket s"
  using binpath.grows [of sys s p s'] extends_quiet by (auto simp: extends_def core_def)

lemma own_net:
  "own r s = (p, s') \<Longrightarrow> quiet s s' \<and> net_actions s' = net_actions s \<and> daemon_socket s' = daemon_socket s"
  using extends_own [of r s p s'] extends_quiet by (auto simp: extends_def core_def)

lemma filter_loop_net:
  "filter_loop sys rs s = Some (r, s') \<Longrightarrow>
     quiet s s' \<and> net_actions s' = net_actions s \<and> daemon_socket s' = daemon_socket s"
proof (induction rs arbitrary: s)
  case (Cons r' rs)
  show ?case
  proof (cases "regcomp_ok sys r'")
    case False
    then show ?thesis using Cons.prems by (auto simp: Log_def deactivate_def quiet_def)
  next
    case True
    obtain x s1 where x: "own (Some r') s = (x, s1)" by (metis surj_pair)
    obtain b s2 path where b: "get_binpath sys s1 = Some (b, s2)" "text_of b = Some path"
      using Cons.prems True x by (auto split: Option.bind_splits)
    note 1 = own_net [OF x] and 2 = get_binpath_net [OF b(1)]
    show ?thesis
    proof (cases "regexec_matches sys r' path")
      case True
      then have "s' = deactivate s2"
        using Cons.prems \<open>regcomp_ok sys r'\<close> x b by simp
      then show ?thesis using 1 2 quiet_trans by (simp add: deactivate_def [symmetric]) (auto simp: deactivate_def)
    next
      case False
      then have "filter_loop sys rs s2 = Some (r, s')"
        using Cons.prems \<open>regcomp_ok sys r'\<close> x b by simp
      from Cons.IH [OF this] show ?thesis using 1 2 quiet_trans by metis
    qed
  qed
qed simp

lemma connect_loop_net:
  "connect_loop ps s = (ok, s') \<Longrightarrow> quiet s s' \<and> heap s' = heap s \<and>
     open_sockets (net_actions s')
       = open_sockets (net_actions s) + (if ok then {#daemon_socket s'#} else {#})"
proof (induction ps arbitrary: s)
  case (Cons p ps)
  show ?case
  proof (cases "socket_result p")
    case (Inl err)
    let ?s = "deactivate (Log OGRT_LOG_ERR (err @ newline) (s\<lparr>daemon_socket := -1\<rparr>))"
    have "quiet s ?s" "heap ?s = heap s" "net_actions ?s = net_actions s"
      by simp_all (simp_all add: deactivate_def Log_def)
    then show ?thesis using Cons.IH [of ?s] Cons.prems Inl quiet_trans by fastforce
  next
    case (Inr fd)
    let ?s = "act (OpenSocket fd) (s\<lparr>daemon_socket := fd\<rparr>)"
    show ?thesis
    proof (cases "connect_error p")
      case None
      then have "s' = act (Connect fd) ?s" "ok" using Cons.prems Inr by (simp_all add: Let_def)
      then show ?thesis by simp (simp add: act_def)
    next
      case (Some err)
      let ?t = "Log OGRT_LOG_ERR (err @ newline) (deactivate (act (CloseFd fd) ?s))"
      have "quiet s ?t" "heap ?t = heap s" "open_sockets (net_actions ?t) = open_sockets (net_actions s)"
        by simp_all (simp_all add: deactivate_def Log_def act_def)
      then show ?thesis
        using Cons.IH [of ?t] Cons.prems Inr Some quiet_trans by (fastforce simp: Let_def)
    qed
  qed
qed simp

lemma log_watching_net:
  assumes "log_watching sys s = Some s'"
  shows "quiet s s' \<and> net_actions s' = net_actions s \<and> daemon_socket s' = daemon_socket s"
proof (cases "OGRT_LOG_INFO \<le> ogrt_log_level s")
  case True
  then obtain b s1 t where b: "get_binpath sys s = Some (b, s1)" and s': "s' = Log OGRT_LOG_INFO t s1"
    using assms by (auto simp: log_watching_def split: Option.bind_splits)
  from get_binpath_net [OF b] show ?thesis unfolding s' by simp (simp add: Log_def)
qed (use assms in \<open>simp add: log_watching_def\<close>)

text \<open>What a part of the constructor comes to: it gives up, or the report is sent.\<close>

definition gave_up_or_sent :: "client \<Rightarrow> int option \<Rightarrow> client \<Rightarrow> bool" where
  "gave_up_or_sent s returned s' \<longleftrightarrow>
     ogrt_log_level s' = ogrt_log_level s \<and>
     (ogrt_log_level s < OGRT_LOG_ERR \<longrightarrow> log_out s' = log_out s) \<and>
     (returned = Some 1 \<and> datagrams (net_actions s') = datagrams (net_actions s)
        \<and> open_sockets (net_actions s') = open_sockets (net_actions s) \<or>
      returned = None \<and> length (datagrams (net_actions s')) = length (datagrams (net_actions s)) + 1
        \<and> open_sockets (net_actions s') = open_sockets (net_actions s) + {#daemon_socket s'#})"

lemma gave_up:
  assumes "quiet s t" and "open_sockets (net_actions t) = open_sockets (net_actions s)"
    and "OGRT_LOG_ERR \<le> l"
  shows "gave_up_or_sent s (Some 1) (deactivate (Log l text t))"
  using assms by (auto simp: gave_up_or_sent_def quiet_def deactivate_def Log_def)

lemma gave_up_or_sent_after:
  assumes "quiet s t" and "open_sockets (net_actions t) = open_sockets (net_actions s)"
    and "gave_up_or_sent t r s'"
  shows "gave_up_or_sent s r s'"
  using assms by (auto simp: gave_up_or_sent_def quiet_def)

lemma connect_and_send_net:
  assumes "connect_and_send cfg sys lib s = Some (r, s')"
  shows "gave_up_or_sent s r s'"
proof (cases "getaddrinfo sys")
  case (Inl err)
  then show ?thesis using assms gave_up [of s s] by (auto simp: connect_and_send_def)
next
  case (Inr addresses)
  obtain info s1 where info: "own (Some ''addresses'') s = (info, s1)" by (metis surj_pair)
  obtain ok s2 where ok: "connect_loop addresses s1 = (ok, s2)" by (metis surj_pair)
  have q: "quiet s s2" "open_sockets (net_actions s2)
      = open_sockets (net_actions s) + (if ok then {#daemon_socket s2#} else {#})"
    using own_net [OF info] connect_loop_net [OF ok] quiet_trans by auto
  show ?thesis
  proof (cases ok)
    case False
    then show ?thesis
      using assms Inr info ok q gave_up [of s s2] by (auto simp: connect_and_send_def)
  next
    case True
    obtain s3 s4 where s3: "free_block (block_of info) s2 = Some s3"
        "log_watching sys (Log OGRT_LOG_INFO (''Connected to socket.'' @ newline) s3) = Some s4"
      and sent: "ogrt_send_processinfo cfg sys lib s4 = Some (True, s')" "r = None"
      using assms Inr info ok True
      by (auto simp: connect_and_send_def Let_def split: Option.bind_splits if_splits
          dest: send_processinfo_core)
    have "quiet s2 s3 \<and> net_actions s3 = net_actions s2 \<and> daemon_socket s3 = daemon_socket s2"
      using free_block_quiet [OF s3(1)] free_block_only_heap [OF s3(1)] by auto
    moreover have "quiet s3 s4 \<and> net_actions s4 = net_actions s3 \<and> daemon_socket s4 = daemon_socket s3"
      using log_watching_net [OF s3(2)] by (auto simp: quiet_def Log_def OGRT_LOG_INFO_def OGRT_LOG_ERR_def split: if_splits)
    ultimately have "quiet s s4" "net_actions s4 = net_actions s2" "daemon_socket s4 = daemon_socket s2"
      using q(1) quiet_trans by (metis+)
    with send_processinfo_core [OF sent(1)] q(2) True sent(2) show ?thesis
      by (auto simp: gave_up_or_sent_def quiet_def core_def)
  qed
qed

lemma start_tracing_net:
  assumes "start_tracing cfg sys lib s = Some (r, s')"
  shows "gave_up_or_sent s r s'"
proof -
  let ?s = "s\<lparr>pid := getpid sys, parent_pid := getppid sys\<rparr>"
  have s: "gave_up_or_sent s r s' = gave_up_or_sent ?s r s'"
    by (simp add: gave_up_or_sent_def)
  show ?thesis
  proof (cases "gethostname sys HOST_NAME_MAX")
    case None
    then show ?thesis
      unfolding s using assms gave_up [of ?s ?s] by (auto simp: start_tracing_def)
  next
    case (Some h)
    obtain f s1 where f: "filter_loop sys (filter_regexps cfg) (?s\<lparr>host_name := h\<rparr>) = Some (f, s1)"
      using assms Some by (auto simp: start_tracing_def Let_def split: Option.bind_splits)
    have q: "quiet ?s s1" "net_actions s1 = net_actions ?s"
      using filter_loop_net [OF f] by (auto simp: quiet_def)
    show ?thesis
    proof (cases f)
      case True
      then show ?thesis
        unfolding s using assms Some f q
        by (auto simp: start_tracing_def gave_up_or_sent_def quiet_def)
    next
      case False
      then have "connect_and_send cfg sys lib s1 = Some (r, s')"
        using assms Some f by (simp add: start_tracing_def)
      from gave_up_or_sent_after [OF q(1) _ connect_and_send_net [OF this]] q(2)
      show ?thesis unfolding s by simp
    qed
  qed
qed

definition silent :: "system \<Rightarrow> bool" where
  "silent sys \<longleftrightarrow> ogrt_env_enabled (getenv sys) ''OGRT_SILENT''
     \<or> ogrt_env_enabled (getenv sys) ''OGRT_SCHLEICHFAHRT''"

lemma hook_net:
  assumes "ogrt_preload_init_hook cfg sys lib client_start = Some (r, s')"
  shows "open_sockets (net_actions s') = {#}"
    and "length (datagrams (net_actions s')) = (if ogrt_env_enabled (getenv sys) ''OGRT_ACTIVE'' \<and> r = 0 then 1 else 0)"
    and "ogrt_log_level s' = (if silent sys then OGRT_LOG_NOTHING else OGRT_LOG_INFO)"
    and "silent sys \<longrightarrow> log_out s' = []"
    and "r = 0 \<or> r = 1"
proof -
  define s0 where "s0 = print_debug_info cfg sys (set_log_level sys client_start)"
  have s0: "net_actions s0 = []" "daemon_socket s0 = -1" "ogrt_active s0 = False" "log_out s0 = []"
    "ogrt_log_level s0 = (if silent sys then OGRT_LOG_NOTHING else OGRT_LOG_INFO)"
    by (simp_all add: s0_def print_debug_info_def set_log_level_def client_start_def silent_def)
  have "open_sockets (net_actions s') = {#}
    \<and> length (datagrams (net_actions s')) = (if ogrt_env_enabled (getenv sys) ''OGRT_ACTIVE'' \<and> r = 0 then 1 else 0)
    \<and> ogrt_log_level s' = (if silent sys then OGRT_LOG_NOTHING else OGRT_LOG_INFO)
    \<and> (silent sys \<longrightarrow> log_out s' = []) \<and> (r = 0 \<or> r = 1)"
  proof (cases "ogrt_env_enabled (getenv sys) ''OGRT_ACTIVE''")
    case False
    then show ?thesis
      using assms s0 by (auto simp: ogrt_preload_init_hook_def s0_def [symmetric] act_def
          open_sockets_def datagrams_def)
  next
    case True
    let ?s = "s0\<lparr>ogrt_active := True\<rparr>"
    obtain ret t where run: "start_tracing cfg sys lib ?s = Some (ret, t)"
      and r: "(case ret of Some r' \<Rightarrow> (r', t) | None \<Rightarrow> (0, act (CloseFd (daemon_socket t)) t)) = (r, s')"
      using assms True s0 by (auto simp: ogrt_preload_init_hook_def s0_def [symmetric] split: Option.bind_splits)
    from start_tracing_net [OF run] r s0 True show ?thesis
      by (auto simp: gave_up_or_sent_def act_def OGRT_LOG_NOTHING_def OGRT_LOG_ERR_def)
  qed
  then show "open_sockets (net_actions s') = {#}"
    and "length (datagrams (net_actions s')) = (if ogrt_env_enabled (getenv sys) ''OGRT_ACTIVE'' \<and> r = 0 then 1 else 0)"
    and "ogrt_log_level s' = (if silent sys then OGRT_LOG_NOTHING else OGRT_LOG_INFO)"
    and "silent sys \<longrightarrow> log_out s' = []"
    and "r = 0 \<or> r = 1"
    by blast+
qed

section \<open>A report that goes out\<close>

definition attempt_fails :: "address \<Rightarrow> bool" where
  "attempt_fails p \<longleftrightarrow> (case socket_result p of Inl _ \<Rightarrow> True | Inr _ \<Rightarrow> connect_error p \<noteq> None)"

definition attempts :: "address list \<Rightarrow> net_action list" where
  "attempts ps =
     concat (map (\<lambda>p. case socket_result p of Inl _ \<Rightarrow> [] | Inr fd \<Rightarrow> [OpenSocket fd, CloseFd fd]) ps)"

lemma core_parts:
  "core s' = core s \<Longrightarrow> ogrt_active s' = ogrt_active s \<and> daemon_socket s' = daemon_socket s
     \<and> pid s' = pid s \<and> parent_pid s' = parent_pid s \<and> ogrt_log_level s' = ogrt_log_level s"
  by (simp add: core_def)

lemma connect_loop_fallback:
  assumes "list_all attempt_fails bad" and "socket_result good = Inr fd" and "connect_error good = None"
  shows "\<exists>s'. connect_loop (bad @ good # rest) s = (True, s')
    \<and> net_actions s' = net_actions s @ attempts bad @ [OpenSocket fd, Connect fd]
    \<and> daemon_socket s' = fd \<and> heap s' = heap s \<and> ogrt_active s' = (ogrt_active s \<and> bad = [])
    \<and> pid s' = pid s \<and> parent_pid s' = parent_pid s \<and> ogrt_log_level s' = ogrt_log_level s"
  using assms(1)
proof (induction bad arbitrary: s)
  case Nil
  then show ?case using assms(2,3) by (simp add: Let_def act_def attempts_def)
next
  case (Cons p bad)
  show ?case
  proof (cases "socket_result p")
    case (Inl err)
    let ?s = "deactivate (Log OGRT_LOG_ERR (err @ newline) (s\<lparr>daemon_socket := -1\<rparr>))"
    have "net_actions ?s = net_actions s" "heap ?s = heap s" "\<not> ogrt_active ?s" "pid ?s = pid s"
      "parent_pid ?s = parent_pid s" "ogrt_log_level ?s = ogrt_log_level s"
      by (simp_all add: deactivate_def Log_def)
    then show ?thesis
      using Cons.IH [of ?s] Cons.prems Inl by (simp add: attempts_def)
  next
    case (Inr fd')
    then obtain err where err: "connect_error p = Some err"
      using Cons.prems by (auto simp: attempt_fails_def)
    let ?t = "Log OGRT_LOG_ERR (err @ newline) (deactivate (act (CloseFd fd')
      (act (OpenSocket fd') (s\<lparr>daemon_socket := fd'\<rparr>))))"
    have "net_actions ?t = net_actions s @ [OpenSocket fd', CloseFd fd']" "heap ?t = heap s"
      "\<not> ogrt_active ?t" "pid ?t = pid s" "parent_pid ?t = parent_pid s"
      "ogrt_log_level ?t = ogrt_log_level s"
      by (simp_all add: deactivate_def Log_def act_def)
    then show ?thesis
      using Cons.IH [of ?t] Cons.prems Inr err by (simp add: attempts_def Let_def)
  qed
qed

lemma own_available:
  "own (Some t) s = (p, s') \<Longrightarrow> extends s s' (blocks_of [block_of p]) \<and> size (blocks_of [block_of p]) = 1
     \<and> text_of p = Some t"
  using extends_own [of "Some t" s p s'] by (auto simp: own_def Let_def)

lemma filter_loop_unmatched:
  assumes "memory_available sys" and "exe_link sys = Some target" and "is_c_string target"
    and "length target < PATH_MAX"
    and "list_all (\<lambda>r. regcomp_ok sys r \<and> \<not> regexec_matches sys r target) rs"
  shows "\<exists>s' A. filter_loop sys rs s = Some (False, s') \<and> extends s s' A \<and> size A = 2 * length rs"
  using assms(5)
proof (induction rs arbitrary: s)
  case (Cons r rs)
  obtain x s1 where x: "own (Some r) s = (x, s1)" by (metis surj_pair)
  obtain b s2 where b: "own (Some target) s1 = (b, s2)" by (metis surj_pair)
  from Cons.IH [of s2] Cons.prems obtain s' A where
    s': "filter_loop sys rs s2 = Some (False, s')" "extends s2 s' A" "size A = 2 * length rs" by auto
  have "extends s s' (blocks_of [block_of x] + blocks_of [block_of b] + A)"
    using extends_trans [OF extends_trans [OF own_available [OF x, THEN conjunct1]
      own_available [OF b, THEN conjunct1]] s'(2)] .
  moreover have "size (blocks_of [block_of x] + blocks_of [block_of b] + A) = 2 * length (r # rs)"
    using own_available [OF x] own_available [OF b] s'(3) by (simp del: blocks_of_simps)
  moreover have "filter_loop sys (r # rs) s = Some (False, s')"
    using Cons.prems x b s'(1) own_available [OF b] get_binpath_available [OF assms(1-4), of s1]
    by auto
  ultimately show ?case by blast
qed auto

lemma log_watching_available:
  assumes "memory_available sys" and "exe_link sys = Some target" and "is_c_string target"
    and "length target < PATH_MAX"
  shows "\<exists>s'. log_watching sys s = Some s' \<and> core s' = core s \<and> net_actions s' = net_actions s
    \<and> size (heap s') = size (heap s) + (if OGRT_LOG_INFO \<le> ogrt_log_level s then 1 else 0)"
proof (cases "OGRT_LOG_INFO \<le> ogrt_log_level s")
  case True
  obtain b s1 where b: "own (Some target) s = (b, s1)" by (metis surj_pair)
  obtain k where k: "b = Some (k, target)" using own_available [OF b] by auto
  have grown: "extends s s1 {#k#}" using extends_own [OF b] k by simp
  obtain msg where "log_watching sys s = Some (Log OGRT_LOG_INFO msg s1)"
    using True get_binpath_available [OF assms, of s] b k by (simp add: log_watching_def)
  moreover have "core (Log OGRT_LOG_INFO msg s1) = core s"
      "net_actions (Log OGRT_LOG_INFO msg s1) = net_actions s"
      "heap (Log OGRT_LOG_INFO msg s1) = heap s + {#k#}"
    using grown by (simp_all add: extends_def core_def Log_def)
  ultimately show ?thesis using True by simp
qed (simp add: log_watching_def)

text \<open>
  A process that reports itself: tracing is on, no filter matches its binary, and one of
  the server's addresses can be reached.
\<close>

definition reporting ::
    "config \<Rightarrow> system \<Rightarrow> protobuf_c \<Rightarrow> dl_phdr_info list \<Rightarrow> string list \<Rightarrow> address list \<Rightarrow> cint \<Rightarrow> bool" where
  "reporting cfg sys lib objs args bad fd \<longleftrightarrow>
     memory_available sys \<and> describable sys objs args \<and>
     ogrt_env_enabled (getenv sys) ''OGRT_ACTIVE'' \<and>
     gethostname sys HOST_NAME_MAX \<noteq> None \<and>
     list_all (\<lambda>r. regcomp_ok sys r \<and> \<not> regexec_matches sys r (the (exe_link sys))) (filter_regexps cfg) \<and>
     list_all attempt_fails bad \<and>
     (case getaddrinfo sys of
        Inl _ \<Rightarrow> False
      | Inr ps \<Rightarrow> take (length bad) ps = bad \<and> length bad < length ps \<and>
          socket_result (ps ! length bad) = Inr fd \<and> connect_error (ps ! length bad) = None) \<and>
     packable lib (described cfg sys objs args (getpid sys) (getppid sys))"

lemma connect_and_send_reports:
  assumes "reporting cfg sys lib objs args bad fd" and "pid s = getpid sys" and "parent_pid s = getppid sys"
  shows "\<exists>s'. connect_and_send cfg sys lib s = Some (None, s')
    \<and> net_actions s' = net_actions s @ attempts bad @ [OpenSocket fd, Connect fd,
        Send fd (frame 12 (packed_info lib (described cfg sys objs args (getpid sys) (getppid sys))))]
    \<and> daemon_socket s' = fd \<and> ogrt_active s' = (ogrt_active s \<and> bad = [])
    \<and> size (heap s') = size (heap s) + (if OGRT_LOG_INFO \<le> ogrt_log_level s then 1 else 0)"
proof -
  have mem_ok: "memory_available sys" and desc: "describable sys objs args"
    using assms(1) by (simp_all add: reporting_def)
  obtain target where target: "exe_link sys = Some target" "is_c_string target" "length target < PATH_MAX"
    using desc by (auto simp: describable_def split: option.splits)
  obtain ps where ps: "getaddrinfo sys = Inr ps" "take (length bad) ps = bad" "length bad < length ps"
      "socket_result (ps ! length bad) = Inr fd" "connect_error (ps ! length bad) = None"
    using assms(1) by (auto simp: reporting_def split: sum.splits)
  have split: "ps = bad @ ps ! length bad # drop (Suc (length bad)) ps"
    using id_take_nth_drop [OF ps(3)] ps(2) by simp
  obtain k s1 where k1: "own (Some ''addresses'') s = (Some (k, ''addresses''), s1)"
    by (simp add: own_def Let_def)
  have k: "own (Some ''addresses'') s = (Some (k, ''addresses''), s1)" "extends s s1 {#k#}"
    using extends_own [OF k1] k1 by simp_all
  from connect_loop_fallback [of bad "ps ! length bad" fd "drop (Suc (length bad)) ps" s1]
  obtain s2 where s2: "connect_loop ps s1 = (True, s2)"
      "net_actions s2 = net_actions s1 @ attempts bad @ [OpenSocket fd, Connect fd]"
      "daemon_socket s2 = fd" "heap s2 = heap s1" "ogrt_active s2 = (ogrt_active s1 \<and> bad = [])"
      "pid s2 = pid s1" "parent_pid s2 = parent_pid s1" "ogrt_log_level s2 = ogrt_log_level s1"
    using ps(4,5) assms(1) split by (auto simp: reporting_def)
  define s3 where "s3 = Log OGRT_LOG_INFO (''Connected to socket.'' @ newline) (s2\<lparr>heap := heap s\<rparr>)"
  have s1: "heap s1 = heap s + {#k#}" "core s1 = core s" "net_actions s1 = net_actions s"
    using k(2) by (simp_all add: extends_def)
  have freed: "free_block (Some k) s2 = Some (s2\<lparr>heap := heap s\<rparr>)"
    using s1 s2(4) by (simp add: free_block_def)
  have s3: "net_actions s3 = net_actions s2" "daemon_socket s3 = fd" "heap s3 = heap s"
      "ogrt_active s3 = (ogrt_active s \<and> bad = [])" "pid s3 = getpid sys" "parent_pid s3 = getppid sys"
      "ogrt_log_level s3 = ogrt_log_level s"
    using s2 core_parts [OF s1(2)] assms(2,3) by (simp_all add: s3_def Log_def)
  obtain s4 where s4: "log_watching sys s3 = Some s4" "core s4 = core s3" "net_actions s4 = net_actions s3"
      "size (heap s4) = size (heap s3) + (if OGRT_LOG_INFO \<le> ogrt_log_level s3 then 1 else 0)"
    using log_watching_available [OF mem_ok target] by blast
  note c4 = core_parts [OF s4(2)]
  obtain s5 where s5: "ogrt_send_processinfo cfg sys lib s4 = Some (True, s5)"
      "net_actions s5 = net_actions s4 @ [Send (daemon_socket s4)
         (frame 12 (packed_info lib (described cfg sys objs args (getpid sys) (getppid sys))))]"
      "heap s5 = heap s4" "core s5 = core s4"
    using send_processinfo_described [OF mem_ok desc, of lib cfg s4] assms(1) c4 s3
    by (auto simp: reporting_def)
  have "connect_and_send cfg sys lib s = Some (None, s5)"
    using ps(1) k(1) s2(1) freed s4(1) s5(1) by (simp add: connect_and_send_def s3_def)
  then show ?thesis
    using s5 s4 s3 s2(2) s1(3) c4 core_parts [OF s5(4)] by simp
qed

lemma hook_reports:
  assumes "reporting cfg sys lib objs args bad fd"
  shows "\<exists>s'. ogrt_preload_init_hook cfg sys lib client_start = Some (0, s')
    \<and> net_actions s' = attempts bad @ [OpenSocket fd, Connect fd,
        Send fd (frame 12 (packed_info lib (described cfg sys objs args (getpid sys) (getppid sys)))), CloseFd fd]
    \<and> ogrt_active s' = (bad = [])
    \<and> size (heap s') = 2 * length (filter_regexps cfg) + (if silent sys then 0 else 1)"
proof -
  have mem_ok: "memory_available sys" and desc: "describable sys objs args"
    and on: "ogrt_env_enabled (getenv sys) ''OGRT_ACTIVE''"
    using assms(1) by (simp_all add: reporting_def)
  obtain target where target: "exe_link sys = Some target" "is_c_string target" "length target < PATH_MAX"
    using desc by (auto simp: describable_def split: option.splits)
  obtain h where h: "gethostname sys HOST_NAME_MAX = Some h"
    using assms(1) by (auto simp: reporting_def)
  define s0 where "s0 = (print_debug_info cfg sys (set_log_level sys client_start))\<lparr>ogrt_active := True\<rparr>"
  have s0: "net_actions s0 = []" "daemon_socket s0 = -1" "ogrt_active s0" "heap s0 = {#}"
    "ogrt_log_level s0 = (if silent sys then OGRT_LOG_NOTHING else OGRT_LOG_INFO)"
    by (simp_all add: s0_def print_debug_info_def set_log_level_def client_start_def silent_def)
  have start: "daemon_socket (print_debug_info cfg sys (set_log_level sys client_start)) = -1"
    by (simp add: print_debug_info_def set_log_level_def client_start_def)
  define s1 where "s1 = s0\<lparr>pid := getpid sys, parent_pid := getppid sys, host_name := h\<rparr>"
  obtain s2 A where s2: "filter_loop sys (filter_regexps cfg) s1 = Some (False, s2)" "extends s1 s2 A"
      "size A = 2 * length (filter_regexps cfg)"
    using filter_loop_unmatched [OF mem_ok target, of "filter_regexps cfg" s1] assms target(1)
    by (auto simp: reporting_def)
  note e2 = core_parts [OF extends_core [OF s2(2)]]
  obtain s3 where s3: "connect_and_send cfg sys lib s2 = Some (None, s3)"
      "net_actions s3 = net_actions s2 @ attempts bad @ [OpenSocket fd, Connect fd,
        Send fd (frame 12 (packed_info lib (described cfg sys objs args (getpid sys) (getppid sys))))]"
      "daemon_socket s3 = fd" "ogrt_active s3 = (ogrt_active s2 \<and> bad = [])"
      "size (heap s3) = size (heap s2) + (if OGRT_LOG_INFO \<le> ogrt_log_level s2 then 1 else 0)"
    using connect_and_send_reports [OF assms, of s2] e2 by (auto simp: s1_def)
  have "start_tracing cfg sys lib s0 = Some (None, s3)"
    using h s2(1) s3(1) by (simp add: start_tracing_def s1_def)
  then have "ogrt_preload_init_hook cfg sys lib client_start = Some (0, act (CloseFd fd) s3)"
    using on s0 s3(3) start by (simp add: ogrt_preload_init_hook_def s0_def [symmetric])
  moreover have "size (heap s3) = 2 * length (filter_regexps cfg) + (if silent sys then 0 else 1)"
    using s3(5) e2 s0 s2(3) extends_heap [OF s2(2)]
    by (simp add: s1_def OGRT_LOG_NOTHING_def OGRT_LOG_INFO_def)
  ultimately show ?thesis
    using s3 e2 s0 extends_net [OF s2(2)] by (simp add: s1_def act_def)
qed

section \<open>Reports that do not go out\<close>

lemma filter_loop_append:
  "filter_loop sys (rs @ qs) s = Option.bind (filter_loop sys rs s)
     (\<lambda>(filtered, s). if filtered then Some (True, s) else filter_loop sys qs s)"
proof (induction rs arbitrary: s)
  case (Cons r rs)
  show ?case
    by (cases "own (Some r) s")
      (auto simp: Cons.IH Let_def split: Option.bind_splits)
qed simp

lemma hook_filtered:
  assumes "memory_available sys" and "ogrt_env_enabled (getenv sys) ''OGRT_ACTIVE''"
    and "exe_link sys = Some target" and "is_c_string target" and "length target < PATH_MAX"
    and "gethostname sys HOST_NAME_MAX \<noteq> None"
    and "filter_regexps cfg = before @ r # after" and "regcomp_ok sys r" and "regexec_matches sys r target"
    and "list_all (\<lambda>r. regcomp_ok sys r \<and> \<not> regexec_matches sys r target) before"
  shows "\<exists>s'. ogrt_preload_init_hook cfg sys lib client_start = Some (1, s')
    \<and> net_actions s' = [] \<and> \<not> ogrt_active s'"
proof -
  obtain h where h: "gethostname sys HOST_NAME_MAX = Some h" using assms(6) by auto
  define s0 where "s0 = (print_debug_info cfg sys (set_log_level sys client_start))\<lparr>ogrt_active := True\<rparr>"
  have s0: "net_actions s0 = []" "daemon_socket s0 = -1" "ogrt_active s0"
      "daemon_socket (print_debug_info cfg sys (set_log_level sys client_start)) = -1"
    by (simp_all add: s0_def print_debug_info_def set_log_level_def client_start_def)
  define s1 where "s1 = s0\<lparr>pid := getpid sys, parent_pid := getppid sys, host_name := h\<rparr>"
  obtain s2 A where s2: "filter_loop sys before s1 = Some (False, s2)" "extends s1 s2 A"
    using filter_loop_unmatched [OF assms(1,3-5,10)] by blast
  obtain x s3 where x: "own (Some r) s2 = (x, s3)" by (metis surj_pair)
  obtain b s4 where b: "own (Some target) s3 = (b, s4)" by (metis surj_pair)
  have "filter_loop sys (filter_regexps cfg) s1 = Some (True, deactivate s4)"
    using s2(1) x b assms(8,9) own_available [OF b] get_binpath_available [OF assms(1,3-5), of s3]
    by (auto simp: assms(7) filter_loop_append)
  then have "start_tracing cfg sys lib s0 = Some (Some 1, deactivate s4)"
    using h by (simp add: start_tracing_def s1_def)
  then have "ogrt_preload_init_hook cfg sys lib client_start = Some (1, deactivate s4)"
    using assms(2) s0 by (simp add: ogrt_preload_init_hook_def s0_def [symmetric])
  moreover have "net_actions s4 = []"
    using own_net [OF b] own_net [OF x] extends_net [OF s2(2)] s0(1) by (simp add: s1_def)
  ultimately show ?thesis by (simp add: deactivate_def)
qed

lemma hook_without_hostname:
  assumes "gethostname sys HOST_NAME_MAX = None" and "ogrt_env_enabled (getenv sys) ''OGRT_ACTIVE''"
  shows "\<exists>s'. ogrt_preload_init_hook cfg sys lib client_start = Some (1, s')
    \<and> net_actions s' = [] \<and> \<not> ogrt_active s'"
  using assms
  by (simp add: ogrt_preload_init_hook_def start_tracing_def print_debug_info_def set_log_level_def
      client_start_def deactivate_def Log_def Let_def)

lemma those_None: "None \<in> set xs \<Longrightarrow> those xs = None"
  by (induction xs) (auto split: option.splits)

lemma whitelisted_failed:
  assumes "n \<in> set ws" and "getenv sys n \<noteq> None" and "malloc_ok sys = (\<lambda>_. False)"
  shows "None \<in> set (map text_of (fst (whitelisted sys ws s)))"
  using assms(1)
proof (induction ws arbitrary: s)
  case (Cons w ws)
  have failed: "strdup sys t s = (None, s\<lparr>next_block := Suc (next_block s)\<rparr>)" for t s
    using assms(3) by (simp add: strdup_def own_def Let_def)
  show ?case
  proof (cases "getenv sys w")
    case None
    then show ?thesis using Cons assms(2) by auto
  next
    case (Some v)
    let ?s = "Log OGRT_LOG_ERR (''failed copying environment variable'' @ newline)
      (s\<lparr>next_block := Suc (next_block s)\<rparr>)"
    show ?thesis
      by (cases "whitelisted sys ws ?s") (simp add: Some failed Let_def)
  qed
qed simp

end
