(* ===== verification/Preload_Properties.thy ===== *)
theory Preload_Properties
  imports Preload_Spec
begin

text \<open>
  The properties of the preload hook: what a traced process reports and what reaches the
  server, what becomes of its memory, sockets and log, and when it stays silent.
\<close>

section \<open>A sample process\<close>

definition sample_objects :: "dl_phdr_info list" where
  "sample_objects =
     [\<lparr>dlpi_addr = 0, dlpi_name = '''', dlpi_phdr = []\<rparr>,
      \<lparr>dlpi_addr = 4096, dlpi_name = ''linux-vdso.so.1'', dlpi_phdr = []\<rparr>,
      \<lparr>dlpi_addr = 8192, dlpi_name = ''/lib/libc.so.6'', dlpi_phdr = []\<rparr>]"

definition sample_env :: "string \<Rightarrow> string option" where
  "sample_env = map_of [(''OGRT_ACTIVE'', ''yes''), (''LOADEDMODULES'', ''gcc::mpi''), (''LANG'', ''C'')]"

definition refused :: address where
  "refused = \<lparr>socket_result = Inr 3, connect_error = Some ''Connection refused''\<rparr>"

definition reachable :: address where
  "reachable = \<lparr>socket_result = Inr 3, connect_error = None\<rparr>"

definition sample_system :: system where
  "sample_system =
     \<lparr>getenv = sample_env, environ = [''LANG=C''], getpid = 42, getppid = 1,
      gethostname = (\<lambda>n. if 4 < n then Some ''node'' else None), gethostname_error = ''File name too long'',
      regcomp_ok = (\<lambda>_. True), regexec_matches = (\<lambda>r t. r = t),
      getaddrinfo = Inr [refused, reachable], last_error = ''Connection refused'',
      malloc_ok = (\<lambda>_. True), exe_link = Some ''/bin/ls'', cmdline_opened = True,
      cmdline_contents = Some (proc_cmdline [''ls'', ''-l'']), pw_name = Some ''me'',
      clock_seconds = 1700000000, mem = (\<lambda>_. None), realpath = Some,
      counted = sample_objects, visited = sample_objects\<rparr>"

definition sample_config :: config where
  "sample_config =
     \<lparr>net_host = ''localhost'', net_port = ''7971'', env_jobid = ''JOBID'', parser_version = ''1'',
      msg_send_username = True, msg_send_hostname = True, msg_send_environment = True,
      msg_send_cmdline = True, msg_send_loadedmodules = True,
      environment_whitelist = Some [''LANG''], filter_regexps = [''/bin/sh'']\<rparr>"

definition sample_info :: pb_process_info where
  "sample_info = described sample_config sample_system sample_objects [''ls'', ''-l''] 42 1"

definition sample_lib :: protobuf_c where
  "sample_lib =
     \<lparr>lib_get_packed_size = (\<lambda>_. 3), lib_pack = (\<lambda>_. [1, 2, 3]), lib_pack_to_buffer = (\<lambda>_. [1, 2, 3]),
      lib_unpack = (\<lambda>_ _. Some (MProcessInfo sample_info))\<rparr>"

lemma sample_reporting:
  "reporting sample_config sample_system sample_lib sample_objects [''ls'', ''-l''] [refused] 3"
  "silent sample_system = False"
  by (simp_all add: reporting_def memory_available_def describable_def objects_walkable_def
      sample_system_def sample_objects_def sample_config_def sample_env_def sample_lib_def packable_def
      walkable_def object_of_def signature_text_def proc_cmdline_def PATH_MAX_def HOST_NAME_MAX_def
      ogrt_env_enabled_def attempt_fails_def refused_def reachable_def silent_def)

lemma sample_parts:
  "memory_available sample_system" "describable sample_system sample_objects [''ls'', ''-l'']"
  "getpid sample_system = 42" "getppid sample_system = 1" "filter_regexps sample_config = [''/bin/sh'']"
  "packed_info sample_lib m = [1, 2, 3]" "packable sample_lib m"
  "lib_unpack sample_lib d bs = Some (MProcessInfo sample_info)"
  using sample_reporting(1)
  by (simp_all add: reporting_def sample_system_def sample_config_def sample_lib_def packable_def)

lemma sample_modules: "pi_loaded_modules sample_info
    = [ogrt__module__init\<lparr>pm_name := Some ''gcc''\<rparr>, ogrt__module__init\<lparr>pm_name := Some ''mpi''\<rparr>]"
  by (simp add: sample_info_def described_def described_modules_def sample_config_def
      sample_system_def sample_env_def)

section \<open>Properties\<close>

lemma reported_datagram:
  assumes "reporting cfg sys lib objs args bad fd"
  shows "\<exists>s'. ogrt_preload_init_hook cfg sys lib client_start = Some (0, s')
    \<and> datagrams (net_actions s')
      = [frame 12 (packed_info lib (described cfg sys objs args (getpid sys) (getppid sys)))]"
proof -
  have "datagrams (attempts ps) = []" for ps
    by (auto simp: attempts_def datagrams_def split: sum.splits)
  then show ?thesis
    using hook_reports [OF assms] by (auto simp: datagrams_def)
qed

text \<open>
  From one end to the other: when a traced process's constructor runs, exactly one
  datagram goes out; the server receives it into its buffer, and its goroutine hands to
  every output the description of the process: path, pids, time, command line, job, user,
  host, modules, environment, signature and shared objects.
\<close>

theorem report_reaches_server:
  assumes "reporting cfg sys lib objs args bad fd"
    and "m = described cfg sys objs args (getpid sys) (getppid sys)"
    and "unmarshal (packed_info lib m) = Some m"
    and "length (packed_info lib m) + 8 \<le> cap" and "cap < 2 ^ 32"
  shows "\<exists>s' datagram srv. ogrt_preload_init_hook cfg sys lib client_start = Some (0, s')
    \<and> datagrams (net_actions s') = [datagram]
    \<and> server_run (server_start cap) [Receive datagram, Run 0] srv \<and> \<not> panicked srv
    \<and> concat (map (goroutine unmarshal outputs) (delivered srv)) = map (\<lambda>c. (c, m)) outputs"
proof -
  let ?d = "frame 12 (packed_info lib m)"
  obtain s' where s': "ogrt_preload_init_hook cfg sys lib client_start = Some (0, s')"
      and sent: "datagrams (net_actions s') = [?d]"
    using reported_datagram [OF assms(1)] assms(2) by auto
  have "length ?d \<le> cap" using assms(4) by (simp add: frame_def)
  then obtain srv where srv: "server_run (server_start cap) [Receive ?d, Run 0] srv"
      "delivered srv = [(12, packed_info lib m)]" "\<not> panicked srv"
    using one_by_one_delivers [of "server_start cap" "[(12, packed_info lib m)]"] assms(5)
    by (auto simp: server_start_def)
  have "concat (map (goroutine unmarshal outputs) (delivered srv)) = map (\<lambda>c. (c, m)) outputs"
    using assms(3) srv(2) by (simp add: goroutine_def OGRT__MESSAGE_TYPE__ProcessInfoMsg_def)
  then show ?thesis using s' sent srv by blast
qed

theorem report_reaches_server_witness:
  "\<exists>s' datagram srv. ogrt_preload_init_hook sample_config sample_system sample_lib client_start = Some (0, s')
    \<and> datagrams (net_actions s') = [datagram]
    \<and> server_run (server_start 64) [Receive datagram, Run 0] srv \<and> \<not> panicked srv
    \<and> concat (map (goroutine (\<lambda>bs. if bs = [1, 2, 3] then Some sample_info else None) [''file'', ''tcp''])
          (delivered srv)) = [(''file'', sample_info), (''tcp'', sample_info)]"
  using report_reaches_server [OF sample_reporting(1), of sample_info
      "\<lambda>bs. if bs = [1, 2, 3] then Some sample_info else None" 64 "[''file'', ''tcp'']"]
  by (simp add: sample_parts sample_info_def [symmetric])

text \<open>
  C19: The network actions of a reporting process, in order: each address that cannot be
  reached is closed again, then the first good one is opened, connected, sent the report
  and closed, and the hook returns 0. After a fallback \<open>__ogrt_active\<close> stays false although
  the report was sent. The blocks left allocated are two per filter expression (the
  compiled expression and the path it was matched against) and, unless the hook is silent,
  the path printed in the log.
\<close>

theorem hook_sends_report:
  assumes "reporting cfg sys lib objs args bad fd"
  shows "\<exists>s'. ogrt_preload_init_hook cfg sys lib client_start = Some (0, s')
    \<and> net_actions s' = attempts bad @ [OpenSocket fd, Connect fd,
        Send fd (frame 12 (packed_info lib (described cfg sys objs args (getpid sys) (getppid sys)))), CloseFd fd]
    \<and> ogrt_active s' = (bad = [])
    \<and> size (heap s') = 2 * length (filter_regexps cfg) + (if silent sys then 0 else 1)"
  by (rule hook_reports [OF assms])

theorem hook_sends_report_witness:
  "\<exists>s'. ogrt_preload_init_hook sample_config sample_system sample_lib client_start = Some (0, s')
    \<and> net_actions s' = [OpenSocket 3, CloseFd 3, OpenSocket 3, Connect 3, Send 3 (frame 12 [1, 2, 3]), CloseFd 3]
    \<and> \<not> ogrt_active s' \<and> size (heap s') = 3"
  using hook_sends_report [OF sample_reporting(1)]
  by (simp add: sample_reporting(2) sample_parts attempts_def refused_def)

text \<open>
  C8: \<open>ogrt_send_processinfo\<close> refines the description of the process: when memory is
  available and the process can be described, it returns true, has sent one frame with
  exactly the description on the connected socket, and has freed every block it allocated.
\<close>

theorem process_info_sent:
  assumes "memory_available sys" and "describable sys objs args"
    and "packable lib (described cfg sys objs args (pid s) (parent_pid s))"
  shows "\<exists>s'. ogrt_send_processinfo cfg sys lib s = Some (True, s')
    \<and> net_actions s' = net_actions s
        @ [Send (daemon_socket s) (frame 12 (packed_info lib (described cfg sys objs args (pid s) (parent_pid s))))]
    \<and> heap s' = heap s"
  using send_processinfo_described [OF assms] by blast

theorem process_info_sent_witness:
  "\<exists>s'. ogrt_send_processinfo sample_config sample_system sample_lib client_start = Some (True, s')
    \<and> net_actions s' = [Send (-1) (frame 12 [1, 2, 3])] \<and> heap s' = {#}"
  using process_info_sent [OF sample_parts(1,2,7), where s = client_start]
  by (simp add: sample_parts client_start_def)



text \<open>
  C20: Whatever the system answers, when the constructor returns, every socket it opened
  is closed again, and it has sent one datagram when tracing is enabled and it returns 0,
  and none otherwise.
\<close>

theorem hook_network_safe:
  assumes "ogrt_preload_init_hook cfg sys lib client_start = Some (r, s')"
  shows "open_sockets (net_actions s') = {#}
    \<and> length (datagrams (net_actions s'))
        = (if ogrt_env_enabled (getenv sys) ''OGRT_ACTIVE'' \<and> r = 0 then 1 else 0)
    \<and> (r = 0 \<or> r = 1)"
  using hook_net(1,2,5) [OF assms] by blast

theorem hook_network_safe_witness:
  "\<exists>s'. ogrt_preload_init_hook sample_config sample_system sample_lib client_start = Some (0, s')
    \<and> open_sockets (net_actions s') = {#}"
proof -
  obtain s' where "ogrt_preload_init_hook sample_config sample_system sample_lib client_start = Some (0, s')"
    using hook_reports [OF sample_reporting(1)] by blast
  from hook_network_safe [OF this] this show ?thesis by blast
qed

text \<open>
  The log level is \<open>NOTHING\<close> or \<open>INFO\<close>, never \<open>DBG\<close>; and with \<open>OGRT_SILENT\<close> or
  \<open>OGRT_SCHLEICHFAHRT\<close> nothing at all is logged, not even errors.
\<close>

theorem log_level_quiet:
  assumes "ogrt_preload_init_hook cfg sys lib client_start = Some (r, s')"
  shows "ogrt_log_level s' = (if silent sys then OGRT_LOG_NOTHING else OGRT_LOG_INFO)
    \<and> (log_out s' = [] \<or> \<not> silent sys)"
  using hook_net(3,4) [OF assms] by blast

definition silent_system :: system where
  "silent_system = sample_system\<lparr>getenv := (sample_env)(''OGRT_SILENT'' \<mapsto> ''1''), getaddrinfo := Inl ''no host''\<rparr>"

theorem log_level_quiet_witness:
  "\<exists>s'. ogrt_preload_init_hook (sample_config\<lparr>filter_regexps := []\<rparr>) silent_system sample_lib client_start
      = Some (1, s') \<and> ogrt_log_level s' = 0 \<and> log_out s' = []"
proof -
  have "\<exists>s'. ogrt_preload_init_hook (sample_config\<lparr>filter_regexps := []\<rparr>) silent_system sample_lib client_start
      = Some (1, s')"
    by (simp add: ogrt_preload_init_hook_def print_debug_info_def set_log_level_def start_tracing_def
        silent_system_def sample_system_def sample_env_def ogrt_env_enabled_def client_start_def
        sample_config_def HOST_NAME_MAX_def connect_and_send_def)
  then obtain s' where s': "ogrt_preload_init_hook (sample_config\<lparr>filter_regexps := []\<rparr>) silent_system
      sample_lib client_start = Some (1, s')" ..
  have "silent silent_system" by (simp add: silent_def silent_system_def ogrt_env_enabled_def)
  with log_level_quiet [OF s'] s' show ?thesis by (simp add: OGRT_LOG_NOTHING_def)
qed

text \<open>
  C21: A process whose binary matches one of the filter expressions is not traced: the hook
  returns 1, is inactive, and has performed no network action at all.
\<close>

theorem filtered_process_silent:
  assumes "memory_available sys" and "ogrt_env_enabled (getenv sys) ''OGRT_ACTIVE''"
    and "exe_link sys = Some target" and "is_c_string target" and "length target < PATH_MAX"
    and "gethostname sys HOST_NAME_MAX \<noteq> None"
    and "filter_regexps cfg = before @ r # after" and "regcomp_ok sys r" and "regexec_matches sys r target"
    and "list_all (\<lambda>r. regcomp_ok sys r \<and> \<not> regexec_matches sys r target) before"
  shows "\<exists>s'. ogrt_preload_init_hook cfg sys lib client_start = Some (1, s')
    \<and> net_actions s' = [] \<and> \<not> ogrt_active s'"
  using hook_filtered [OF assms] .

theorem filtered_process_silent_witness:
  "\<exists>s'. ogrt_preload_init_hook (sample_config\<lparr>filter_regexps := [''/bin/sh'', ''/bin/ls'']\<rparr>)
      sample_system sample_lib client_start = Some (1, s') \<and> net_actions s' = [] \<and> \<not> ogrt_active s'"
  by (rule filtered_process_silent [where target = "''/bin/ls''" and before = "[''/bin/sh'']"
        and r = "''/bin/ls''" and after = "[]"])
    (simp_all add: memory_available_def sample_system_def sample_config_def sample_env_def
      ogrt_env_enabled_def HOST_NAME_MAX_def PATH_MAX_def)

text \<open>
  A host whose name has the full \<open>HOST_NAME_MAX\<close> characters is never traced: the hook
  passes \<open>HOST_NAME_MAX\<close>, not the size of its buffer, to \<open>gethostname\<close>, which leaves no
  room for the terminator; \<open>ogrt_get_hostname\<close>, called later, would have got the name.
\<close>

theorem longest_host_name:
  assumes "gethostname sys = (\<lambda>n. if length h < n then Some h else None)" and "length h = HOST_NAME_MAX"
    and "ogrt_env_enabled (getenv sys) ''OGRT_ACTIVE''"
  shows "\<exists>s'. ogrt_preload_init_hook cfg sys lib client_start = Some (1, s')
    \<and> net_actions s' = [] \<and> \<not> ogrt_active s' \<and> ogrt_get_hostname True (gethostname sys) = Some h"
  using hook_without_hostname [of sys cfg lib] assms by (simp add: ogrt_get_hostname_def)

definition long_name_system :: system where
  "long_name_system = sample_system\<lparr>gethostname :=
     (\<lambda>n. if length (replicate 64 CHR ''h'') < n then Some (replicate 64 CHR ''h'') else None)\<rparr>"

theorem longest_host_name_witness:
  "\<exists>s'. ogrt_preload_init_hook sample_config long_name_system sample_lib client_start = Some (1, s')
    \<and> net_actions s' = []"
proof -
  have "gethostname long_name_system
      = (\<lambda>n. if length (replicate 64 CHR ''h'') < n then Some (replicate 64 CHR ''h'') else None)"
    by (simp add: long_name_system_def)
  moreover have "ogrt_env_enabled (getenv long_name_system) ''OGRT_ACTIVE''"
    by (simp add: long_name_system_def sample_system_def sample_env_def ogrt_env_enabled_def)
  ultimately show ?thesis
    using longest_host_name [of long_name_system "replicate 64 CHR ''h''" sample_config sample_lib]
    by (auto simp: HOST_NAME_MAX_def)
qed

text \<open>
  Sending needs at least two loaded objects (the binary and the vdso): with fewer,
  the number of objects of the message wraps around and the code has no defined result.
\<close>

theorem too_few_objects:
  assumes "objects_walkable sys objs" and "length objs < 2"
  shows "ogrt_send_processinfo cfg sys lib s = None"
proof -
  have "sint (so_size (infos_of sys objs)) < 2"
    using assms by (simp add: infos_of_def sint_of_nat objects_walkable_def)
  then have "shared_object_ptr (mem sys) (infos_of sys objs) = None"
    by (simp add: shared_object_ptr_def)
  then have "collect_info cfg sys s = None"
    using get_loaded_so_Some [OF assms(1), of s]
    by (cases "get_loaded_so sys s") (auto simp: collect_info_def)
  then show ?thesis by (simp add: ogrt_send_processinfo_def)
qed

theorem too_few_objects_witness:
  "ogrt_send_processinfo sample_config
     (sample_system\<lparr>counted := take 1 sample_objects, visited := take 1 sample_objects\<rparr>) sample_lib client_start
    = None"
  by (rule too_few_objects [where objs = "take 1 sample_objects"])
    (simp_all add: objects_walkable_def sample_objects_def walkable_def)

text \<open>
  The loaded modules are counted and copied with \<open>strtok\<close>, which yields exactly the
  parts between colons that are not empty, in their order.
\<close>

theorem modules_are_the_parts:
  "strtok_tokens CHR '':'' s = filter (\<lambda>p. p \<noteq> []) (parts CHR '':'' s)"
  by (rule strtok_parts)

text \<open>
  When \<open>asprintf\<close> fails for a whitelisted variable, only a message is logged: the
  undefined pointer is counted, and packing the message has no defined result.
\<close>

theorem failed_copy_is_sent:
  assumes "msg_send_environment cfg" and "environment_whitelist cfg = Some whitelist"
    and "n \<in> set whitelist" and "getenv sys n \<noteq> None" and "malloc_ok sys = (\<lambda>_. False)"
  shows "environment cfg sys s = None"
proof -
  have "None \<in> set (map text_of (fst (whitelisted sys whitelist s)))"
    by (rule whitelisted_failed [OF assms(3-5)])
  then have "those (map text_of (fst (whitelisted sys whitelist s))) = None"
    by (rule those_None)
  then show ?thesis
    using assms(1,2) by (cases "whitelisted sys whitelist s") (simp add: environment_def)
qed

theorem failed_copy_is_sent_witness:
  "environment sample_config (sample_system\<lparr>malloc_ok := (\<lambda>_. False)\<rparr>) client_start = None"
  by (rule failed_copy_is_sent [where n = "''LANG''" and whitelist = "[''LANG'']"])
    (simp_all add: sample_config_def sample_system_def sample_env_def)

end
