(* ===== verification/Output.thy ===== *)
theory Output
  imports Go_Path Go_Messages
begin

text \<open>
  The outputs of the server (server/src/output): JSON files, JSON over a stream, and an
  Elasticsearch index. Each operation that another worker can come in between is a
  definition of its own; \<open>PersistProcessInfo\<close> of an output is their composition. The parts of
  Go's library that turn structs into JSON and back are the parameter \<open>codec\<close>.

  A Go function that does not return either panics or ends the program with
  \<open>log.Fatal\<close>: the left side of a sum, or the exit after the effects so far.
\<close>

datatype go_exit = Panic | Fatal

record codec =
  Marshal_job :: "go_job_info \<Rightarrow> byte list option"
  Unmarshal_job :: "byte list \<Rightarrow> go_job_info option"
  Marshal_process :: "go_process_info \<Rightarrow> byte list option"

section \<open>Files\<close>

text \<open>
  The file system by cleaned paths: the contents of files, the directories, the paths that
  the system refuses for another reason (permission, name too long), and the number of
  bytes that fit in a file, when there is such a limit. Symbolic links are not modelled, and
  neither is a directory in which nothing can be made although it can be searched: when there
  is nothing at a path and its parent exists, \<open>Mkdir\<close> succeeds.
\<close>

record filesystem =
  fs_files :: "string \<Rightarrow> byte list option"
  fs_dirs :: "string list"
  fs_denied :: "string list"
  fs_capacity :: "nat option"

datatype stat_result = Exists | NotExist | StatError

definition Stat :: "filesystem \<Rightarrow> string \<Rightarrow> stat_result" where
  "Stat fs p =
     (if path_clean p \<in> set (fs_denied fs) then StatError
      else if fs_files fs (path_clean p) \<noteq> None \<or> path_clean p \<in> set (fs_dirs fs) then Exists
      else NotExist)"

definition Mkdir :: "filesystem \<Rightarrow> string \<Rightarrow> filesystem" where
  "Mkdir fs p =
     (if Stat fs p = NotExist \<and> parent_dir p \<in> set (fs_dirs fs)
      then fs\<lparr>fs_dirs := path_clean p # fs_dirs fs\<rparr> else fs)"

definition ReadFile :: "filesystem \<Rightarrow> string \<Rightarrow> byte list option" where
  "ReadFile fs p =
     (if path_clean p \<in> set (fs_denied fs) then None else fs_files fs (path_clean p))"

text \<open>\<open>os.Create\<close> truncates a file that exists; \<open>None\<close> is the nil file of an error.\<close>

definition Create :: "filesystem \<Rightarrow> string \<Rightarrow> filesystem option" where
  "Create fs p =
     (if path_clean p \<in> set (fs_denied fs) \<or> path_clean p \<in> set (fs_dirs fs)
         \<or> parent_dir p \<notin> set (fs_dirs fs) then None
      else Some (fs\<lparr>fs_files := (fs_files fs)(path_clean p := Some [])\<rparr>))"

text \<open>\<open>file.Write\<close> from the start of an open file: what fits is written over what is there.\<close>

definition Write :: "filesystem \<Rightarrow> string \<Rightarrow> byte list \<Rightarrow> bool \<times> filesystem" where
  "Write fs p b =
     (let old = (case fs_files fs (path_clean p) of None \<Rightarrow> [] | Some c \<Rightarrow> c);
          fit = (case fs_capacity fs of None \<Rightarrow> b | Some n \<Rightarrow> take n b) in
      (fit = b,
       fs\<lparr>fs_files := (fs_files fs)(path_clean p := Some (fit @ drop (length fit) old))\<rparr>))"

section \<open>The writers\<close>

text \<open>
  The state of the three implementations of \<open>OGWriter\<close>: the directory; the error that an
  encoder keeps, with the bytes that went out; the address and the index of the client.
\<close>

datatype writer =
    JsonFileOutput string
  | JsonOverTcpOutput bool "byte list"
  | JsonElasticSearchOutput string string

text \<open>What the network answers: \<open>net.Dial\<close> and \<open>elastic.NewClient\<close>.\<close>

record network =
  Dial :: "string \<Rightarrow> string \<Rightarrow> bool"
  NewClient :: "string \<Rightarrow> bool"

definition JsonFile_Open :: "string \<Rightarrow> filesystem \<Rightarrow> (go_exit + writer) \<times> filesystem" where
  "JsonFile_Open params fs =
     (if params = [] then (Inl Panic, fs)
      else case Stat fs params of
        Exists \<Rightarrow> (Inr (JsonFileOutput params), fs)
      | NotExist \<Rightarrow> (Inr (JsonFileOutput params), Mkdir fs params)
      | StatError \<Rightarrow> (Inl Panic, fs))"

definition JsonOverTcp_Open :: "network \<Rightarrow> string \<Rightarrow> go_exit + writer" where
  "JsonOverTcp_Open net params =
     (case split_at CHR '':'' params of
        [protocol, host, port] \<Rightarrow>
          if Dial net protocol (host @ '':'' @ port) then Inr (JsonOverTcpOutput False []) else Inl Fatal
      | _ \<Rightarrow> Inl Panic)"

definition JsonElasticSearch_Open :: "network \<Rightarrow> string \<Rightarrow> go_exit + writer" where
  "JsonElasticSearch_Open net params =
     (case split_at CHR '':'' params of
        [protocol, host, port, index] \<Rightarrow>
          (let url = protocol @ ''://'' @ host @ '':'' @ port in
           if NewClient net url then Inr (JsonElasticSearchOutput url index) else Inl Fatal)
      | _ \<Rightarrow> Inl Panic)"

section \<open>Persisting a process\<close>

text \<open>JSON files: lines 41 to 52, 53 to 58, and 60 to 64 of output/json_file.go.\<close>

definition job_path :: "string \<Rightarrow> go_process_info \<Rightarrow> string" where
  "job_path fw_path process_info = path_join fw_path (GetJobId process_info)"

definition read_job_info ::
    "codec \<Rightarrow> filesystem \<Rightarrow> string \<Rightarrow> go_process_info \<Rightarrow> go_exit + go_job_info" where
  "read_job_info cd fs fw_path process_info =
     (case ReadFile fs (job_path fw_path process_info) of
        Some json_bytes \<Rightarrow>
          (case Unmarshal_job cd json_bytes of None \<Rightarrow> Inl Panic | Some job_info \<Rightarrow> Inr job_info)
      | None \<Rightarrow> Inr \<lparr>job_JobId = Some (GetJobId process_info), Processes = []\<rparr>)"

definition marshal_appended :: "codec \<Rightarrow> go_job_info \<Rightarrow> go_process_info \<Rightarrow> go_exit + byte list" where
  "marshal_appended cd job_info process_info =
     (case Marshal_job cd (job_info\<lparr>Processes := Processes job_info @ [process_info]\<rparr>) of
        None \<Rightarrow> Inl Panic
      | Some b \<Rightarrow> Inr b)"

text \<open>A nil file: \<open>Write\<close> reports an error, and \<open>log.Panic\<close> follows.\<close>

definition create_job_file :: "filesystem \<Rightarrow> string \<Rightarrow> go_process_info \<Rightarrow> go_exit + filesystem" where
  "create_job_file fs fw_path process_info =
     (case Create fs (job_path fw_path process_info) of None \<Rightarrow> Inl Panic | Some fs' \<Rightarrow> Inr fs')"

definition write_job_file ::
    "filesystem \<Rightarrow> string \<Rightarrow> go_process_info \<Rightarrow> byte list \<Rightarrow> go_exit option \<times> filesystem" where
  "write_job_file fs fw_path process_info b =
     (case Write fs (job_path fw_path process_info) b of
        (ok, fs') \<Rightarrow> (if ok then None else Some Panic, fs'))"

definition JsonFile_PersistProcessInfo ::
    "codec \<Rightarrow> string \<Rightarrow> go_process_info \<Rightarrow> filesystem \<Rightarrow> go_exit option \<times> filesystem" where
  "JsonFile_PersistProcessInfo cd fw_path process_info fs =
     (case read_job_info cd fs fw_path process_info of
        Inl x \<Rightarrow> (Some x, fs)
      | Inr job_info \<Rightarrow>
          (case marshal_appended cd job_info process_info of
             Inl x \<Rightarrow> (Some x, fs)
           | Inr b \<Rightarrow>
               (case create_job_file fs fw_path process_info of
                  Inl x \<Rightarrow> (Some x, fs)
                | Inr fs' \<Rightarrow> write_job_file fs' fw_path process_info b)))"

text \<open>
  JSON over a stream. The encoder appends a newline to every value, and keeps the first
  error of the connection: from then on it writes nothing more. The error is only logged.
\<close>

definition JsonOverTcp_PersistProcessInfo :: "codec \<Rightarrow> bool \<Rightarrow> go_process_info \<Rightarrow> writer \<Rightarrow> writer" where
  "JsonOverTcp_PersistProcessInfo cd connected process_info w =
     (case w of
        JsonOverTcpOutput failed sent \<Rightarrow>
          if failed then w
          else (case Marshal_process cd process_info of
                  None \<Rightarrow> w
                | Some b \<Rightarrow> if connected then JsonOverTcpOutput False (sent @ b @ [10])
                           else JsonOverTcpOutput True sent)
      | _ \<Rightarrow> w)"

text \<open>
  Elasticsearch: the time is scaled in the message itself, which is shared with the other
  outputs (line 44), and the message is then indexed (lines 45 to 48).
\<close>

definition scale_time :: "go_process_info \<Rightarrow> go_exit + go_process_info" where
  "scale_time process_info =
     (case Time process_info of
        None \<Rightarrow> Inl Panic
      | Some t \<Rightarrow> Inr (process_info\<lparr>Time := Some (t * 1000)\<rparr>))"

type_synonym documents = "string \<times> string \<Rightarrow> byte list list"

definition index_process ::
    "codec \<Rightarrow> bool \<Rightarrow> string \<Rightarrow> string \<Rightarrow> go_process_info \<Rightarrow> documents \<Rightarrow> documents" where
  "index_process cd accepted url index process_info docs =
     (case Marshal_process cd process_info of
        None \<Rightarrow> docs
      | Some b \<Rightarrow> if accepted then docs((url, index) := docs (url, index) @ [b]) else docs)"

definition JsonElasticSearch_PersistProcessInfo ::
    "codec \<Rightarrow> bool \<Rightarrow> string \<Rightarrow> string \<Rightarrow> go_process_info \<Rightarrow> documents
      \<Rightarrow> (go_exit + go_process_info) \<times> documents" where
  "JsonElasticSearch_PersistProcessInfo cd accepted url index process_info docs =
     (case scale_time process_info of
        Inl x \<Rightarrow> (Inl x, docs)
      | Inr m \<Rightarrow> (Inr m, index_process cd accepted url index m docs))"

end
