(* ===== verification/Dispatch.thy ===== *)
theory Dispatch
  imports Output Server
begin

text \<open>
  How messages get from the receive loop to the outputs (server/src/ogrt-server.go): the
  start of the workers, the unbuffered channel of every output, the workers of
  \<open>writeToOutput\<close>, and the whole server as a step relation. Messages are shared by address
  between the outputs, since the channels carry pointers.
\<close>

section \<open>Starting the workers\<close>

text \<open>
  An entry of the configuration. \<open>Writer\<close> is nil in it: the file does not set it, and the
  loop assigns to the writer of a copy, \<open>output_\<close>.
\<close>

record output_config =
  Type :: string
  Params :: string
  Workers :: int
  Writer :: "writer option"

definition open_writer ::
    "network \<Rightarrow> string \<Rightarrow> string \<Rightarrow> filesystem \<Rightarrow> (go_exit + writer) \<times> filesystem" where
  "open_writer net type params fs =
     (if type = ''JsonOverTcp'' then (JsonOverTcp_Open net params, fs)
      else if type = ''JsonElasticSearch'' then (JsonElasticSearch_Open net params, fs)
      else if type = ''JsonFile'' then JsonFile_Open params fs
      else (Inl Fatal, fs))"

text \<open>
  What a worker is doing: waiting for a message, or at a point of \<open>PersistProcessInfo\<close>
  between two operations on what it shares with other workers. The numbers are addresses of
  messages. Every worker has a writer of its own, so the mutex of a writer is never contended.
\<close>

datatype phase =
    Idle
  | Received nat
  | Read_job nat go_job_info
  | Marshalled nat "byte list"
  | Created nat "byte list"
  | Scaled nat

record worker =
  w_output :: string
  w_id :: nat
  w_writer :: writer
  w_phase :: phase

fun start_workers ::
    "network \<Rightarrow> string \<Rightarrow> output_config \<Rightarrow> nat list \<Rightarrow> filesystem
      \<Rightarrow> (go_exit + worker list) \<times> filesystem" where
  "start_workers net name out [] fs = (Inr [], fs)"
| "start_workers net name out (i # is) fs =
     (case open_writer net (Type out) (Params out) fs of
        (Inl x, fs') \<Rightarrow> (Inl x, fs')
      | (Inr wr, fs') \<Rightarrow>
          (case start_workers net name out is fs' of
             (Inl x, fs'') \<Rightarrow> (Inl x, fs'')
           | (Inr ws, fs'') \<Rightarrow>
               (Inr (\<lparr>w_output = name, w_id = i, w_writer = wr, w_phase = Idle\<rparr> # ws), fs'')))"

fun instantiate_outputs ::
    "network \<Rightarrow> (string \<times> output_config) list \<Rightarrow> filesystem
      \<Rightarrow> (go_exit + worker list) \<times> filesystem" where
  "instantiate_outputs net [] fs = (Inr [], fs)"
| "instantiate_outputs net ((name, out) # outs) fs =
     (case start_workers net name out [0..<nat (Workers out)] fs of
        (Inl x, fs') \<Rightarrow> (Inl x, fs')
      | (Inr ws, fs') \<Rightarrow>
          (case instantiate_outputs net outs fs' of
             (Inl x, fs'') \<Rightarrow> (Inl x, fs'')
           | (Inr ws', fs'') \<Rightarrow> (Inr (ws @ ws'), fs'')))"

text \<open>
  The signal handler closes the writers of the configuration: calling a method of a nil
  interface panics. Otherwise the program exits with status 0.
\<close>

fun close_outputs :: "output_config list \<Rightarrow> go_exit + unit" where
  "close_outputs [] = Inr ()"
| "close_outputs (out # outs) =
     (case Writer out of None \<Rightarrow> Inl Panic | Some _ \<Rightarrow> close_outputs outs)"

section \<open>A worker's steps\<close>

record world =
  messages :: "go_process_info list"
  files :: filesystem
  documents :: documents

text \<open>
  One step of \<open>PersistProcessInfo\<close>; the boolean is the answer of the network, where it is asked.
  The worker is idle again when the function has returned.
\<close>

definition worker_step ::
    "codec \<Rightarrow> bool \<Rightarrow> worker \<Rightarrow> 'a world_scheme \<Rightarrow> worker \<times> 'a world_scheme \<times> go_exit option" where
  "worker_step cd answer w s =
     (case w_phase w of
        Idle \<Rightarrow> (w, s, None)
      | Received a \<Rightarrow>
          (case w_writer w of
             JsonFileOutput dir \<Rightarrow>
               (case read_job_info cd (files s) dir (messages s ! a) of
                  Inl x \<Rightarrow> (w, s, Some x)
                | Inr job_info \<Rightarrow> (w\<lparr>w_phase := Read_job a job_info\<rparr>, s, None))
           | JsonOverTcpOutput failed sent \<Rightarrow>
               (w\<lparr>w_writer := JsonOverTcp_PersistProcessInfo cd answer (messages s ! a) (w_writer w),
                  w_phase := Idle\<rparr>, s, None)
           | JsonElasticSearchOutput url index \<Rightarrow>
               (case scale_time (messages s ! a) of
                  Inl x \<Rightarrow> (w, s, Some x)
                | Inr m \<Rightarrow> (w\<lparr>w_phase := Scaled a\<rparr>, s\<lparr>messages := (messages s)[a := m]\<rparr>, None)))
      | Read_job a job_info \<Rightarrow>
          (case marshal_appended cd job_info (messages s ! a) of
             Inl x \<Rightarrow> (w, s, Some x)
           | Inr b \<Rightarrow> (w\<lparr>w_phase := Marshalled a b\<rparr>, s, None))
      | Marshalled a b \<Rightarrow>
          (case w_writer w of
             JsonFileOutput dir \<Rightarrow>
               (case create_job_file (files s) dir (messages s ! a) of
                  Inl x \<Rightarrow> (w, s, Some x)
                | Inr fs \<Rightarrow> (w\<lparr>w_phase := Created a b\<rparr>, s\<lparr>files := fs\<rparr>, None))
           | _ \<Rightarrow> (w, s, None))
      | Created a b \<Rightarrow>
          (case w_writer w of
             JsonFileOutput dir \<Rightarrow>
               (case write_job_file (files s) dir (messages s ! a) b of
                  (Some x, fs) \<Rightarrow> (w, s\<lparr>files := fs\<rparr>, Some x)
                | (None, fs) \<Rightarrow> (w\<lparr>w_phase := Idle\<rparr>, s\<lparr>files := fs\<rparr>, None))
           | _ \<Rightarrow> (w, s, None))
      | Scaled a \<Rightarrow>
          (case w_writer w of
             JsonElasticSearchOutput url index \<Rightarrow>
               (w\<lparr>w_phase := Idle\<rparr>,
                s\<lparr>documents := index_process cd answer url index (messages s ! a) (documents s)\<rparr>, None)
           | _ \<Rightarrow> (w, s, None)))"

section \<open>Channels\<close>

text \<open>
  \<open>channels\<close> are the names of the outputs; \<open>sending\<close> the goroutines of the receive loop, each
  with the message and the channels it still has to send it to; \<open>persisted\<close> the messages that
  a worker has finished with, by output, in the order of the log lines \<open>Done\<close>. \<open>exited\<close> is
  set when a panic or a fatal error has ended the program.
\<close>

record dispatcher = world +
  channels :: "string list"
  sending :: "(nat \<times> string list) list"
  workers :: "worker list"
  persisted :: "(string \<times> nat) list"
  exited :: "go_exit option"

definition message_of :: "phase \<Rightarrow> nat option" where
  "message_of p =
     (case p of Idle \<Rightarrow> None | Received a \<Rightarrow> Some a | Read_job a _ \<Rightarrow> Some a | Marshalled a _ \<Rightarrow> Some a
      | Created a _ \<Rightarrow> Some a | Scaled a \<Rightarrow> Some a)"

text \<open>The worker \<open>k\<close>, which has a message, takes a step.\<close>

definition work :: "codec \<Rightarrow> nat \<Rightarrow> bool \<Rightarrow> dispatcher \<Rightarrow> dispatcher" where
  "work cd k answer s =
     (let w = workers s ! k in
      case worker_step cd answer w s of
        (w', s', ex) \<Rightarrow>
          s'\<lparr>workers := (workers s)[k := w'],
             persisted := persisted s
               @ (case (message_of (w_phase w), message_of (w_phase w')) of
                    (Some a, None) \<Rightarrow> [(w_output w, a)]
                  | _ \<Rightarrow> []),
             exited := ex\<rparr>)"

datatype dispatch_event =
    Decoded go_process_info "string list"
  | Handoff nat nat
  | Work nat bool

text \<open>
  \<open>decoded\<close>: a goroutine has unmarshalled a message; a range over a Go map goes through the
  channels in any order. \<open>handoff\<close>: a send on an unbuffered channel and its receive happen
  together, when a worker of the output waits.
\<close>

inductive dispatch_step :: "codec \<Rightarrow> dispatcher \<Rightarrow> dispatch_event \<Rightarrow> dispatcher \<Rightarrow> bool" for cd where
  decoded: "exited s = None \<Longrightarrow> mset order = mset (channels s) \<Longrightarrow>
      dispatch_step cd s (Decoded m order)
        (s\<lparr>messages := messages s @ [m], sending := sending s @ [(length (messages s), order)]\<rparr>)"
| handoff: "exited s = None \<Longrightarrow> g < length (sending s) \<Longrightarrow> sending s ! g = (a, c # cs) \<Longrightarrow>
      k < length (workers s) \<Longrightarrow> w_output (workers s ! k) = c \<Longrightarrow> w_phase (workers s ! k) = Idle \<Longrightarrow>
      dispatch_step cd s (Handoff g k)
        (s\<lparr>sending := (sending s)[g := (a, cs)],
           workers := (workers s)[k := (workers s ! k)\<lparr>w_phase := Received a\<rparr>]\<rparr>)"
| work: "exited s = None \<Longrightarrow> k < length (workers s) \<Longrightarrow> w_phase (workers s ! k) \<noteq> Idle \<Longrightarrow>
      dispatch_step cd s (Work k answer) (work cd k answer s)"

inductive_cases dispatch_stepE: "dispatch_step cd s e s'"

inductive dispatch_run :: "codec \<Rightarrow> dispatcher \<Rightarrow> dispatch_event list \<Rightarrow> dispatcher \<Rightarrow> bool" for cd where
  dispatch_run_Nil: "dispatch_run cd s [] s"
| dispatch_run_Cons: "dispatch_step cd s e s' \<Longrightarrow> dispatch_run cd s' es s'' \<Longrightarrow>
      dispatch_run cd s (e # es) s''"

inductive_cases dispatch_run_NilE: "dispatch_run cd s [] s'"
inductive_cases dispatch_run_ConsE: "dispatch_run cd s (e # es) s'"

definition dispatch_start :: "string list \<Rightarrow> worker list \<Rightarrow> filesystem \<Rightarrow> dispatcher" where
  "dispatch_start names ws fs = \<lparr>messages = [], files = fs, documents = (\<lambda>_. []), channels = names,
     sending = [], workers = ws, persisted = [], exited = None\<rparr>"

section \<open>The server\<close>

text \<open>
  The receive loop, the workers and the signal handler run in one process: a panic in any of
  them ends all. A goroutine of the receive loop reads its slice of the buffer, and then sends
  what it has decoded to the channels. \<open>listening\<close> holds until the handler closes the listener,
  \<open>configured\<close> are the entries of the configuration that it then closes, and \<open>ended\<close> is the end
  of the program by the handler or by the return of \<open>main\<close>: a panic, or an exit with status 0.
\<close>

record ogrt_server =
  receiver :: server
  dispatch :: dispatcher
  configured :: "output_config list"
  listening :: bool
  ended :: "(go_exit + unit) option"

datatype server_event =
    Datagram "byte list"
  | Decode nat "string list"
  | Dispatch dispatch_event
  | Signal
  | Shutdown
  | Read_error

definition running :: "ogrt_server \<Rightarrow> bool" where
  "running s \<longleftrightarrow> \<not> panicked (receiver s) \<and> exited (dispatch s) = None \<and> ended s = None"

text \<open>
  \<open>signal\<close> and \<open>shutdown\<close> are the two parts of the handler, up to \<open>listener.Close()\<close> and behind it:
  in between, the workers go on, and the receive loop may find its listener closed.
  \<open>read_error\<close>: the loop returns on any error, and \<open>main\<close> with it. The deferred calls close
  writers that are about to be gone.
\<close>

inductive ogrt_server_step ::
    "codec \<Rightarrow> (byte list \<Rightarrow> go_process_info option) \<Rightarrow> ogrt_server \<Rightarrow> server_event \<Rightarrow> ogrt_server \<Rightarrow> bool"
  for cd unmarshal where
  datagram: "running s \<Longrightarrow> listening s \<Longrightarrow> server_step (receiver s) (Receive d) r \<Longrightarrow>
      ogrt_server_step cd unmarshal s (Datagram d) (s\<lparr>receiver := r\<rparr>)"
| dropped: "running s \<Longrightarrow> server_step (receiver s) (Run i) r \<Longrightarrow>
      mset order = mset (channels (dispatch s)) \<Longrightarrow>
      goroutine unmarshal order (last (delivered r)) = [] \<Longrightarrow>
      ogrt_server_step cd unmarshal s (Decode i order) (s\<lparr>receiver := r\<rparr>)"
| decode: "running s \<Longrightarrow> server_step (receiver s) (Run i) r \<Longrightarrow>
      goroutine unmarshal order (last (delivered r)) = map (\<lambda>c. (c, m)) order \<Longrightarrow> order \<noteq> [] \<Longrightarrow>
      dispatch_step cd (dispatch s) (Decoded m order) d \<Longrightarrow>
      ogrt_server_step cd unmarshal s (Decode i order) (s\<lparr>receiver := r, dispatch := d\<rparr>)"
| dispatched: "running s \<Longrightarrow> (\<forall>m order. e \<noteq> Decoded m order) \<Longrightarrow> dispatch_step cd (dispatch s) e d \<Longrightarrow>
      ogrt_server_step cd unmarshal s (Dispatch e) (s\<lparr>dispatch := d\<rparr>)"
| signal: "running s \<Longrightarrow> listening s \<Longrightarrow> ogrt_server_step cd unmarshal s Signal (s\<lparr>listening := False\<rparr>)"
| shutdown: "running s \<Longrightarrow> \<not> listening s \<Longrightarrow>
      ogrt_server_step cd unmarshal s Shutdown (s\<lparr>ended := Some (close_outputs (configured s))\<rparr>)"
| read_error: "running s \<Longrightarrow> ogrt_server_step cd unmarshal s Read_error (s\<lparr>ended := Some (Inr ())\<rparr>)"

inductive ogrt_server_run ::
    "codec \<Rightarrow> (byte list \<Rightarrow> go_process_info option) \<Rightarrow> ogrt_server \<Rightarrow> server_event list \<Rightarrow> ogrt_server \<Rightarrow> bool"
  for cd unmarshal where
  ogrt_server_run_Nil: "ogrt_server_run cd unmarshal s [] s"
| ogrt_server_run_Cons: "ogrt_server_step cd unmarshal s e s' \<Longrightarrow> ogrt_server_run cd unmarshal s' es s'' \<Longrightarrow>
      ogrt_server_run cd unmarshal s (e # es) s''"

definition ogrt_server_start ::
    "nat \<Rightarrow> (string \<times> output_config) list \<Rightarrow> worker list \<Rightarrow> filesystem \<Rightarrow> ogrt_server" where
  "ogrt_server_start max_receive_buffer outs ws fs =
     \<lparr>receiver = server_start max_receive_buffer, dispatch = dispatch_start (map fst outs) ws fs,
      configured = map snd outs, listening = True, ended = None\<rparr>"

text \<open>\<open>main\<close> up to the receive loop, behind the configuration and the listener.\<close>

definition ogrt_server_main ::
    "network \<Rightarrow> nat \<Rightarrow> (string \<times> output_config) list \<Rightarrow> filesystem \<Rightarrow> go_exit + ogrt_server" where
  "ogrt_server_main net max_receive_buffer outs fs =
     (case instantiate_outputs net outs fs of
        (Inl x, fs') \<Rightarrow> Inl x
      | (Inr ws, fs') \<Rightarrow> Inr (ogrt_server_start max_receive_buffer outs ws fs'))"

text \<open>
  \<open>main\<close> from its beginning. \<open>conf\<close> is what \<open>toml\<close> makes of the configuration file, where a key
  that is missing leaves Go's zero value; \<open>resolves\<close> and \<open>listens\<close> are the answers of the network
  to the address. The metrics and the debug endpoint are left out.
\<close>

record configuration =
  Address :: string
  Port :: int
  MaxReceiveBuffer :: "32 word"
  Outputs :: "(string \<times> output_config) list"

definition listen_string :: "configuration \<Rightarrow> string" where
  "listen_string config = Address config @ '':''
     @ (if Port config < 0 then CHR ''-'' # decimal (nat (- Port config)) else decimal (nat (Port config)))"

definition server_process ::
    "network \<Rightarrow> (string \<Rightarrow> bool) \<Rightarrow> (string \<Rightarrow> bool) \<Rightarrow> configuration option \<Rightarrow> filesystem
      \<Rightarrow> go_exit + ogrt_server" where
  "server_process net resolves listens conf fs =
     (case conf of
        None \<Rightarrow> Inl Fatal
      | Some config \<Rightarrow>
          if \<not> resolves (listen_string config) then Inl Fatal
          else if \<not> listens (listen_string config) then Inl Fatal
          else ogrt_server_main net (unat (MaxReceiveBuffer config)) (Outputs config) fs)"

end
