(* ===== verification/Output_Spec.thy ===== *)
theory Output_Spec
  imports Output
begin

text \<open>
  What every output promises, as the locale \<open>og_writer\<close>: a message that it accepts is
  recorded behind what is there, and nothing else changes; with its interpretation by the
  three outputs. A worker's loop over its messages then records all of them in order.
\<close>

section \<open>The interface of an output\<close>

text \<open>The loop of \<open>writeToOutput\<close>: one message after the other, until one does not return.\<close>

fun persist_all ::
    "('m \<Rightarrow> 's \<Rightarrow> go_exit option \<times> 's) \<Rightarrow> 'm list \<Rightarrow> 's \<Rightarrow> go_exit option \<times> 's" where
  "persist_all persist [] s = (None, s)"
| "persist_all persist (m # ms) s =
     (case persist m s of (Some x, s') \<Rightarrow> (Some x, s') | (None, s') \<Rightarrow> persist_all persist ms s')"

locale og_writer =
  fixes persist :: "'m \<Rightarrow> 's \<Rightarrow> go_exit option \<times> 's"
    and ready :: "'s \<Rightarrow> bool"
    and accepts :: "'m \<Rightarrow> bool"
    and key :: "'m \<Rightarrow> 'k"
    and entry :: "'m \<Rightarrow> 'd list"
    and recorded :: "'s \<Rightarrow> 'k \<Rightarrow> 'd list"
  assumes persist_accepted: "ready s \<Longrightarrow> accepts m \<Longrightarrow> fst (persist m s) = None"
    and persist_ready: "ready s \<Longrightarrow> accepts m \<Longrightarrow> ready (snd (persist m s))"
    and persist_records: "ready s \<Longrightarrow> accepts m \<Longrightarrow>
      recorded (snd (persist m s)) k = recorded s k @ (if key m = k then entry m else [])"
begin

lemma persist_all_records:
  assumes "ready s" and "list_all accepts ms"
  shows "\<exists>s'. persist_all persist ms s = (None, s') \<and> ready s'
    \<and> (\<forall>k. recorded s' k = recorded s k @ concat (map entry (filter (\<lambda>m. key m = k) ms)))"
  using assms
proof (induction ms arbitrary: s)
  case (Cons m ms)
  obtain s1 where s1: "persist m s = (None, s1)"
    using persist_accepted [OF Cons.prems(1), of m] Cons.prems(2) by (cases "persist m s") auto
  then have "ready s1" "\<And>k. recorded s1 k = recorded s k @ (if key m = k then entry m else [])"
    using persist_ready [OF Cons.prems(1), of m] persist_records [OF Cons.prems(1), of m]
      Cons.prems(2) by simp_all
  then show ?case
    using Cons.IH [of s1] Cons.prems(2) s1 by auto
qed simp

text \<open>The order of messages with different keys does not matter.\<close>

lemma persist_all_commute:
  assumes "ready s" and "list_all accepts (ms @ ns)"
    and "\<forall>m \<in> set ms. \<forall>n \<in> set ns. key m \<noteq> key n"
  shows "recorded (snd (persist_all persist (ms @ ns) s)) k
    = recorded (snd (persist_all persist (ns @ ms) s)) k"
proof -
  have "list_all accepts (ns @ ms)" using assms(2) by auto
  then obtain s1 s2 where "persist_all persist (ms @ ns) s = (None, s1)"
      "recorded s1 k = recorded s k @ concat (map entry (filter (\<lambda>m. key m = k) (ms @ ns)))"
      "persist_all persist (ns @ ms) s = (None, s2)"
      "recorded s2 k = recorded s k @ concat (map entry (filter (\<lambda>m. key m = k) (ns @ ms)))"
    using persist_all_records [OF assms(1,2)] persist_all_records [OF assms(1), of "ns @ ms"] by blast
  moreover have "filter (\<lambda>m. key m = k) ms = [] \<or> filter (\<lambda>m. key m = k) ns = []"
    using assms(3) by (auto simp: filter_empty_conv)
  ultimately show ?thesis by auto
qed

end

section \<open>JSON files\<close>

text \<open>
  What is used of \<open>encoding/json\<close>: the information of a job with messages from \<open>M\<close> can be
  marshalled, and unmarshalling gives it back. Go's documentation promises this for structs
  whose strings are valid UTF-8.
\<close>

definition round_trips :: "codec \<Rightarrow> go_process_info set \<Rightarrow> bool" where
  "round_trips cd M \<longleftrightarrow> (\<forall>m\<in>M. \<forall>ps. set ps \<subseteq> M \<longrightarrow>
     (\<exists>b. Marshal_job cd \<lparr>job_JobId = Some (GetJobId m), Processes = ps\<rparr> = Some b
       \<and> Unmarshal_job cd b = Some \<lparr>job_JobId = Some (GetJobId m), Processes = ps\<rparr>))"

text \<open>
  A directory for the jobs of the messages \<open>M\<close>: it exists, every job's file can be created
  in it, and a file that is there holds information of the job.
\<close>

definition job_file_ok :: "codec \<Rightarrow> go_process_info set \<Rightarrow> string \<Rightarrow> byte list option \<Rightarrow> bool" where
  "job_file_ok cd M j contents \<longleftrightarrow> contents = None \<or>
     (\<exists>b ps. contents = Some b \<and> set ps \<subseteq> M
       \<and> Unmarshal_job cd b = Some \<lparr>job_JobId = Some j, Processes = ps\<rparr>)"

definition usable_dir :: "go_process_info set \<Rightarrow> string \<Rightarrow> filesystem \<Rightarrow> bool" where
  "usable_dir M dir fs \<longleftrightarrow> dir \<noteq> [] \<and> path_clean dir \<in> set (fs_dirs fs) \<and> fs_capacity fs = None \<and>
     (\<forall>m\<in>M. entry_name (GetJobId m) \<and> job_path dir m \<notin> set (fs_dirs fs)
       \<and> job_path dir m \<notin> set (fs_denied fs))"

definition job_dir :: "codec \<Rightarrow> go_process_info set \<Rightarrow> string \<Rightarrow> filesystem \<Rightarrow> bool" where
  "job_dir cd M dir fs \<longleftrightarrow> round_trips cd M \<and> usable_dir M dir fs
     \<and> (\<forall>m\<in>M. job_file_ok cd M (GetJobId m) (fs_files fs (job_path dir m)))"

text \<open>The processes that a job's file lists.\<close>

definition listed :: "codec \<Rightarrow> byte list option \<Rightarrow> go_process_info list" where
  "listed cd contents =
     (case contents of
        None \<Rightarrow> []
      | Some b \<Rightarrow> (case Unmarshal_job cd b of None \<Rightarrow> [] | Some job_info \<Rightarrow> Processes job_info))"

definition job_processes :: "codec \<Rightarrow> string \<Rightarrow> filesystem \<Rightarrow> string \<Rightarrow> go_process_info list" where
  "job_processes cd dir fs j = listed cd (fs_files fs (path_join dir j))"

lemma job_path_clean [simp]: "dir \<noteq> [] \<Longrightarrow> path_clean (job_path dir m) = job_path dir m"
  by (simp add: job_path_def)

lemma job_path_parent:
  "dir \<noteq> [] \<Longrightarrow> entry_name (GetJobId m) \<Longrightarrow> parent_dir (job_path dir m) = path_clean dir"
  by (simp add: job_path_def parent_path_join)

lemma read_job_info_ok:
  assumes "usable_dir M dir fs" and "m \<in> M"
    and "job_file_ok cd M (GetJobId m) (fs_files fs (job_path dir m))"
  shows "read_job_info cd fs dir m = Inr \<lparr>job_JobId = Some (GetJobId m),
    Processes = listed cd (fs_files fs (job_path dir m))\<rparr>"
  using assms
  by (auto simp: usable_dir_def job_file_ok_def listed_def read_job_info_def ReadFile_def)

lemma listed_subset: "job_file_ok cd M j c \<Longrightarrow> set (listed cd c) \<subseteq> M"
  by (auto simp: job_file_ok_def listed_def)

lemma job_dir_listed:
  assumes "job_dir cd M dir fs" and "m \<in> M"
  shows "set (listed cd (fs_files fs (job_path dir m))) \<subseteq> M"
  using assms listed_subset [of cd M "GetJobId m"] by (simp add: job_dir_def)

lemma marshal_appended_ok:
  assumes "round_trips cd M" and "m \<in> M" and "set ps \<subseteq> M"
  shows "\<exists>b. marshal_appended cd \<lparr>job_JobId = Some (GetJobId m), Processes = ps\<rparr> m = Inr b
    \<and> Unmarshal_job cd b = Some \<lparr>job_JobId = Some (GetJobId m), Processes = ps @ [m]\<rparr>"
proof -
  have "set (ps @ [m]) \<subseteq> M" using assms(2,3) by simp
  then show ?thesis
    using assms(1,2) unfolding round_trips_def marshal_appended_def by fastforce
qed

lemma create_job_file_ok:
  assumes "usable_dir M dir fs" and "m \<in> M"
  shows "create_job_file fs dir m
    = Inr (fs\<lparr>fs_files := (fs_files fs)(job_path dir m := Some [])\<rparr>)"
  using assms by (auto simp: usable_dir_def create_job_file_def Create_def job_path_parent)

lemma write_job_file_ok:
  assumes "usable_dir M dir fs" and "m \<in> M" and "fs_files fs (job_path dir m) = Some []"
  shows "write_job_file fs dir m b
    = (None, fs\<lparr>fs_files := (fs_files fs)(job_path dir m := Some b)\<rparr>)"
  using assms by (auto simp: usable_dir_def write_job_file_def Write_def Let_def)

lemma usable_dir_files [simp]: "usable_dir M dir (fs\<lparr>fs_files := f\<rparr>) = usable_dir M dir fs"
  by (simp add: usable_dir_def)

lemma persist_file_ok:
  assumes "job_dir cd M dir fs" and "m \<in> M"
  shows "\<exists>b. JsonFile_PersistProcessInfo cd dir m fs
        = (None, fs\<lparr>fs_files := (fs_files fs)(job_path dir m := Some b)\<rparr>)
    \<and> Unmarshal_job cd b = Some \<lparr>job_JobId = Some (GetJobId m),
        Processes = listed cd (fs_files fs (job_path dir m)) @ [m]\<rparr>"
proof -
  let ?ps = "listed cd (fs_files fs (job_path dir m))"
  have dir: "round_trips cd M" "usable_dir M dir fs" "set ?ps \<subseteq> M"
    using assms job_dir_listed [OF assms] by (auto simp: job_dir_def)
  obtain b where "marshal_appended cd \<lparr>job_JobId = Some (GetJobId m), Processes = ?ps\<rparr> m = Inr b"
      "Unmarshal_job cd b = Some \<lparr>job_JobId = Some (GetJobId m), Processes = ?ps @ [m]\<rparr>"
    using marshal_appended_ok [OF dir(1) assms(2) dir(3)] by blast
  then show ?thesis
    using read_job_info_ok [OF dir(2) assms(2), of cd] assms create_job_file_ok [OF dir(2) assms(2)] dir(2)
      write_job_file_ok [of M dir "fs\<lparr>fs_files := (fs_files fs)(job_path dir m := Some [])\<rparr>" m b] assms(2)
    by (intro exI [of _ b]) (simp add: JsonFile_PersistProcessInfo_def job_dir_def)
qed

lemma job_path_inject:
  assumes "usable_dir M dir fs" and "m \<in> M" and "m' \<in> M"
  shows "job_path dir m = job_path dir m' \<longleftrightarrow> GetJobId m = GetJobId m'"
  using assms by (auto simp: usable_dir_def job_path_def path_join_inject)

text \<open>The jobs for which a directory is read: those of the messages \<open>M\<close>.\<close>

definition jobs_recorded ::
    "codec \<Rightarrow> go_process_info set \<Rightarrow> string \<Rightarrow> filesystem \<Rightarrow> string \<Rightarrow> go_process_info list" where
  "jobs_recorded cd M dir fs j = (if j \<in> GetJobId ` M then job_processes cd dir fs j else [])"

interpretation json_file: og_writer "JsonFile_PersistProcessInfo cd dir" "job_dir cd M dir"
    "\<lambda>m. m \<in> M" GetJobId "\<lambda>m. [m]" "jobs_recorded cd M dir" for cd dir M
proof unfold_locales
  fix fs m k
  assume fs: "job_dir cd M dir fs" and m: "m \<in> M"
  obtain b where b: "JsonFile_PersistProcessInfo cd dir m fs
        = (None, fs\<lparr>fs_files := (fs_files fs)(job_path dir m := Some b)\<rparr>)"
      "Unmarshal_job cd b = Some \<lparr>job_JobId = Some (GetJobId m),
        Processes = listed cd (fs_files fs (job_path dir m)) @ [m]\<rparr>"
    using persist_file_ok [OF fs m] by blast
  have u: "usable_dir M dir fs" using fs by (simp add: job_dir_def)
  have sub: "set (listed cd (fs_files fs (job_path dir m))) \<subseteq> M"
    by (rule job_dir_listed [OF fs m])
  show "fst (JsonFile_PersistProcessInfo cd dir m fs) = None" by (simp add: b)
  show "job_dir cd M dir (snd (JsonFile_PersistProcessInfo cd dir m fs))"
    using fs m sub b(2) job_path_inject [OF u _ m] by (auto simp: b(1) job_dir_def job_file_ok_def)
  have "k \<in> GetJobId ` M \<Longrightarrow> path_join dir k = job_path dir m \<longleftrightarrow> k = GetJobId m"
    using job_path_inject [OF u _ m] by (auto simp: job_path_def)
  then show "jobs_recorded cd M dir (snd (JsonFile_PersistProcessInfo cd dir m fs)) k
      = jobs_recorded cd M dir fs k @ (if GetJobId m = k then [m] else [])"
    using m b(2) by (auto simp: b(1) jobs_recorded_def job_processes_def listed_def job_path_def)
qed

section \<open>JSON over a stream\<close>

definition stream_bytes :: "writer \<Rightarrow> unit \<Rightarrow> byte list" where
  "stream_bytes w u = (case w of JsonOverTcpOutput failed sent \<Rightarrow> sent | _ \<Rightarrow> [])"

definition stream_open :: "writer \<Rightarrow> bool" where
  "stream_open w = (case w of JsonOverTcpOutput failed sent \<Rightarrow> \<not> failed | _ \<Rightarrow> False)"

interpretation json_tcp: og_writer "\<lambda>m w. (None, JsonOverTcp_PersistProcessInfo cd True m w)"
    stream_open "\<lambda>m. Marshal_process cd m \<noteq> None" "\<lambda>_. ()" "\<lambda>m. the (Marshal_process cd m) @ [10]"
    stream_bytes for cd
  by unfold_locales
    (auto simp: stream_open_def stream_bytes_def JsonOverTcp_PersistProcessInfo_def split: writer.splits)

text \<open>After a failed write the encoder sends nothing, whatever it is given.\<close>

lemma failed_stream_silent:
  "persist_all (\<lambda>m w. (None, JsonOverTcp_PersistProcessInfo cd (f m) m w)) ms (JsonOverTcpOutput True sent)
    = (None, JsonOverTcpOutput True sent)"
  by (induction ms) (simp_all add: JsonOverTcp_PersistProcessInfo_def)

section \<open>Elasticsearch\<close>

definition scaled :: "go_process_info \<Rightarrow> go_process_info" where
  "scaled m = m\<lparr>Time := map_option (\<lambda>t. t * 1000) (Time m)\<rparr>"

lemma scale_time_Some: "Time m \<noteq> None \<Longrightarrow> scale_time m = Inr (scaled m)"
  by (auto simp: scale_time_def scaled_def)

interpretation json_es: og_writer
    "\<lambda>m docs. (case JsonElasticSearch_PersistProcessInfo cd True url index m docs of
        (Inl x, docs') \<Rightarrow> (Some x, docs') | (Inr _, docs') \<Rightarrow> (None, docs'))"
    "\<lambda>_. True" "\<lambda>m. Time m \<noteq> None \<and> Marshal_process cd (scaled m) \<noteq> None" "\<lambda>_. (url, index)"
    "\<lambda>m. [the (Marshal_process cd (scaled m))]" "\<lambda>docs. docs" for cd url index
  by unfold_locales
    (auto simp: JsonElasticSearch_PersistProcessInfo_def scale_time_Some index_process_def split: if_splits)

end
