(* ===== verification/Dispatch_Spec.thy ===== *)
theory Dispatch_Spec
  imports Dispatch Output_Spec
begin

text \<open>
  What the channels and workers promise, whatever the outputs do with a message: every
  message is on its way to every output exactly once, work that is begun ends, and nothing
  gets past an output without a worker.
\<close>

lemma dispatch_run_append:
  "dispatch_run cd s es s' \<Longrightarrow> dispatch_run cd s' fs s'' \<Longrightarrow> dispatch_run cd s (es @ fs) s''"
  by (induction rule: dispatch_run.induct) (auto intro: dispatch_run.intros)

text \<open>An invariant of the steps holds in every state that a run reaches.\<close>

lemma dispatch_run_invariant:
  assumes "dispatch_run cd s es s'" and "I s"
    and "\<And>s e s'. e \<in> set es \<Longrightarrow> dispatch_step cd s e s' \<Longrightarrow> I s \<Longrightarrow> I s'"
  shows "I s'"
  using assms by (induction rule: dispatch_run.induct) auto

section \<open>A worker's step\<close>

lemma message_of_simps [simp]:
  "message_of Idle = None" "message_of (Received a) = Some a" "message_of (Read_job a j) = Some a"
  "message_of (Marshalled a b) = Some a" "message_of (Created a b) = Some a"
  "message_of (Scaled a) = Some a"
  by (simp_all add: message_of_def)

lemma message_of_None [simp]: "message_of p = None \<longleftrightarrow> p = Idle"
  by (cases p) simp_all

text \<open>The points of \<open>PersistProcessInfo\<close> that the writer of a worker can be at.\<close>

definition worker_ok :: "worker \<Rightarrow> bool" where
  "worker_ok w \<longleftrightarrow>
     (case w_phase w of
        Idle \<Rightarrow> True
      | Received a \<Rightarrow> True
      | Scaled a \<Rightarrow> (\<exists>url index. w_writer w = JsonElasticSearchOutput url index)
      | _ \<Rightarrow> (\<exists>dir. w_writer w = JsonFileOutput dir))"

fun steps_left :: "phase \<Rightarrow> nat" where
  "steps_left Idle = 0"
| "steps_left (Received a) = 4"
| "steps_left (Read_job a j) = 3"
| "steps_left (Marshalled a b) = 2"
| "steps_left (Created a b) = 1"
| "steps_left (Scaled a) = 1"

lemma worker_step_cases:
  assumes "worker_step cd answer w s = (w', s', x)" and "w_phase w \<noteq> Idle" and "worker_ok w"
  shows "w_output w' = w_output w" and "w_id w' = w_id w" and "worker_ok w'"
    and "length (messages s') = length (messages s)" and "world.more s' = world.more s"
    and "x \<noteq> None \<Longrightarrow> w' = w"
    and "x = None \<Longrightarrow> steps_left (w_phase w') < steps_left (w_phase w)"
    and "w_phase w' = Idle \<or> message_of (w_phase w') = message_of (w_phase w)"
  using assms
  by (auto simp: worker_step_def worker_ok_def JsonOverTcp_PersistProcessInfo_def
      split: phase.splits writer.splits sum.splits prod.splits option.splits)

lemma work_cases:
  assumes "k < length (workers s)" and "w_phase (workers s ! k) \<noteq> Idle" and "worker_ok (workers s ! k)"
  obtains w' where "workers (work cd k answer s) = (workers s)[k := w']"
    and "w_output w' = w_output (workers s ! k)" and "w_id w' = w_id (workers s ! k)" and "worker_ok w'"
    and "sending (work cd k answer s) = sending s" and "channels (work cd k answer s) = channels s"
    and "length (messages (work cd k answer s)) = length (messages s)"
    and "exited (work cd k answer s) = None \<longrightarrow>
        steps_left (w_phase w') < steps_left (w_phase (workers s ! k))"
    and "(message_of (w_phase w') = message_of (w_phase (workers s ! k))
          \<and> persisted (work cd k answer s) = persisted s)
      \<or> (\<exists>a. w_phase w' = Idle \<and> message_of (w_phase (workers s ! k)) = Some a
          \<and> persisted (work cd k answer s) = persisted s @ [(w_output (workers s ! k), a)])"
proof -
  obtain w' s' x where step: "worker_step cd answer (workers s ! k) s = (w', s', x)"
    by (cases "worker_step cd answer (workers s ! k) s") auto
  note facts = worker_step_cases [OF step assms(2,3)]
  have more: "sending s' = sending s" "channels s' = channels s"
    using facts(5) by (cases s; cases s'; simp)+
  obtain a where a: "message_of (w_phase (workers s ! k)) = Some a"
    using assms(2) by (cases "message_of (w_phase (workers s ! k))") auto
  show thesis
    by (rule that [of w'])
      (use facts more a in \<open>auto simp: work_def step Let_def split: option.splits\<close>)
qed

section \<open>Exactly once\<close>

text \<open>The deliveries that are to be made, being made, and due in all.\<close>

definition pending :: "dispatcher \<Rightarrow> (string \<times> nat) multiset" where
  "pending s = sum_list (map (\<lambda>(a, cs). mset (map (\<lambda>c. (c, a)) cs)) (sending s))"

definition held :: "worker \<Rightarrow> (string \<times> nat) multiset" where
  "held w = (case message_of (w_phase w) of None \<Rightarrow> {#} | Some a \<Rightarrow> {#(w_output w, a)#})"

definition in_work :: "dispatcher \<Rightarrow> (string \<times> nat) multiset" where
  "in_work s = sum_list (map held (workers s))"

definition due :: "dispatcher \<Rightarrow> (string \<times> nat) multiset" where
  "due s = sum_list (map (\<lambda>a. mset (map (\<lambda>c. (c, a)) (channels s))) [0..<length (messages s)])"

definition deliveries_ok :: "dispatcher \<Rightarrow> bool" where
  "deliveries_ok s \<longleftrightarrow> list_all worker_ok (workers s)
     \<and> pending s + in_work s + mset (persisted s) = due s"

lemma sum_list_update_multiset:
  fixes f :: "'a \<Rightarrow> 'b multiset"
  assumes "i < length xs"
  shows "sum_list (map f (xs[i := y])) + f (xs ! i) = sum_list (map f xs) + f y"
  using assms
proof (induction xs arbitrary: i)
  case (Cons x xs)
  then show ?case by (cases i) (auto simp: ac_simps)
qed simp

lemma list_all_update: "list_all P xs \<Longrightarrow> P x \<Longrightarrow> list_all P (xs[i := x])"
  by (auto simp: list_all_iff dest!: set_update_subset_insert [THEN subsetD])

lemma mset_pairs: "mset cs = mset ds \<Longrightarrow> mset (map (\<lambda>c. (c, a)) cs) = mset (map (\<lambda>c. (c, a)) ds)"
  by simp

lemma deliveries_step:
  assumes "dispatch_step cd s e s'" and "deliveries_ok s"
  shows "deliveries_ok s'"
  using assms(1)
proof cases
  case (decoded order m)
  then show ?thesis
    using assms(2) mset_pairs [of order "channels s" "length (messages s)"]
    by (simp add: deliveries_ok_def pending_def in_work_def due_def ac_simps)
next
  case (handoff g a c cs k)
  let ?w = "workers s ! k"
  have "worker_ok (?w\<lparr>w_phase := Received a\<rparr>)" by (simp add: worker_ok_def)
  then have "list_all worker_ok (workers s')"
    using assms(2) handoff(2) by (simp add: deliveries_ok_def list_all_update)
  moreover have "pending s' + {#(c, a)#} = pending s"
    using sum_list_update_multiset [OF handoff(4), of "\<lambda>(a, cs). mset (map (\<lambda>c. (c, a)) cs)" "(a, cs)"]
      handoff by (simp add: pending_def)
  moreover have "in_work s' = in_work s + {#(c, a)#}"
    using sum_list_update_multiset [OF handoff(6), of held "?w\<lparr>w_phase := Received a\<rparr>"] handoff
    by (simp add: in_work_def held_def)
  moreover have "due s' = due s" "persisted s' = persisted s"
    using handoff by (simp_all add: due_def)
  ultimately show ?thesis
    using assms(2) by (simp add: deliveries_ok_def ac_simps flip: \<open>pending s' + _ = pending s\<close>)
next
  case (work k answer)
  have ok: "worker_ok (workers s ! k)"
    using assms(2) work(4) by (simp add: deliveries_ok_def list_all_length)
  obtain w' where w': "workers s' = (workers s)[k := w']" "w_output w' = w_output (workers s ! k)"
      "worker_ok w'" "sending s' = sending s" "channels s' = channels s"
      "length (messages s') = length (messages s)"
      "(message_of (w_phase w') = message_of (w_phase (workers s ! k)) \<and> persisted s' = persisted s)
      \<or> (\<exists>a. w_phase w' = Idle \<and> message_of (w_phase (workers s ! k)) = Some a
          \<and> persisted s' = persisted s @ [(w_output (workers s ! k), a)])"
    unfolding work(2) by (rule work_cases [OF work(4,5) ok]) blast
  have "in_work s' + held (workers s ! k) = in_work s + held w'"
    using sum_list_update_multiset [OF work(4), of held w'] by (simp add: in_work_def w'(1))
  then have "in_work s' + mset (persisted s') = in_work s + mset (persisted s)"
    using w'(2,7) by (auto simp: held_def split: option.splits)
  moreover have "pending s' = pending s" "due s' = due s"
    by (simp_all add: pending_def due_def w')
  ultimately show ?thesis
    using assms(2) w'(1,3) by (simp add: deliveries_ok_def list_all_update add.assoc)
qed

text \<open>Workers as they are started.\<close>

definition fresh :: "worker list \<Rightarrow> bool" where
  "fresh ws \<longleftrightarrow> list_all (\<lambda>w. w_phase w = Idle) ws"

lemma deliveries_start: "fresh ws \<Longrightarrow> deliveries_ok (dispatch_start names ws fs)"
proof -
  assume "fresh ws"
  then have "sum_list (map held ws) = {#}" "list_all worker_ok ws"
    by (induction ws) (auto simp: fresh_def held_def worker_ok_def)
  then show ?thesis
    by (simp add: deliveries_ok_def dispatch_start_def pending_def in_work_def due_def)
qed

lemma deliveries_run:
  assumes "dispatch_run cd s es s'" and "deliveries_ok s"
  shows "deliveries_ok s'"
  using dispatch_run_invariant [where I = deliveries_ok, OF assms] deliveries_step by blast

lemma count_due:
  assumes "distinct (channels s)"
  shows "count (due s) (c, a) = (if c \<in> set (channels s) \<and> a < length (messages s) then 1 else 0)"
proof -
  have one: "count {#(c, b). c \<in># mset cs#} (c, a) = (if b = a \<and> c \<in> set cs then 1 else 0)"
    if "distinct cs" for b and cs :: "string list"
    using that by (induction cs) auto
  have "count (sum_list (map (\<lambda>a. mset (map (\<lambda>c. (c, a)) (channels s))) [0..<n])) (c, a)
      = (if c \<in> set (channels s) \<and> a < n then 1 else 0)" for n
    by (induction n) (auto simp: one [OF assms])
  then show ?thesis by (simp add: due_def)
qed

lemma channels_step: "dispatch_step cd s e s' \<Longrightarrow> deliveries_ok s \<Longrightarrow> channels s' = channels s"
  by (erule dispatch_stepE) (auto simp: deliveries_ok_def list_all_length elim: work_cases)

lemma channels_run:
  assumes "dispatch_run cd s es s'" and "deliveries_ok s"
  shows "channels s' = channels s"
  using assms
proof (induction rule: dispatch_run.induct)
  case (dispatch_run_Cons s e s' es s'')
  then show ?case
    using channels_step [OF dispatch_run_Cons.hyps(1)] deliveries_step [OF dispatch_run_Cons.hyps(1)]
    by simp
qed simp

text \<open>The outputs of the workers stay as they are.\<close>

lemma map_update_same: "i < length xs \<Longrightarrow> f y = f (xs ! i) \<Longrightarrow> map f (xs[i := y]) = map f xs"
  by (metis list_update_id map_update)

lemma outputs_step:
  assumes "dispatch_step cd s e s'" and "deliveries_ok s"
  shows "map w_output (workers s') = map w_output (workers s)"
  using assms(1)
proof cases
  case (work k answer)
  have ok: "worker_ok (workers s ! k)"
    using assms(2) work(4) by (simp add: deliveries_ok_def list_all_length)
  obtain w' where "workers s' = (workers s)[k := w']" "w_output w' = w_output (workers s ! k)"
    unfolding work(2) by (rule work_cases [OF work(4,5) ok]) blast
  then show ?thesis using work(4) by (simp add: map_update_same)
qed (auto simp: map_update_same)

lemma outputs_run:
  assumes "dispatch_run cd s es s'" and "deliveries_ok s"
  shows "map w_output (workers s') = map w_output (workers s)"
  using assms
proof (induction rule: dispatch_run.induct)
  case (dispatch_run_Cons s e s' es s'')
  then show ?case
    using outputs_step [OF dispatch_run_Cons.hyps(1)] deliveries_step [OF dispatch_run_Cons.hyps(1)]
    by simp
qed simp

section \<open>Work that is begun ends\<close>

fun is_decoded :: "dispatch_event \<Rightarrow> bool" where
  "is_decoded (Decoded m order) = True"
| "is_decoded _ = False"

text \<open>
  The number of steps that are left without new messages: a handoff and at most four steps
  of the worker for every delivery.
\<close>

definition work_left :: "dispatcher \<Rightarrow> nat" where
  "work_left s = sum_list (map (\<lambda>(a, cs). 5 * length cs) (sending s))
     + sum_list (map (\<lambda>w. steps_left (w_phase w)) (workers s))"

lemma sum_list_update_nat:
  fixes f :: "'a \<Rightarrow> nat"
  assumes "i < length xs"
  shows "sum_list (map f (xs[i := y])) + f (xs ! i) = sum_list (map f xs) + f y"
  using assms
proof (induction xs arbitrary: i)
  case (Cons x xs)
  then show ?case by (cases i) auto
qed simp

lemma steps_left_0 [simp]: "steps_left p = 0 \<longleftrightarrow> p = Idle"
  by (cases p) simp_all

lemma steps_left_le: "k < length ws \<Longrightarrow> steps_left (w_phase (ws ! k)) \<le> sum_list (map (\<lambda>w. steps_left (w_phase w)) ws)"
  by (rule member_le_sum_list) auto

lemma work_left_step:
  assumes "dispatch_step cd s e s'" and "deliveries_ok s" and "\<not> is_decoded e"
  shows "0 < work_left s" and "exited s' = None \<Longrightarrow> work_left s' < work_left s"
proof -
  have "0 < work_left s \<and> (exited s' = None \<longrightarrow> work_left s' < work_left s)"
    using assms(1)
  proof cases
    case (handoff g a c cs k)
    have "sum_list (map (\<lambda>(a, cs). 5 * length cs) (sending s')) + 5
        = sum_list (map (\<lambda>(a, cs). 5 * length cs) (sending s))"
      using sum_list_update_nat [OF handoff(4), of "\<lambda>(a, cs). 5 * length cs" "(a, cs)"] handoff
      by simp
    moreover have "sum_list (map (\<lambda>w. steps_left (w_phase w)) (workers s'))
        = sum_list (map (\<lambda>w. steps_left (w_phase w)) (workers s)) + 4"
      using sum_list_update_nat [OF handoff(6), of "\<lambda>w. steps_left (w_phase w)"
          "(workers s ! k)\<lparr>w_phase := Received a\<rparr>"] handoff by simp
    ultimately show ?thesis by (simp add: work_left_def)
  next
    case (work k answer)
    have ok: "worker_ok (workers s ! k)"
      using assms(2) work(4) by (simp add: deliveries_ok_def list_all_length)
    obtain w' where w': "workers s' = (workers s)[k := w']" "sending s' = sending s"
        "exited s' = None \<longrightarrow> steps_left (w_phase w') < steps_left (w_phase (workers s ! k))"
      by (rule work_cases [OF work(4,5) ok, of cd answer, folded work(2)]) (rule that)
    have "0 < steps_left (w_phase (workers s ! k))" using work(5) by (cases "w_phase (workers s ! k)") auto
    then show ?thesis
      using sum_list_update_nat [OF work(4), of "\<lambda>w. steps_left (w_phase w)" w'] w'
        steps_left_le [OF work(4)] by (auto simp: work_left_def)
  qed (use assms(3) in simp)
  then show "0 < work_left s" "exited s' = None \<Longrightarrow> work_left s' < work_left s" by simp_all
qed

lemma exited_no_step: "dispatch_step cd s e s' \<Longrightarrow> exited s = None"
  by (erule dispatch_stepE) simp_all

lemma exited_run: "dispatch_run cd s es s' \<Longrightarrow> exited s \<noteq> None \<Longrightarrow> es = [] \<and> s' = s"
  by (erule dispatch_run.cases) (auto dest: exited_no_step)

lemma run_bounded:
  assumes "dispatch_run cd s es s'" and "deliveries_ok s" and "list_all (\<lambda>e. \<not> is_decoded e) es"
  shows "length es \<le> work_left s"
  using assms
proof (induction rule: dispatch_run.induct)
  case (dispatch_run_Cons s e s' es s'')
  have left: "0 < work_left s" "exited s' = None \<Longrightarrow> work_left s' < work_left s"
    using work_left_step [OF dispatch_run_Cons.hyps(1)] dispatch_run_Cons.prems by simp_all
  show ?case
  proof (cases "exited s' = None")
    case True
    then show ?thesis
      using dispatch_run_Cons deliveries_step [OF dispatch_run_Cons.hyps(1)] left by simp
  next
    case False
    then show ?thesis using exited_run [OF dispatch_run_Cons.hyps(2)] left(1) by simp
  qed
qed simp

text \<open>No step is possible but to decode a new message.\<close>

definition quiet :: "codec \<Rightarrow> dispatcher \<Rightarrow> bool" where
  "quiet cd s \<longleftrightarrow> (\<forall>e s'. dispatch_step cd s e s' \<longrightarrow> is_decoded e)"

definition served :: "string list \<Rightarrow> worker list \<Rightarrow> bool" where
  "served names ws \<longleftrightarrow> list_all (\<lambda>c. c \<in> set (map w_output ws)) names"

lemma sum_list_empty_multiset: "sum_list ms = {#} \<longleftrightarrow> (\<forall>m \<in> set ms. m = {#})" for ms :: "'a multiset list"
  by (induction ms) auto

lemma in_sum_list_multiset: "x \<in># sum_list ms \<longleftrightarrow> (\<exists>m \<in> set ms. x \<in># m)"
  by (induction ms) auto

lemma pending_in_due:
  assumes "deliveries_ok s" and "g < length (sending s)" and "sending s ! g = (a, cs)"
    and "c \<in> set cs"
  shows "c \<in> set (channels s)"
proof -
  have "(c, a) \<in># pending s"
    using assms nth_mem [OF assms(2)] by (force simp: pending_def in_sum_list_multiset)
  then have "(c, a) \<in># due s"
    using assms(1) unfolding deliveries_ok_def by (metis mset_subset_eqD mset_subset_eq_add_left union_assoc)
  then show ?thesis by (auto simp: due_def in_sum_list_multiset)
qed

lemma quiet_done:
  assumes "quiet cd s" and "deliveries_ok s" and "served (channels s) (workers s)" and "exited s = None"
  shows "pending s = {#}" and "in_work s = {#}" and "mset (persisted s) = due s"
proof -
  have idle: "w_phase (workers s ! k) = Idle" if "k < length (workers s)" for k
    using dispatch_step.work [OF assms(4) that, of cd True] assms(1)
    unfolding quiet_def by (metis is_decoded.simps(3))
  then have "held w = {#}" if "w \<in> set (workers s)" for w
    using that by (auto simp: held_def in_set_conv_nth)
  then show work: "in_work s = {#}"
    by (simp add: in_work_def sum_list_empty_multiset)
  have "cs = []" if g: "g < length (sending s)" "sending s ! g = (a, cs)" for g a cs
  proof (rule ccontr)
    assume "cs \<noteq> []"
    then obtain c cs' where cs: "cs = c # cs'" by (cases cs) auto
    then have "c \<in> w_output ` set (workers s)"
      using assms(3) pending_in_due [OF assms(2) g, of c] by (simp add: served_def list_all_iff)
    then obtain k where k: "k < length (workers s)" "w_output (workers s ! k) = c"
      by (auto simp: in_set_conv_nth)
    have "sending s ! g = (a, c # cs')" using g(2) cs by simp
    from dispatch_step.handoff [OF assms(4) g(1) this k idle [OF k(1)], of cd] assms(1)
    show False unfolding quiet_def by (metis is_decoded.simps(2))
  qed
  then show send: "pending s = {#}"
    by (auto simp: pending_def sum_list_empty_multiset in_set_conv_nth)
  show "mset (persisted s) = due s"
    using assms(2) work send by (simp add: deliveries_ok_def)
qed

lemma quiet_reached:
  assumes "deliveries_ok s"
  shows "\<exists>es s'. dispatch_run cd s es s' \<and> list_all (\<lambda>e. \<not> is_decoded e) es \<and> quiet cd s'"
  using assms
proof (induction "work_left s" arbitrary: s rule: less_induct)
  case less
  show ?case
  proof (cases "quiet cd s")
    case True
    then show ?thesis by (intro exI [of _ "[]"] exI [of _ s]) (simp add: dispatch_run_Nil)
  next
    case False
    then obtain e s1 where e: "dispatch_step cd s e s1" "\<not> is_decoded e" by (auto simp: quiet_def)
    show ?thesis
    proof (cases "exited s1 = None")
      case True
      then obtain es s' where "dispatch_run cd s1 es s'" "list_all (\<lambda>e. \<not> is_decoded e) es" "quiet cd s'"
        using less.hyps [of s1] work_left_step [OF e(1) less.prems e(2)]
          deliveries_step [OF e(1) less.prems] by blast
      then show ?thesis
        using dispatch_run_Cons [OF e(1)] e(2) by (intro exI [of _ "e # es"] exI [of _ s']) simp
    next
      case False
      then have "quiet cd s1" by (auto simp: quiet_def dest: exited_no_step)
      then show ?thesis
        using dispatch_run_Cons [OF e(1) dispatch_run_Nil] e(2)
        by (intro exI [of _ "[e]"] exI [of _ s1]) simp
    qed
  qed
qed

section \<open>An output without a worker\<close>

lemma starved_step:
  assumes "dispatch_step cd s e s'" and "deliveries_ok s"
    and "c \<notin> set (map w_output (workers s))" and "g < length (sending s)" and "sending s ! g = (a, c # cs)"
  shows "g < length (sending s') \<and> sending s' ! g = (a, c # cs)"
  using assms(1)
proof cases
  case (decoded order m)
  then show ?thesis using assms(4,5) by (simp add: nth_append)
next
  case (handoff h b d ds k)
  then have "d \<in> set (map w_output (workers s))" by auto
  then have "g \<noteq> h" using assms(3,5) handoff(5) by auto
  then show ?thesis using handoff assms(4,5) by simp
next
  case (work k answer)
  have ok: "worker_ok (workers s ! k)"
    using assms(2) work(4) by (simp add: deliveries_ok_def list_all_length)
  have "sending s' = sending s"
    unfolding work(2) by (rule work_cases [OF work(4,5) ok])
  then show ?thesis using assms(4,5) by simp
qed

lemma starved_run:
  assumes "dispatch_run cd s es s'" and "deliveries_ok s"
    and "c \<notin> set (map w_output (workers s))" and "g < length (sending s)" and "sending s ! g = (a, c # cs)"
  shows "g < length (sending s') \<and> sending s' ! g = (a, c # cs)"
  using assms
proof (induction rule: dispatch_run.induct)
  case (dispatch_run_Cons s e s' es s'')
  then show ?case
    using starved_step [OF dispatch_run_Cons.hyps(1)] deliveries_step [OF dispatch_run_Cons.hyps(1)]
      outputs_step [OF dispatch_run_Cons.hyps(1)]
    by (metis (no_types, lifting))
qed simp

lemma pending_not_persisted:
  assumes "deliveries_ok s" and "distinct (channels s)" and "g < length (sending s)"
    and "sending s ! g = (a, cs)" and "c \<in> set cs"
  shows "(c, a) \<notin> set (persisted s)"
proof
  assume "(c, a) \<in> set (persisted s)"
  then have "0 < count (mset (persisted s)) (c, a)" by simp
  moreover have "(c, a) \<in># pending s"
    using assms(3,4,5) nth_mem [OF assms(3)] by (force simp: pending_def in_sum_list_multiset)
  then have "0 < count (pending s) (c, a)" by simp
  moreover have "count (pending s) (c, a) + count (in_work s) (c, a) + count (mset (persisted s)) (c, a)
      = count (due s) (c, a)"
    using assms(1) by (simp add: deliveries_ok_def flip: count_union)
  moreover have "count (due s) (c, a) \<le> 1" by (simp add: count_due [OF assms(2)])
  ultimately show False by linarith
qed

section \<open>The start of the server\<close>

lemma start_workers_roles:
  assumes "start_workers net name out is fs = (Inr ws, fs')"
  shows "map (\<lambda>w. (w_output w, w_id w)) ws = map (Pair name) is" and "fresh ws"
proof -
  have "map (\<lambda>w. (w_output w, w_id w)) ws = map (Pair name) is \<and> fresh ws"
    using assms
    by (induction net name out "is" fs arbitrary: ws fs' rule: start_workers.induct)
       (auto simp: fresh_def split: prod.splits sum.splits)
  then show "map (\<lambda>w. (w_output w, w_id w)) ws = map (Pair name) is" "fresh ws" by simp_all
qed

text \<open>
  When the server starts, every output has exactly as many workers as the configuration says,
  numbered from 0, and all of them wait; so every output has a worker exactly when every
  number in the configuration is positive.
\<close>

lemma workers_started:
  assumes "instantiate_outputs net outs fs = (Inr ws, fs')"
  shows "map (\<lambda>w. (w_output w, w_id w)) ws
      = concat (map (\<lambda>(name, out). map (Pair name) [0..<nat (Workers out)]) outs)"
    and "fresh ws"
proof -
  have "map (\<lambda>w. (w_output w, w_id w)) ws
      = concat (map (\<lambda>(name, out). map (Pair name) [0..<nat (Workers out)]) outs) \<and> fresh ws"
    using assms
  proof (induction net outs fs arbitrary: ws fs' rule: instantiate_outputs.induct)
    case (2 net name out outs fs)
    from 2(2) obtain ws1 fs1 ws2 where
        s: "start_workers net name out [0..<nat (Workers out)] fs = (Inr ws1, fs1)"
          "instantiate_outputs net outs fs1 = (Inr ws2, fs')" "ws = ws1 @ ws2"
      by (auto split: prod.splits sum.splits)
    then show ?case
      using 2(1) [OF s(1) [symmetric] refl s(2)] start_workers_roles [OF s(1)] by (simp add: fresh_def)
  qed (simp add: fresh_def)
  then show "map (\<lambda>w. (w_output w, w_id w)) ws
      = concat (map (\<lambda>(name, out). map (Pair name) [0..<nat (Workers out)]) outs)" "fresh ws" by simp_all
qed

lemma served_when_started:
  assumes "instantiate_outputs net outs fs = (Inr ws, fs')" and "distinct (map fst outs)"
  shows "served (map fst outs) ws \<longleftrightarrow> list_all (\<lambda>(name, out). 0 < Workers out) outs"
proof -
  have "w_output ` set ws = fst ` set (map (\<lambda>w. (w_output w, w_id w)) ws)" by force
  also have "\<dots> = (\<Union>x \<in> set outs. fst ` set (case x of (name, out) \<Rightarrow> map (Pair name) [0..<nat (Workers out)]))"
    unfolding workers_started(1) [OF assms(1)] by (simp add: image_UN)
  also have "\<dots> = (\<Union>x \<in> set outs. if 0 < Workers (snd x) then {fst x} else {})"
    by (rule SUP_cong) (auto simp: image_image image_constant_conv)
  also have "\<dots> = {name. \<exists>out. (name, out) \<in> set outs \<and> 0 < Workers out}"
    by (force split: if_splits)
  finally have outputs: "w_output ` set ws = {name. \<exists>out. (name, out) \<in> set outs \<and> 0 < Workers out}" .
  have "name \<in> w_output ` set ws \<longleftrightarrow> 0 < Workers out" if "(name, out) \<in> set outs" for name out
    using that eq_key_imp_eq_value [OF assms(2) that] unfolding outputs mem_Collect_eq by blast
  then show ?thesis by (fastforce simp: served_def list_all_iff)
qed

text \<open>
  Opening an output of JSON files ignores the result of \<open>os.Mkdir\<close>: without the parent the
  output is opened on a directory that does not exist, and the first message panics.
\<close>

lemma open_ignores_mkdir:
  assumes "params \<noteq> []" and "Stat fs params = NotExist" and "parent_dir params \<notin> set (fs_dirs fs)"
  shows "JsonFile_Open params fs = (Inr (JsonFileOutput params), fs)"
    and "entry_name (GetJobId m) \<Longrightarrow> \<exists>x. JsonFile_PersistProcessInfo cd params m fs = (Some x, fs)"
proof -
  show "JsonFile_Open params fs = (Inr (JsonFileOutput params), fs)"
    using assms by (simp add: JsonFile_Open_def Mkdir_def)
  have "path_clean params \<notin> set (fs_dirs fs)"
    using assms(2) by (simp add: Stat_def split: if_splits)
  then have "create_job_file fs params m = Inl Panic" if "entry_name (GetJobId m)"
    using job_path_parent [OF assms(1) that] by (simp add: create_job_file_def Create_def)
  then show "entry_name (GetJobId m) \<Longrightarrow> \<exists>x. JsonFile_PersistProcessInfo cd params m fs = (Some x, fs)"
    by (auto simp: JsonFile_PersistProcessInfo_def split: sum.splits)
qed

text \<open>The parameters of the network outputs must have the documented number of parts.\<close>

lemma open_needs_parts:
  "length (filter (\<lambda>c. c = CHR '':'') params) \<noteq> 2 \<Longrightarrow> JsonOverTcp_Open net params = Inl Panic"
  "length (filter (\<lambda>c. c = CHR '':'') params) \<noteq> 3 \<Longrightarrow> JsonElasticSearch_Open net params = Inl Panic"
  using length_split_join [of "CHR '':''" params]
  by (auto simp: JsonOverTcp_Open_def JsonElasticSearch_Open_def split: list.splits)

text \<open>The handler of a signal calls a nil interface as soon as there is an output.\<close>

lemma shutdown_panics:
  assumes "list_all (\<lambda>out. Writer out = None) outs"
  shows "close_outputs outs = (if outs = [] then Inr () else Inl Panic)"
  using assms by (cases outs) simp_all

end
