(* ===== verification/Job_Files.thy ===== *)
theory Job_Files
  imports Dispatch_Spec
begin

text \<open>
  The files of the jobs while the workers run in any order: when every JSON output has one
  worker and a directory of its own, no step panics, and the file of a job lists the
  processes of that job that its worker has finished with, in that order.
\<close>

section \<open>Configurations\<close>

text \<open>Two workers that do not meet in a directory or under an output of JSON files.\<close>

definition apart :: "worker \<Rightarrow> worker \<Rightarrow> bool" where
  "apart w v \<longleftrightarrow> (\<forall>dir. w_writer w = JsonFileOutput dir \<longrightarrow> w_output w \<noteq> w_output v
     \<and> (\<forall>dir'. w_writer v = JsonFileOutput dir' \<longrightarrow> path_clean dir \<noteq> path_clean dir'))"

definition separate :: "worker list \<Rightarrow> bool" where
  "separate ws \<longleftrightarrow> (\<forall>k < length ws. \<forall>l < length ws. k \<noteq> l \<longrightarrow> apart (ws ! k) (ws ! l))"

text \<open>A worker that does not change messages.\<close>

definition reads_only :: "worker \<Rightarrow> bool" where
  "reads_only w \<longleftrightarrow> (\<forall>url index. w_writer w \<noteq> JsonElasticSearchOutput url index)"

text \<open>The same worker, at another point.\<close>

definition same_role :: "worker \<Rightarrow> worker \<Rightarrow> bool" where
  "same_role w w' \<longleftrightarrow> w_output w' = w_output w \<and> reads_only w' = reads_only w
     \<and> (\<forall>dir. w_writer w' = JsonFileOutput dir \<longleftrightarrow> w_writer w = JsonFileOutput dir)"

lemma apart_same_role: "same_role w w' \<Longrightarrow> apart w' v = apart w v \<and> apart v w' = apart v w"
  by (simp add: same_role_def apart_def)

lemma separate_update:
  assumes "separate ws" and "k < length ws" and "same_role (ws ! k) w'"
  shows "separate (ws[k := w'])"
  using assms apart_same_role [OF assms(3)] by (auto simp: separate_def nth_list_update)

section \<open>The invariant\<close>

text \<open>The processes of a job that the worker of an output has finished with.\<close>

definition job_log :: "dispatcher \<Rightarrow> string \<Rightarrow> string \<Rightarrow> go_process_info list" where
  "job_log s c j = filter (\<lambda>m. GetJobId m = j)
     (map (\<lambda>(d, a). messages s ! a) (filter (\<lambda>(d, a). d = c) (persisted s)))"

text \<open>What the file of the job of \<open>m\<close> should list, when it began with the contents \<open>old\<close>.\<close>

definition expected ::
    "codec \<Rightarrow> (string \<Rightarrow> byte list option) \<Rightarrow> dispatcher \<Rightarrow> worker \<Rightarrow> string \<Rightarrow> go_process_info
      \<Rightarrow> go_process_info list" where
  "expected cd old s w dir m = listed cd (old (job_path dir m)) @ job_log s (w_output w) (GetJobId m)"

definition being_written :: "dispatcher \<Rightarrow> worker \<Rightarrow> go_process_info \<Rightarrow> bool" where
  "being_written s w m \<longleftrightarrow>
     (case w_phase w of Created a b \<Rightarrow> GetJobId (messages s ! a) = GetJobId m | _ \<Rightarrow> False)"

definition contents_ok ::
    "codec \<Rightarrow> go_process_info set \<Rightarrow> (string \<Rightarrow> byte list option) \<Rightarrow> dispatcher \<Rightarrow> worker \<Rightarrow> string
      \<Rightarrow> go_process_info \<Rightarrow> bool" where
  "contents_ok cd M old s w dir m \<longleftrightarrow>
     set (expected cd old s w dir m) \<subseteq> M \<and>
     (if being_written s w m then fs_files (files s) (job_path dir m) = Some []
      else job_file_ok cd M (GetJobId m) (fs_files (files s) (job_path dir m))
        \<and> listed cd (fs_files (files s) (job_path dir m)) = expected cd old s w dir m)"

text \<open>What a worker carries from one step to the next.\<close>

definition carries_ok ::
    "codec \<Rightarrow> (string \<Rightarrow> byte list option) \<Rightarrow> dispatcher \<Rightarrow> worker \<Rightarrow> string \<Rightarrow> bool" where
  "carries_ok cd old s w dir \<longleftrightarrow>
     (let job = (\<lambda>a ps. \<lparr>job_JobId = Some (GetJobId (messages s ! a)), Processes = ps\<rparr>);
          before = (\<lambda>a. expected cd old s w dir (messages s ! a)) in
      case w_phase w of
        Read_job a j \<Rightarrow> j = job a (before a)
      | Marshalled a b \<Rightarrow> Unmarshal_job cd b = Some (job a (before a @ [messages s ! a]))
      | Created a b \<Rightarrow> Unmarshal_job cd b = Some (job a (before a @ [messages s ! a]))
      | _ \<Rightarrow> True)"

definition worker_files_ok ::
    "codec \<Rightarrow> go_process_info set \<Rightarrow> (string \<Rightarrow> byte list option) \<Rightarrow> dispatcher \<Rightarrow> worker \<Rightarrow> bool" where
  "worker_files_ok cd M old s w \<longleftrightarrow> (\<forall>dir. w_writer w = JsonFileOutput dir \<longrightarrow>
     usable_dir M dir (files s) \<and> (\<forall>m\<in>M. contents_ok cd M old s w dir m) \<and> carries_ok cd old s w dir)"

definition job_files_ok ::
    "codec \<Rightarrow> go_process_info set \<Rightarrow> (string \<Rightarrow> byte list option) \<Rightarrow> dispatcher \<Rightarrow> bool" where
  "job_files_ok cd M old s \<longleftrightarrow> round_trips cd M \<and> deliveries_ok s \<and> separate (workers s)
     \<and> list_all reads_only (workers s) \<and> set (messages s) \<subseteq> M \<and> exited s = None
     \<and> list_all (worker_files_ok cd M old s) (workers s)"

text \<open>Addresses in use are addresses of messages.\<close>

lemma address_valid:
  assumes "deliveries_ok s"
  shows "(c, a) \<in> set (persisted s) \<Longrightarrow> a < length (messages s)"
    and "k < length (workers s) \<Longrightarrow> message_of (w_phase (workers s ! k)) = Some a \<Longrightarrow> a < length (messages s)"
proof -
  have due: "(c, a) \<in># due s \<Longrightarrow> a < length (messages s)" for c a
    by (auto simp: due_def in_sum_list_multiset)
  have all: "pending s + in_work s + mset (persisted s) = due s"
    using assms by (simp add: deliveries_ok_def)
  show "(c, a) \<in> set (persisted s) \<Longrightarrow> a < length (messages s)"
    using due all by (metis set_mset_mset union_iff)
  assume "k < length (workers s)" and "message_of (w_phase (workers s ! k)) = Some a"
  then have "(w_output (workers s ! k), a) \<in># in_work s"
    by (auto simp: in_work_def in_sum_list_multiset held_def split: option.splits
        intro!: bexI [of _ "workers s ! k"])
  then show "a < length (messages s)"
    using due all by (metis union_iff)
qed

section \<open>Steps\<close>

text \<open>A worker whose files and log do not change keeps its part of the invariant.\<close>

lemma worker_files_frame:
  assumes ok: "worker_files_ok cd M old s v"
    and msgs: "\<And>a. message_of (w_phase v) = Some a \<Longrightarrow> messages s' ! a = messages s ! a"
    and log: "\<And>dir j. w_writer v = JsonFileOutput dir \<Longrightarrow> job_log s' (w_output v) j = job_log s (w_output v) j"
    and usable: "\<And>dir. w_writer v = JsonFileOutput dir \<Longrightarrow> usable_dir M dir (files s) \<Longrightarrow> usable_dir M dir (files s')"
    and same: "\<And>dir m. w_writer v = JsonFileOutput dir \<Longrightarrow> m \<in> M \<Longrightarrow>
      fs_files (files s') (job_path dir m) = fs_files (files s) (job_path dir m)"
  shows "worker_files_ok cd M old s' v"
  unfolding worker_files_ok_def
proof (intro allI impI conjI ballI)
  fix dir assume v: "w_writer v = JsonFileOutput dir"
  have e: "expected cd old s' v dir m = expected cd old s v dir m" for m
    using log [OF v] by (simp add: expected_def)
  have b: "being_written s' v m = being_written s v m" for m
    using msgs by (simp add: being_written_def split: phase.split)
  show "usable_dir M dir (files s')" using ok v usable by (simp add: worker_files_ok_def)
  show "contents_ok cd M old s' v dir m" if "m \<in> M" for m
    using ok v that same [OF v that] by (simp add: worker_files_ok_def contents_ok_def e b)
  show "carries_ok cd old s' v dir"
    using ok v msgs by (auto simp: worker_files_ok_def carries_ok_def Let_def e split: phase.splits)
qed

text \<open>A step of the worker \<open>k\<close> that leaves the messages and the files of others alone.\<close>

lemma job_files_update:
  assumes ok: "job_files_ok cd M old s" and k: "k < length (workers s)"
    and step: "dispatch_step cd s e s'" "workers s' = (workers s)[k := w']"
    and role: "same_role (workers s ! k) w'"
    and msgs: "messages s' = messages s" and running: "exited s' = None"
    and mine: "worker_files_ok cd M old s' w'"
    and log: "persisted s' = persisted s \<or> (\<exists>a. persisted s' = persisted s @ [(w_output w', a)])"
    and fs: "files s' = files s \<or> (\<exists>dir m c. w_writer w' = JsonFileOutput dir \<and> m \<in> M
      \<and> files s' = (files s)\<lparr>fs_files := (fs_files (files s))(job_path dir m := c)\<rparr>)"
  shows "job_files_ok cd M old s'"
proof -
  have "worker_files_ok cd M old s' v" if v: "l < length (workers s)" "l \<noteq> k" "v = workers s ! l" for l v
  proof (rule worker_files_frame)
    show "worker_files_ok cd M old s v"
      using ok v by (simp add: job_files_ok_def list_all_length)
    then have usable: "usable_dir M dir (files s)" if "w_writer v = JsonFileOutput dir" for dir
      using that by (simp add: worker_files_ok_def)
    have "apart v (workers s ! k)" "apart (workers s ! k) v"
      using ok k v by (auto simp: job_files_ok_def separate_def)
    then have apart: "apart v w'" "apart w' v" using apart_same_role [OF role] by auto
    show "job_log s' (w_output v) j = job_log s (w_output v) j"
      if "w_writer v = JsonFileOutput dir" for dir j
      using log apart(1) that by (auto simp: job_log_def msgs apart_def)
    show "fs_files (files s') (job_path dir m) = fs_files (files s) (job_path dir m)"
      if d: "w_writer v = JsonFileOutput dir" and m: "m \<in> M" for dir m
      using fs
    proof
      assume "\<exists>dir m c. w_writer w' = JsonFileOutput dir \<and> m \<in> M
        \<and> files s' = (files s)\<lparr>fs_files := (fs_files (files s))(job_path dir m := c)\<rparr>"
      then obtain dir' m' c where f: "w_writer w' = JsonFileOutput dir'" "m' \<in> M"
          "files s' = (files s)\<lparr>fs_files := (fs_files (files s))(job_path dir' m' := c)\<rparr>" by blast
      have "w_writer (workers s ! k) = JsonFileOutput dir'"
        using role f(1) unfolding same_role_def by blast
      then have "usable_dir M dir' (files s)"
        using ok k by (simp add: job_files_ok_def list_all_length worker_files_ok_def)
      then have "job_path dir m \<noteq> job_path dir' m'"
        using usable [OF d] m f(1,2) d apart(1)
        by (auto simp: usable_dir_def job_path_def path_join_inject apart_def)
      then show ?thesis using f(3) by simp
    qed simp
    show "usable_dir M dir (files s')" if "usable_dir M dir (files s)" for dir
      using that fs by auto
  qed (simp add: msgs)
  then have "list_all (worker_files_ok cd M old s') (workers s')"
    using mine k by (auto simp: step(2) list_all_length nth_list_update)
  moreover have "deliveries_ok s'"
    using deliveries_step [OF step(1)] ok by (simp add: job_files_ok_def)
  moreover have "reads_only w'" using ok k role by (simp add: job_files_ok_def list_all_length same_role_def)
  ultimately show ?thesis
    using ok k separate_update [OF _ k role] msgs running
    by (simp add: job_files_ok_def step(2) list_all_update)
qed

lemma work_simps:
  assumes "worker_step cd answer (workers s ! k) s = (w', s', x)"
  shows "workers (work cd k answer s) = (workers s)[k := w']"
    and "messages (work cd k answer s) = messages s'" and "files (work cd k answer s) = files s'"
    and "exited (work cd k answer s) = x"
    and "persisted (work cd k answer s) = persisted s
      @ (case (message_of (w_phase (workers s ! k)), message_of (w_phase w')) of
           (Some a, None) \<Rightarrow> [(w_output (workers s ! k), a)] | _ \<Rightarrow> [])"
  using assms by (simp_all add: work_def Let_def)

lemma same_role_phase [simp]: "same_role w (w\<lparr>w_phase := p\<rparr>)"
  by (simp add: same_role_def reads_only_def)

text \<open>The step of a worker of a stream: it does not touch files.\<close>

lemma job_files_tcp:
  assumes ok: "job_files_ok cd M old s" and k: "k < length (workers s)" "w_phase (workers s ! k) \<noteq> Idle"
    and w: "w_writer (workers s ! k) = JsonOverTcpOutput failed sent"
  shows "job_files_ok cd M old (work cd k answer s)"
proof -
  have "worker_ok (workers s ! k)"
    using ok k(1) by (simp add: job_files_ok_def deliveries_ok_def list_all_length)
  then obtain a where a: "w_phase (workers s ! k) = Received a"
    using k(2) w by (auto simp: worker_ok_def split: phase.splits)
  let ?w = "(workers s ! k)\<lparr>w_writer := JsonOverTcp_PersistProcessInfo cd answer (messages s ! a)
      (w_writer (workers s ! k)), w_phase := Idle\<rparr>"
  have step: "worker_step cd answer (workers s ! k) s = (?w, s, None)"
    using a w by (simp add: worker_step_def)
  have tcp: "\<exists>f b. w_writer ?w = JsonOverTcpOutput f b"
    using w by (auto simp: JsonOverTcp_PersistProcessInfo_def split: option.split)
  show ?thesis
  proof (rule job_files_update [OF ok k(1)])
    show "dispatch_step cd s (Work k answer) (work cd k answer s)"
      using ok k by (intro dispatch_step.work) (simp_all add: job_files_ok_def)
    show "same_role (workers s ! k) ?w"
      using tcp w by (auto simp: same_role_def reads_only_def)
    show "worker_files_ok cd M old (work cd k answer s) ?w"
      using tcp by (auto simp: worker_files_ok_def)
  qed (use a in \<open>simp_all add: work_simps [OF step]\<close>)
qed

text \<open>The steps of a worker of JSON files.\<close>

lemma job_files_quiet_step:
  assumes ok: "job_files_ok cd M old s" and k: "k < length (workers s)" "w_phase (workers s ! k) \<noteq> Idle"
    and w: "w_writer (workers s ! k) = JsonFileOutput dir"
    and step: "worker_step cd answer (workers s ! k) s = ((workers s ! k)\<lparr>w_phase := p\<rparr>, s, None)"
    and p: "message_of p \<noteq> None" "\<forall>a b. p \<noteq> Created a b" "\<forall>a b. w_phase (workers s ! k) \<noteq> Created a b"
    and carries: "carries_ok cd old s ((workers s ! k)\<lparr>w_phase := p\<rparr>) dir"
  shows "job_files_ok cd M old (work cd k answer s)"
proof (rule job_files_update [OF ok k(1)])
  let ?s = "work cd k answer s" and ?w = "(workers s ! k)\<lparr>w_phase := p\<rparr>"
  have kept: "persisted ?s = persisted s"
    using p(1) by (auto simp: work_simps [OF step] split: option.split)
  show "dispatch_step cd s (Work k answer) ?s"
    using ok k by (intro dispatch_step.work) (simp_all add: job_files_ok_def)
  show "persisted ?s = persisted s \<or> (\<exists>a. persisted ?s = persisted s @ [(w_output ?w, a)])"
    using kept by simp
  have mine: "worker_files_ok cd M old s (workers s ! k)"
    using ok k(1) by (simp add: job_files_ok_def list_all_length)
  have b: "\<not> being_written s (workers s ! k) m" "\<not> being_written ?s ?w m" for m
    using p(2,3) by (auto simp: being_written_def split: phase.split)
  have e: "expected cd old ?s ?w dir m = expected cd old s (workers s ! k) dir m"
      "expected cd old s ?w dir m = expected cd old s (workers s ! k) dir m" for m
    using kept by (simp_all add: expected_def job_log_def work_simps [OF step])
  show "worker_files_ok cd M old ?s ?w"
    using mine w b e carries
    by (auto simp: worker_files_ok_def contents_ok_def carries_ok_def Let_def work_simps [OF step]
        split: phase.splits)
qed (simp_all add: work_simps [OF step])

lemma file_worker:
  assumes ok: "job_files_ok cd M old s" and k: "k < length (workers s)"
    and w: "w_writer (workers s ! k) = JsonFileOutput dir" and a: "message_of (w_phase (workers s ! k)) = Some a"
  shows "messages s ! a \<in> M" and "usable_dir M dir (files s)" and "round_trips cd M"
    and "contents_ok cd M old s (workers s ! k) dir (messages s ! a)"
    and "carries_ok cd old s (workers s ! k) dir"
proof -
  have "a < length (messages s)"
    using address_valid(2) [OF _ k a] ok by (simp add: job_files_ok_def)
  then show m: "messages s ! a \<in> M" using ok by (auto simp: job_files_ok_def)
  have "worker_files_ok cd M old s (workers s ! k)"
    using ok k by (simp add: job_files_ok_def list_all_length)
  then show "usable_dir M dir (files s)" "contents_ok cd M old s (workers s ! k) dir (messages s ! a)"
      "carries_ok cd old s (workers s ! k) dir"
    using w m by (simp_all add: worker_files_ok_def)
qed (use ok in \<open>simp add: job_files_ok_def\<close>)

lemma job_files_read:
  assumes ok: "job_files_ok cd M old s" and k: "k < length (workers s)"
    and w: "w_writer (workers s ! k) = JsonFileOutput dir" and p: "w_phase (workers s ! k) = Received a"
  shows "job_files_ok cd M old (work cd k answer s)"
proof -
  let ?j = "\<lparr>job_JobId = Some (GetJobId (messages s ! a)),
    Processes = expected cd old s (workers s ! k) dir (messages s ! a)\<rparr>"
  have a: "message_of (w_phase (workers s ! k)) = Some a" by (simp add: p)
  note worker = file_worker [OF ok k w a]
  have "read_job_info cd (files s) dir (messages s ! a) = Inr ?j"
    using read_job_info_ok [OF worker(2,1)] worker(4) by (simp add: contents_ok_def being_written_def p)
  then have step: "worker_step cd answer (workers s ! k) s
      = ((workers s ! k)\<lparr>w_phase := Read_job a ?j\<rparr>, s, None)"
    by (simp add: worker_step_def p w)
  show ?thesis
    by (rule job_files_quiet_step [OF ok k _ w step])
       (simp_all add: p carries_ok_def expected_def)
qed

lemma job_files_marshal:
  assumes ok: "job_files_ok cd M old s" and k: "k < length (workers s)"
    and w: "w_writer (workers s ! k) = JsonFileOutput dir" and p: "w_phase (workers s ! k) = Read_job a j"
  shows "job_files_ok cd M old (work cd k answer s)"
proof -
  let ?ps = "expected cd old s (workers s ! k) dir (messages s ! a)"
  have a: "message_of (w_phase (workers s ! k)) = Some a" by (simp add: p)
  note worker = file_worker [OF ok k w a]
  have j: "j = \<lparr>job_JobId = Some (GetJobId (messages s ! a)), Processes = ?ps\<rparr>"
    using worker(5) by (simp add: carries_ok_def p)
  have "set ?ps \<subseteq> M" using worker(4) by (simp add: contents_ok_def)
  then obtain b where b: "marshal_appended cd j (messages s ! a) = Inr b"
      "Unmarshal_job cd b = Some \<lparr>job_JobId = Some (GetJobId (messages s ! a)), Processes = ?ps @ [messages s ! a]\<rparr>"
    using marshal_appended_ok [OF worker(3,1)] j by blast
  then have step: "worker_step cd answer (workers s ! k) s
      = ((workers s ! k)\<lparr>w_phase := Marshalled a b\<rparr>, s, None)"
    by (simp add: worker_step_def p)
  show ?thesis
    by (rule job_files_quiet_step [OF ok k _ w step])
       (use b in \<open>simp_all add: p carries_ok_def expected_def\<close>)
qed

lemma job_files_create:
  assumes ok: "job_files_ok cd M old s" and k: "k < length (workers s)"
    and w: "w_writer (workers s ! k) = JsonFileOutput dir" and p: "w_phase (workers s ! k) = Marshalled a b"
  shows "job_files_ok cd M old (work cd k answer s)"
proof -
  let ?m = "messages s ! a" and ?s = "work cd k answer s" and ?w = "(workers s ! k)\<lparr>w_phase := Created a b\<rparr>"
  let ?fs = "(files s)\<lparr>fs_files := (fs_files (files s))(job_path dir ?m := Some [])\<rparr>"
  have a: "message_of (w_phase (workers s ! k)) = Some a" by (simp add: p)
  note worker = file_worker [OF ok k w a]
  have step: "worker_step cd answer (workers s ! k) s = (?w, s\<lparr>files := ?fs\<rparr>, None)"
    using create_job_file_ok [OF worker(2,1)] by (simp add: worker_step_def p w)
  have mine: "worker_files_ok cd M old s (workers s ! k)"
    using ok k by (simp add: job_files_ok_def list_all_length)
  have e: "expected cd old ?s ?w dir m = expected cd old s (workers s ! k) dir m" for m
    by (simp add: expected_def job_log_def work_simps [OF step] p)
  have "contents_ok cd M old ?s ?w dir m" if m: "m \<in> M" for m
    using mine w m job_path_inject [OF worker(2) m worker(1)]
    by (auto simp: worker_files_ok_def contents_ok_def being_written_def e work_simps [OF step] p)
  then have new: "worker_files_ok cd M old ?s ?w"
    using mine w worker(2,5) by (auto simp: worker_files_ok_def carries_ok_def e work_simps [OF step] p)
  show ?thesis
  proof (rule job_files_update [OF ok k])
    show "dispatch_step cd s (Work k answer) ?s"
      using ok k p by (intro dispatch_step.work) (simp_all add: job_files_ok_def)
    show "worker_files_ok cd M old ?s ?w" by (rule new)
    show "files ?s = files s \<or> (\<exists>dir m c. w_writer ?w = JsonFileOutput dir \<and> m \<in> M
        \<and> files ?s = (files s)\<lparr>fs_files := (fs_files (files s))(job_path dir m := c)\<rparr>)"
      using worker(1) w by (auto simp: work_simps [OF step])
  qed (simp_all add: work_simps [OF step] p)
qed

lemma job_files_write:
  assumes ok: "job_files_ok cd M old s" and k: "k < length (workers s)"
    and w: "w_writer (workers s ! k) = JsonFileOutput dir" and p: "w_phase (workers s ! k) = Created a b"
  shows "job_files_ok cd M old (work cd k answer s)"
proof -
  let ?m = "messages s ! a" and ?s = "work cd k answer s" and ?w = "(workers s ! k)\<lparr>w_phase := Idle\<rparr>"
  let ?fs = "(files s)\<lparr>fs_files := (fs_files (files s))(job_path dir ?m := Some b)\<rparr>"
  have a: "message_of (w_phase (workers s ! k)) = Some a" by (simp add: p)
  note worker = file_worker [OF ok k w a]
  have mine: "worker_files_ok cd M old s (workers s ! k)"
    using ok k by (simp add: job_files_ok_def list_all_length)
  have empty: "fs_files (files s) (job_path dir ?m) = Some []"
    using worker(4) by (simp add: contents_ok_def being_written_def p)
  have step: "worker_step cd answer (workers s ! k) s = (?w, s\<lparr>files := ?fs\<rparr>, None)"
    using write_job_file_ok [OF worker(2,1) empty] by (simp add: worker_step_def p w)
  have e: "expected cd old ?s ?w dir m = expected cd old s (workers s ! k) dir m
      @ (if GetJobId ?m = GetJobId m then [?m] else [])" for m
    by (simp add: expected_def job_log_def work_simps [OF step] p)
  have b: "Unmarshal_job cd b = Some \<lparr>job_JobId = Some (GetJobId ?m),
      Processes = expected cd old s (workers s ! k) dir ?m @ [?m]\<rparr>"
    using worker(5) by (simp add: carries_ok_def p)
  have sub: "set (expected cd old s (workers s ! k) dir ?m) \<subseteq> M"
    using worker(4) by (simp add: contents_ok_def)
  have "contents_ok cd M old ?s ?w dir m" if m: "m \<in> M" for m
  proof (cases "GetJobId ?m = GetJobId m")
    case True
    then have "job_path dir ?m = job_path dir m" by (simp add: job_path_def)
    then have "expected cd old s (workers s ! k) dir ?m = expected cd old s (workers s ! k) dir m"
      using True by (simp add: expected_def)
    then show ?thesis
      using True b sub worker(1) \<open>job_path dir ?m = job_path dir m\<close>
      by (auto simp: contents_ok_def being_written_def e work_simps [OF step] job_file_ok_def listed_def)
  next
    case False
    then show ?thesis
      using mine w m job_path_inject [OF worker(2) m worker(1)]
      by (auto simp: worker_files_ok_def contents_ok_def being_written_def e work_simps [OF step] p)
  qed
  then have new: "worker_files_ok cd M old ?s ?w"
    using w worker(2) by (auto simp: worker_files_ok_def carries_ok_def work_simps [OF step])
  show ?thesis
  proof (rule job_files_update [OF ok k])
    show "dispatch_step cd s (Work k answer) ?s"
      using ok k p by (intro dispatch_step.work) (simp_all add: job_files_ok_def)
    show "worker_files_ok cd M old ?s ?w" by (rule new)
    show "files ?s = files s \<or> (\<exists>dir m c. w_writer ?w = JsonFileOutput dir \<and> m \<in> M
        \<and> files ?s = (files s)\<lparr>fs_files := (fs_files (files s))(job_path dir m := c)\<rparr>)"
      using worker(1) w by (auto simp: work_simps [OF step])
  qed (simp_all add: work_simps [OF step] p)
qed

lemma job_files_work:
  assumes ok: "job_files_ok cd M old s" and k: "k < length (workers s)" "w_phase (workers s ! k) \<noteq> Idle"
  shows "job_files_ok cd M old (work cd k answer s)"
proof (cases "w_writer (workers s ! k)")
  case (JsonFileOutput dir)
  have "worker_ok (workers s ! k)"
    using ok k(1) by (simp add: job_files_ok_def deliveries_ok_def list_all_length)
  then show ?thesis
    using k job_files_read [OF ok k(1) JsonFileOutput] job_files_marshal [OF ok k(1) JsonFileOutput]
      job_files_create [OF ok k(1) JsonFileOutput] job_files_write [OF ok k(1) JsonFileOutput]
      JsonFileOutput
    by (cases "w_phase (workers s ! k)") (simp_all add: worker_ok_def)
next
  case (JsonOverTcpOutput failed sent)
  then show ?thesis by (rule job_files_tcp [OF ok k])
next
  case (JsonElasticSearchOutput url index)
  then show ?thesis using ok k(1) by (auto simp: job_files_ok_def list_all_length reads_only_def)
qed

lemma job_files_handoff:
  assumes ok: "job_files_ok cd M old s" and step: "dispatch_step cd s (Handoff g k) s'"
  shows "job_files_ok cd M old s'"
  using step
proof cases
  case (handoff a c cs)
  let ?w = "(workers s ! k)\<lparr>w_phase := Received a\<rparr>"
  have mine: "worker_files_ok cd M old s (workers s ! k)"
    using ok handoff(5) by (simp add: job_files_ok_def list_all_length)
  have "expected cd old s' ?w dir m = expected cd old s (workers s ! k) dir m" for dir m
    by (simp add: expected_def job_log_def handoff(1))
  then have "worker_files_ok cd M old s' ?w"
    using mine handoff(7)
    by (auto simp: worker_files_ok_def contents_ok_def being_written_def carries_ok_def handoff(1))
  then show ?thesis
    using job_files_update [OF ok handoff(5) step, of ?w] ok handoff(1)
    by (simp add: job_files_ok_def)
qed

lemma job_files_decoded:
  assumes ok: "job_files_ok cd M old s" and step: "dispatch_step cd s (Decoded m order) s'" and m: "m \<in> M"
  shows "job_files_ok cd M old s'"
  using step
proof cases
  case decoded
  have d: "deliveries_ok s" using ok by (simp add: job_files_ok_def)
  have nth: "messages s' ! a = messages s ! a" if "a < length (messages s)" for a
    using that by (simp add: decoded(1) nth_append)
  have log: "job_log s' c j = job_log s c j" for c j
  proof -
    have "map (\<lambda>(d, a). messages s' ! a) (filter (\<lambda>(d, a). d = c) (persisted s))
        = map (\<lambda>(d, a). messages s ! a) (filter (\<lambda>(d, a). d = c) (persisted s))"
      by (rule map_cong) (auto dest: address_valid(1) [OF d] intro: nth)
    moreover have "persisted s' = persisted s" by (simp add: decoded(1))
    ultimately show ?thesis by (simp only: job_log_def)
  qed
  have "worker_files_ok cd M old s' v" if v: "v \<in> set (workers s)" for v
  proof (rule worker_files_frame)
    show "worker_files_ok cd M old s v"
      using ok v by (simp add: job_files_ok_def list_all_iff)
    show "messages s' ! a = messages s ! a" if "message_of (w_phase v) = Some a" for a
      using that v address_valid(2) [OF d] nth by (auto simp: in_set_conv_nth)
  qed (use log decoded(1) in simp_all)
  then show ?thesis
    using ok m deliveries_step [OF step d] by (simp add: job_files_ok_def decoded(1) list_all_iff)
qed

definition decodes_from :: "go_process_info set \<Rightarrow> dispatch_event \<Rightarrow> bool" where
  "decodes_from M e = (case e of Decoded m order \<Rightarrow> m \<in> M | _ \<Rightarrow> True)"

lemma job_files_step:
  assumes "dispatch_step cd s e s'" and "job_files_ok cd M old s" and "decodes_from M e"
  shows "job_files_ok cd M old s'"
proof (cases e)
  case (Decoded m order)
  then show ?thesis using assms job_files_decoded by (simp add: decodes_from_def)
next
  case (Handoff g k)
  then show ?thesis using assms job_files_handoff by simp
next
  case (Work k answer)
  from assms(1) [unfolded this] have "s' = work cd k answer s" "k < length (workers s)"
      "w_phase (workers s ! k) \<noteq> Idle"
    by (auto elim: dispatch_stepE)
  then show ?thesis using job_files_work [OF assms(2)] by simp
qed

lemma job_files_run:
  assumes "dispatch_run cd s es s'" and "job_files_ok cd M old s" and "list_all (decodes_from M) es"
  shows "job_files_ok cd M old s'"
  using assms
proof (induction rule: dispatch_run.induct)
  case (dispatch_run_Cons s e s' es s'')
  then show ?case using job_files_step [OF dispatch_run_Cons.hyps(1)] by simp
qed simp

section \<open>The start\<close>

text \<open>
  Workers for the messages \<open>M\<close>: one for every output of JSON files, with a directory that can
  hold the jobs, and none that changes messages.
\<close>

definition job_workers ::
    "codec \<Rightarrow> go_process_info set \<Rightarrow> worker list \<Rightarrow> filesystem \<Rightarrow> bool" where
  "job_workers cd M ws fs \<longleftrightarrow> fresh ws \<and> separate ws \<and> list_all reads_only ws \<and> round_trips cd M
     \<and> list_all (\<lambda>w. \<forall>dir. w_writer w = JsonFileOutput dir \<longrightarrow> job_dir cd M dir fs) ws"

lemma job_files_start:
  assumes "job_workers cd M ws fs"
  shows "job_files_ok cd M (fs_files fs) (dispatch_start names ws fs)"
proof -
  let ?s = "dispatch_start names ws fs"
  have "worker_files_ok cd M (fs_files fs) ?s w" if w: "w \<in> set ws" for w
  proof -
    have idle: "w_phase w = Idle" using assms w by (simp add: job_workers_def fresh_def list_all_iff)
    have dir: "job_dir cd M dir fs" if "w_writer w = JsonFileOutput dir" for dir
      using assms w that by (auto simp: job_workers_def list_all_iff)
    show ?thesis
      using dir job_dir_listed [of cd M _ fs]
      by (auto simp: worker_files_ok_def contents_ok_def carries_ok_def being_written_def idle
          expected_def job_log_def dispatch_start_def job_dir_def)
  qed
  then show ?thesis
    using assms deliveries_start [of ws names fs]
    by (simp add: job_files_ok_def job_workers_def list_all_iff) (simp add: dispatch_start_def)
qed

text \<open>The file of a job when nothing is left to do.\<close>

lemma due_of:
  assumes "distinct (channels s)"
  shows "filter_mset (\<lambda>(d, a). d = c) (due s)
    = (if c \<in> set (channels s) then mset (map (Pair c) [0..<length (messages s)]) else {#})"
proof -
  have one: "filter_mset (\<lambda>(d, a). d = c) {#(c, b). c \<in># mset cs#}
      = (if c \<in> set cs then {#(c, b)#} else {#})" if "distinct cs" for b and cs :: "string list"
    using that by (induction cs) auto
  have "filter_mset (\<lambda>(d, a). d = c)
        (sum_list (map (\<lambda>a. {#(c, a). c \<in># mset (channels s)#}) [0..<n]))
      = (if c \<in> set (channels s) then mset (map (Pair c) [0..<n]) else {#})" for n
    using assms by (induction n) (simp_all add: one)
  then show ?thesis by (simp add: due_def)
qed

lemma mset_job_log:
  "mset (job_log s c j) = filter_mset (\<lambda>m. GetJobId m = j)
     (image_mset (\<lambda>(d, a). messages s ! a) (filter_mset (\<lambda>(d, a). d = c) (mset (persisted s))))"
  by (simp add: job_log_def)

lemma messages_by_address:
  "image_mset (\<lambda>(d, a). messages s ! a) (mset (map (Pair c) [0..<length (messages s)])) = mset (messages s)"
proof -
  have "image_mset (\<lambda>(d, a). messages s ! a) (mset (map (Pair c) [0..<length (messages s)]))
      = mset (map (\<lambda>a. messages s ! a) [0..<length (messages s)])"
    by (simp add: image_mset.compositionality comp_def)
  then show ?thesis by (simp add: map_nth)
qed

lemma job_log_due:
  assumes "mset (persisted s) = due s" and "distinct (channels s)" and "c \<in> set (channels s)"
  shows "mset (job_log s c j) = filter_mset (\<lambda>m. GetJobId m = j) (mset (messages s))"
  using assms(3) by (simp only: mset_job_log assms(1) due_of [OF assms(2)] messages_by_address if_True)

text \<open>Before that, the log of a job is a part of what has been decoded.\<close>

lemma job_log_part:
  assumes "deliveries_ok s" and "distinct (channels s)"
  shows "mset (job_log s c j) \<subseteq># filter_mset (\<lambda>m. GetJobId m = j) (mset (messages s))"
proof -
  have "pending s + in_work s + mset (persisted s) = due s"
    using assms(1) by (simp add: deliveries_ok_def)
  then have "mset (persisted s) \<subseteq># due s" by (metis mset_subset_eq_add_right)
  then have sub: "filter_mset (\<lambda>(d, a). d = c) (mset (persisted s)) \<subseteq># filter_mset (\<lambda>(d, a). d = c) (due s)"
    by (rule multiset_filter_mono)
  also have "\<dots> \<subseteq># mset (map (Pair c) [0..<length (messages s)])"
    by (simp only: due_of [OF assms(2)]) simp
  finally show ?thesis
    unfolding mset_job_log
    by (subst messages_by_address [of s c, symmetric]) (intro multiset_filter_mono image_mset_subseteq_mono)
qed

end
