(* ===== verification/Server_Runs.thy ===== *)
theory Server_Runs
  imports Job_Files
begin

text \<open>
  Runs of the whole server, from datagrams to files: the messages of the dispatcher are those
  that the receive loop has decoded, and a run that has nothing left to do has listed them
  in the files of their jobs; with the single steps of a worker, from which runs are built.
\<close>

section \<open>What stays as it is\<close>

definition file_dir :: "worker \<Rightarrow> string option" where
  "file_dir w = (case w_writer w of JsonFileOutput dir \<Rightarrow> Some dir | _ \<Rightarrow> None)"

lemma file_dir_Some [simp]: "file_dir w = Some dir \<longleftrightarrow> w_writer w = JsonFileOutput dir"
  by (simp add: file_dir_def split: writer.split)

lemma worker_step_writer:
  assumes "worker_step cd answer w s = (w', s', x)"
  shows "file_dir w' = file_dir w" and "reads_only w' = reads_only w"
    and "reads_only w \<Longrightarrow> messages s' = messages s"
  using assms
  by (auto simp: worker_step_def file_dir_def reads_only_def JsonOverTcp_PersistProcessInfo_def
      split: phase.splits writer.splits sum.splits prod.splits option.splits if_splits)

lemma file_dirs_step:
  assumes "dispatch_step cd s e s'"
  shows "map file_dir (workers s') = map file_dir (workers s)"
  using assms
proof cases
  case (work k answer)
  obtain w' s'' x where step: "worker_step cd answer (workers s ! k) s = (w', s'', x)"
    by (cases "worker_step cd answer (workers s ! k) s") auto
  show ?thesis
    using work(4) worker_step_writer(1) [OF step]
    by (simp add: work(2) work_simps(1) [OF step] map_update_same)
qed (auto simp: map_update_same file_dir_def)

lemma file_dirs_run:
  "dispatch_run cd s es s' \<Longrightarrow> map file_dir (workers s') = map file_dir (workers s)"
  by (induction rule: dispatch_run.induct) (auto dest: file_dirs_step)

text \<open>Without a worker that changes messages, only a decoded message is added.\<close>

lemma messages_step:
  assumes "dispatch_step cd s e s'" and "list_all reads_only (workers s)"
  shows "messages s' = messages s @ (case e of Decoded m order \<Rightarrow> [m] | _ \<Rightarrow> [])"
  using assms(1)
proof cases
  case (work k answer)
  obtain w' s'' x where step: "worker_step cd answer (workers s ! k) s = (w', s'', x)"
    by (cases "worker_step cd answer (workers s ! k) s") auto
  show ?thesis
    using work(4) assms(2) worker_step_writer(3) [OF step]
    by (simp add: work(1,2) work_simps(2) [OF step] list_all_length)
qed simp_all

section \<open>Nothing left to do\<close>

lemma quiet_files:
  assumes ok: "job_files_ok cd M old s" and quiet: "quiet cd s"
    and names: "distinct (channels s)" "served (channels s) (workers s)"
    and w: "w \<in> set (workers s)" "w_writer w = JsonFileOutput dir" "w_output w \<in> set (channels s)"
    and m: "m \<in> M"
  shows "\<exists>log. job_processes cd dir (files s) (GetJobId m) = listed cd (old (job_path dir m)) @ log
    \<and> mset log = filter_mset (\<lambda>m'. GetJobId m' = GetJobId m) (mset (messages s))"
proof -
  have d: "deliveries_ok s" and x: "exited s = None" using ok by (simp_all add: job_files_ok_def)
  note fin = quiet_done [OF quiet d names(2) x]
  have "held w = {#}" using fin(2) w(1) by (simp add: in_work_def sum_list_empty_multiset)
  then have idle: "w_phase w = Idle"
    by (auto simp: held_def split: option.splits)
  have "contents_ok cd M old s w dir m"
    using ok w(1,2) m by (simp add: job_files_ok_def list_all_iff worker_files_ok_def)
  then show ?thesis
    using job_log_due [OF fin(3) names(1) w(3), of "GetJobId m"]
    by (simp add: contents_ok_def being_written_def idle expected_def job_processes_def job_path_def)
qed

section \<open>The whole server\<close>

text \<open>The messages among what the receive loop has handed on.\<close>

definition decoded_messages ::
    "(byte list \<Rightarrow> go_process_info option) \<Rightarrow> (cint \<times> byte list) list \<Rightarrow> go_process_info list" where
  "decoded_messages unmarshal ds = List.map_filter
     (\<lambda>(t, data). if t = OGRT__MESSAGE_TYPE__ProcessInfoMsg then unmarshal data else None) ds"

lemma decoded_messages_append [simp]:
  "decoded_messages unmarshal (ds @ es) = decoded_messages unmarshal ds @ decoded_messages unmarshal es"
  by (simp add: decoded_messages_def List.map_filter_def)

lemma goroutine_sends:
  assumes "goroutine unmarshal order d = map (\<lambda>c. (c, m)) order" and "order \<noteq> []"
  shows "decoded_messages unmarshal [d] = [m]"
  using assms by (cases d; cases order)
    (auto simp: goroutine_def decoded_messages_def List.map_filter_def split: if_splits option.splits)

lemma goroutine_drops:
  assumes "goroutine unmarshal order d = []" and "order \<noteq> []"
  shows "decoded_messages unmarshal [d] = []"
  using assms by (cases d)
    (auto simp: goroutine_def decoded_messages_def List.map_filter_def split: if_splits option.splits)

inductive_cases ogrt_server_stepE: "ogrt_server_step cd unmarshal s e s'"
inductive_cases ogrt_server_run_ConsE: "ogrt_server_run cd unmarshal s (e # es) s'"

lemma server_step_delivered:
  "server_step s (Receive d) s' \<Longrightarrow> delivered s' = delivered s"
  "server_step s (Run i) s' \<Longrightarrow> \<exists>x. delivered s' = delivered s @ [x]"
  by (auto elim: server_stepE)

text \<open>
  What a step of the server does to the dispatcher: one step of its own, or none; and the
  messages decoded so far are those of the dispatcher.
\<close>

lemma ogrt_server_step_dispatch:
  assumes "ogrt_server_step cd unmarshal s e s'" and "channels (dispatch s) \<noteq> []"
  obtains (same) "dispatch s' = dispatch s" and
      "decoded_messages unmarshal (delivered (receiver s')) = decoded_messages unmarshal (delivered (receiver s))"
  | (step) f where "dispatch_step cd (dispatch s) f (dispatch s')" and
      "decoded_messages unmarshal (delivered (receiver s'))
        = decoded_messages unmarshal (delivered (receiver s))
          @ (case f of Decoded m order \<Rightarrow> [m] | _ \<Rightarrow> [])"
  using assms(1)
proof cases
  case (datagram d r)
  then show thesis using server_step_delivered(1) same by simp
next
  case signal
  then show thesis using same by simp
next
  case shutdown
  then show thesis using same by simp
next
  case read_error
  then show thesis using same by simp
next
  case (dropped i r order)
  obtain x where x: "delivered r = delivered (receiver s) @ [x]"
    using server_step_delivered(2) [OF dropped(4)] by blast
  have "order \<noteq> []" using dropped(5) assms(2) by auto
  then have "decoded_messages unmarshal [x] = []"
    using goroutine_drops [of unmarshal order x] dropped(6) x by simp
  then show thesis
    using same dropped(2) x by simp
next
  case (decode i r order m d)
  obtain x where x: "delivered r = delivered (receiver s) @ [x]"
    using server_step_delivered(2) [OF decode(4)] by blast
  have "decoded_messages unmarshal [x] = [m]"
    using goroutine_sends [of unmarshal order x m] decode(5,6) x by simp
  then show thesis
    using step [of "Decoded m order"] decode x by simp
next
  case (dispatched f d)
  then show thesis
    using step [of f] by (cases f) simp_all
qed

text \<open>The dispatcher of a running server, which has the messages decoded so far.\<close>

definition server_files_ok ::
    "codec \<Rightarrow> go_process_info set \<Rightarrow> (string \<Rightarrow> byte list option)
      \<Rightarrow> (byte list \<Rightarrow> go_process_info option) \<Rightarrow> ogrt_server \<Rightarrow> bool" where
  "server_files_ok cd M old unmarshal s \<longleftrightarrow> job_files_ok cd M old (dispatch s)
     \<and> messages (dispatch s) = decoded_messages unmarshal (delivered (receiver s))"

text \<open>What identifies the workers and channels of a dispatcher.\<close>

definition roles :: "dispatcher \<Rightarrow> string list \<times> (string \<times> string option) list" where
  "roles d = (channels d, map (\<lambda>w. (w_output w, file_dir w)) (workers d))"

lemma roles_step:
  assumes "dispatch_step cd s e s'" and "deliveries_ok s"
  shows "roles s' = roles s"
  using channels_step [OF assms] outputs_step [OF assms] file_dirs_step [OF assms(1)]
  by (simp add: roles_def) (simp add: list_eq_iff_nth_eq)

lemma server_files_step:
  assumes "ogrt_server_step cd unmarshal s e s'" and "channels (dispatch s) \<noteq> []"
    and "server_files_ok cd M old unmarshal s"
    and "set (decoded_messages unmarshal (delivered (receiver s'))) \<subseteq> M"
  shows "server_files_ok cd M old unmarshal s' \<and> roles (dispatch s') = roles (dispatch s)"
  using assms(1,2)
proof (cases rule: ogrt_server_step_dispatch)
  case same
  then show ?thesis using assms(3) by (simp add: server_files_ok_def)
next
  case (step f)
  have ok: "job_files_ok cd M old (dispatch s)"
      "messages (dispatch s) = decoded_messages unmarshal (delivered (receiver s))"
    using assms(3) by (simp_all add: server_files_ok_def)
  have "decodes_from M f"
    using assms(4) step(2) by (cases f) (simp_all add: decodes_from_def)
  then have "job_files_ok cd M old (dispatch s')"
    using job_files_step [OF step(1) ok(1)] by simp
  moreover have "messages (dispatch s') = messages (dispatch s) @ (case f of Decoded m order \<Rightarrow> [m] | _ \<Rightarrow> [])"
    using messages_step [OF step(1)] ok(1) by (simp add: job_files_ok_def)
  moreover have "roles (dispatch s') = roles (dispatch s)"
    using roles_step [OF step(1)] ok(1) by (simp add: job_files_ok_def)
  ultimately show ?thesis
    using ok(2) step(2) by (simp add: server_files_ok_def)
qed

lemma decoded_messages_step:
  assumes "ogrt_server_step cd unmarshal s e s'"
  shows "\<exists>ms. decoded_messages unmarshal (delivered (receiver s'))
    = decoded_messages unmarshal (delivered (receiver s)) @ ms"
  using assms
  by (auto elim!: ogrt_server_stepE dest!: server_step_delivered)

lemma decoded_messages_run:
  assumes "ogrt_server_run cd unmarshal s es s'"
  shows "\<exists>ms. decoded_messages unmarshal (delivered (receiver s'))
    = decoded_messages unmarshal (delivered (receiver s)) @ ms"
  using assms
proof (induction rule: ogrt_server_run.induct)
  case (ogrt_server_run_Cons s e s' es s'')
  then show ?case using decoded_messages_step [OF ogrt_server_run_Cons.hyps(1)] by auto
qed simp

lemma server_files_run:
  assumes "ogrt_server_run cd unmarshal s es s'" and "channels (dispatch s) \<noteq> []"
    and "server_files_ok cd M old unmarshal s"
    and "set (decoded_messages unmarshal (delivered (receiver s'))) \<subseteq> M"
  shows "server_files_ok cd M old unmarshal s' \<and> roles (dispatch s') = roles (dispatch s)"
  using assms
proof (induction rule: ogrt_server_run.induct)
  case (ogrt_server_run_Cons s e s' es s'')
  have sub: "set (decoded_messages unmarshal (delivered (receiver s'))) \<subseteq> M"
    using decoded_messages_run [OF ogrt_server_run_Cons.hyps(2)] ogrt_server_run_Cons.prems(3) by auto
  note step = server_files_step [OF ogrt_server_run_Cons.hyps(1) ogrt_server_run_Cons.prems(1,2) sub]
  have "channels (dispatch s') \<noteq> []"
    using step ogrt_server_run_Cons.prems(1) by (simp add: roles_def)
  then show ?case using ogrt_server_run_Cons.IH step ogrt_server_run_Cons.prems(3) by simp
qed simp

text \<open>What holds in every state that a server reaches.\<close>

lemma server_files_reached:
  assumes "ogrt_server_run cd unmarshal (ogrt_server_start cap outs ws fs) es s"
    and "job_workers cd M ws fs" and "outs \<noteq> []"
    and "set (decoded_messages unmarshal (delivered (receiver s))) \<subseteq> M"
  shows "job_files_ok cd M (fs_files fs) (dispatch s)"
    and "messages (dispatch s) = decoded_messages unmarshal (delivered (receiver s))"
    and "channels (dispatch s) = map fst outs"
    and "map w_output (workers (dispatch s)) = map w_output ws"
    and "w \<in> set ws \<Longrightarrow> w_writer w = JsonFileOutput dir \<Longrightarrow>
      \<exists>v\<in>set (workers (dispatch s)). w_writer v = JsonFileOutput dir \<and> w_output v = w_output w"
proof -
  let ?s = "ogrt_server_start cap outs ws fs"
  have start: "server_files_ok cd M (fs_files fs) unmarshal ?s"
    using job_files_start [OF assms(2), of "map fst outs"]
    by (simp add: server_files_ok_def ogrt_server_start_def server_start_def dispatch_start_def
        decoded_messages_def List.map_filter_def)
  have run: "server_files_ok cd M (fs_files fs) unmarshal s" "roles (dispatch s) = roles (dispatch ?s)"
    using server_files_run [OF assms(1) _ start assms(4)] assms(3)
    by (simp_all add: ogrt_server_start_def dispatch_start_def)
  then show "job_files_ok cd M (fs_files fs) (dispatch s)"
      "messages (dispatch s) = decoded_messages unmarshal (delivered (receiver s))"
    by (simp_all add: server_files_ok_def)
  show "channels (dispatch s) = map fst outs"
    using run(2) by (simp add: roles_def ogrt_server_start_def dispatch_start_def)
  have roles: "map (\<lambda>w. (w_output w, file_dir w)) (workers (dispatch s)) = map (\<lambda>w. (w_output w, file_dir w)) ws"
    using run(2) by (simp add: roles_def ogrt_server_start_def dispatch_start_def)
  show "map w_output (workers (dispatch s)) = map w_output ws"
    using arg_cong [OF roles, of "map fst"] by (simp add: comp_def)
  assume w: "w \<in> set ws" "w_writer w = JsonFileOutput dir"
  have "(w_output w, Some dir) \<in> set (map (\<lambda>w. (w_output w, file_dir w)) ws)"
    using w(1) file_dir_Some [of w dir] w(2) by (metis (mono_tags, lifting) image_eqI set_map)
  then show "\<exists>v\<in>set (workers (dispatch s)). w_writer v = JsonFileOutput dir \<and> w_output v = w_output w"
    unfolding roles [symmetric] by (auto simp: eq_commute [of "Some dir"])
qed

text \<open>
  A server whose workers have nothing left to do: every job's file lists what it listed at
  the start and the processes of the job that were decoded.
\<close>

lemma server_files_complete:
  assumes "ogrt_server_run cd unmarshal (ogrt_server_start cap outs ws fs) es s"
    and "job_workers cd M ws fs" and "distinct (map fst outs)" and "outs \<noteq> []" and "served (map fst outs) ws"
    and "set (decoded_messages unmarshal (delivered (receiver s))) \<subseteq> M"
  shows "exited (dispatch s) = None"
    and "quiet cd (dispatch s) \<Longrightarrow> w \<in> set ws \<Longrightarrow> w_writer w = JsonFileOutput dir \<Longrightarrow> w_output w \<in> set (map fst outs) \<Longrightarrow>
      m \<in> M \<Longrightarrow> \<exists>log. job_processes cd dir (files (dispatch s)) (GetJobId m)
          = job_processes cd dir fs (GetJobId m) @ log
        \<and> mset log = filter_mset (\<lambda>m'. GetJobId m' = GetJobId m)
            (mset (decoded_messages unmarshal (delivered (receiver s))))"
proof -
  note reached = server_files_reached [OF assms(1,2,4,6)]
  then show "exited (dispatch s) = None" by (simp add: job_files_ok_def)
  assume quiet: "quiet cd (dispatch s)" and w: "w \<in> set ws" "w_writer w = JsonFileOutput dir"
    "w_output w \<in> set (map fst outs)" and m: "m \<in> M"
  obtain v where v: "v \<in> set (workers (dispatch s))" "w_writer v = JsonFileOutput dir" "w_output v = w_output w"
    using reached(5) [OF w(1,2)] by blast
  show "\<exists>log. job_processes cd dir (files (dispatch s)) (GetJobId m)
          = job_processes cd dir fs (GetJobId m) @ log
        \<and> mset log = filter_mset (\<lambda>m'. GetJobId m' = GetJobId m)
            (mset (decoded_messages unmarshal (delivered (receiver s))))"
    using quiet_files [OF reached(1) quiet _ _ v(1,2) _ m] assms(3,5) reached(2-4) v(3) w(3)
    by (simp add: served_def job_processes_def job_path_def)
qed

section \<open>Runs of the server\<close>

lemma ogrt_server_run_append:
  "ogrt_server_run cd u s es s' \<Longrightarrow> ogrt_server_run cd u s' fs s'' \<Longrightarrow> ogrt_server_run cd u s (es @ fs) s''"
  by (induction rule: ogrt_server_run.induct) (auto intro: ogrt_server_run.intros)

lemma dispatch_run_lift:
  assumes "dispatch_run cd d es d'" and "list_all (\<lambda>e. \<not> is_decoded e) es" and "\<not> panicked (receiver s)" and "ended s = None"
  shows "ogrt_server_run cd u (s\<lparr>dispatch := d\<rparr>) (map Dispatch es) (s\<lparr>dispatch := d'\<rparr>)"
  using assms
proof (induction rule: dispatch_run.induct)
  case (dispatch_run_Nil d)
  then show ?case by (simp add: ogrt_server_run_Nil)
next
  case (dispatch_run_Cons d e d' es d'')
  have "ogrt_server_step cd u (s\<lparr>dispatch := d\<rparr>) (Dispatch e) (s\<lparr>dispatch := d, dispatch := d'\<rparr>)"
    using dispatch_run_Cons exited_no_step [OF dispatch_run_Cons.hyps(1)]
    by (intro ogrt_server_step.dispatched) (auto simp: running_def)
  then show ?case
    using ogrt_server_run_Cons dispatch_run_Cons by fastforce
qed

text \<open>One message from the datagram to the channels, and to the end of the work on it.\<close>

definition one_message :: "string list \<Rightarrow> worker list \<Rightarrow> filesystem \<Rightarrow> string list \<Rightarrow> go_process_info \<Rightarrow> dispatcher" where
  "one_message names ws fs order m = (dispatch_start names ws fs)\<lparr>messages := [m], sending := [(0, order)]\<rparr>"

lemma one_message_decoded:
  assumes order: "mset order = mset names"
  shows "dispatch_step cd (dispatch_start names ws fs) (Decoded m order) (one_message names ws fs order m)"
  using dispatch_step.decoded [of "dispatch_start names ws fs" order cd m] order
  by (simp add: dispatch_start_def one_message_def)

lemma one_message_received:
  assumes fits: "length p + 8 \<le> cap" "cap < 2 ^ 32" and m: "u p = Some m"
    and order: "mset order = mset (map fst outs)" "outs \<noteq> []"
  shows "\<exists>r. ogrt_server_run cd u (ogrt_server_start cap outs ws fs)
      [Datagram (frame OGRT__MESSAGE_TYPE__ProcessInfoMsg p), Decode 0 order]
      (ogrt_server_start cap outs ws fs\<lparr>receiver := r, dispatch := one_message (map fst outs) ws fs order m\<rparr>)
    \<and> \<not> panicked r \<and> delivered r = [(OGRT__MESSAGE_TYPE__ProcessInfoMsg, p)]"
proof -
  let ?t = OGRT__MESSAGE_TYPE__ProcessInfoMsg and ?s0 = "ogrt_server_start cap outs ws fs"
  have len: "length (frame ?t p) \<le> cap" using fits by (simp add: frame_def)
  obtain r1 r2 where r1: "server_step (server_start cap) (Receive (frame ?t p)) r1"
      and r2: "server_step r1 (Run 0) r2" and r: "delivered r2 = [(?t, p)]" "\<not> panicked r2" "\<not> panicked r1"
    using one_by_one_delivers [of "server_start cap" "[(?t, p)]"] len fits(2)
    by (auto simp: server_start_def elim!: server_run_ConsE server_run_NilE) (auto elim: server_stepE)
  have order_ne: "order \<noteq> []" using order by auto
  have "ogrt_server_step cd u ?s0 (Datagram (frame ?t p)) (?s0\<lparr>receiver := r1\<rparr>)"
    using r1 by (intro ogrt_server_step.datagram)
      (simp_all add: running_def ogrt_server_start_def server_start_def dispatch_start_def)
  moreover have "ogrt_server_step cd u (?s0\<lparr>receiver := r1\<rparr>) (Decode 0 order)
      (?s0\<lparr>receiver := r1\<rparr>\<lparr>receiver := r2, dispatch := one_message (map fst outs) ws fs order m\<rparr>)"
    using r r2 one_message_decoded [OF order(1)] order_ne m
    by (intro ogrt_server_step.decode [where m = m])
      (simp_all add: running_def ogrt_server_start_def goroutine_def, simp add: dispatch_start_def)
  ultimately have "ogrt_server_run cd u ?s0 [Datagram (frame ?t p), Decode 0 order]
      (?s0\<lparr>receiver := r1\<rparr>\<lparr>receiver := r2, dispatch := one_message (map fst outs) ws fs order m\<rparr>)"
    by (blast intro: ogrt_server_run.intros)
  then show ?thesis using r by (intro exI [of _ r2]) simp
qed

text \<open>The same, with steps of the dispatcher behind it.\<close>

lemma one_message_then:
  assumes fits: "length p + 8 \<le> cap" "cap < 2 ^ 32" and m: "u p = Some m"
    and order: "mset order = mset (map fst outs)" "outs \<noteq> []"
    and es: "dispatch_run cd (one_message (map fst outs) ws fs order m) es d"
      "list_all (\<lambda>e. \<not> is_decoded e) es"
  shows "\<exists>r. ogrt_server_run cd u (ogrt_server_start cap outs ws fs)
      (Datagram (frame OGRT__MESSAGE_TYPE__ProcessInfoMsg p) # Decode 0 order # map Dispatch es)
      (ogrt_server_start cap outs ws fs\<lparr>receiver := r, dispatch := d\<rparr>)
    \<and> \<not> panicked r \<and> delivered r = [(OGRT__MESSAGE_TYPE__ProcessInfoMsg, p)]"
proof -
  let ?s0 = "ogrt_server_start cap outs ws fs"
  obtain r where r: "ogrt_server_run cd u ?s0
      [Datagram (frame OGRT__MESSAGE_TYPE__ProcessInfoMsg p), Decode 0 order]
      (?s0\<lparr>receiver := r, dispatch := one_message (map fst outs) ws fs order m\<rparr>)"
      "\<not> panicked r" "delivered r = [(OGRT__MESSAGE_TYPE__ProcessInfoMsg, p)]"
    using one_message_received [of p cap u m, OF fits m order] by blast
  have "ogrt_server_run cd u
      (?s0\<lparr>receiver := r, dispatch := one_message (map fst outs) ws fs order m\<rparr>) (map Dispatch es)
      (?s0\<lparr>receiver := r, dispatch := d\<rparr>)"
    using dispatch_run_lift [OF es, of "?s0\<lparr>receiver := r\<rparr>" u] r(2)
    by (simp add: ogrt_server_start_def)
  from ogrt_server_run_append [OF r(1) this] show ?thesis
    using r(2,3) by (intro exI [of _ r]) simp
qed

lemma one_message_run:
  assumes fits: "length p + 8 \<le> cap" "cap < 2 ^ 32" and m: "u p = Some m" and ws: "fresh ws"
    and order: "mset order = mset (map fst outs)" "outs \<noteq> []"
  shows "\<exists>es s. ogrt_server_run cd u (ogrt_server_start cap outs ws fs)
      (Datagram (frame OGRT__MESSAGE_TYPE__ProcessInfoMsg p) # Decode 0 order # map Dispatch es) s
    \<and> quiet cd (dispatch s) \<and> \<not> panicked (receiver s) \<and> ended s = None
    \<and> delivered (receiver s) = [(OGRT__MESSAGE_TYPE__ProcessInfoMsg, p)]"
proof -
  obtain es d where es: "dispatch_run cd (one_message (map fst outs) ws fs order m) es d"
      "list_all (\<lambda>e. \<not> is_decoded e) es" "quiet cd d"
    using quiet_reached [OF deliveries_step [OF one_message_decoded [OF order(1)] deliveries_start [OF ws]]] by blast
  from one_message_then [of p cap u m, OF fits m order es(1,2)] show ?thesis
    using es(3) by (fastforce simp: ogrt_server_start_def)
qed

text \<open>What has been received in any run of that form.\<close>

lemma dispatched_run:
  assumes "ogrt_server_run cd u s es s'" and "es = map Dispatch fs"
  shows "receiver s' = receiver s \<and> ended s' = ended s"
  using assms
  by (induction arbitrary: fs rule: ogrt_server_run.induct) (auto elim!: ogrt_server_stepE)

lemma frame_received:
  assumes step: "server_step (server_start cap) (Receive (frame t p)) r1" "server_step r1 (Run 0) r2"
    and fits: "length p + 8 \<le> cap" "cap < 2 ^ 32"
  shows "delivered r2 = [(t, p)] \<and> \<not> panicked r2"
proof -
  let ?buf = "receive_into (replicate cap 0) (frame t p)"
  have "length (frame t p) \<le> length (replicate cap (0 :: byte))" "length (replicate cap (0 :: byte)) < 2 ^ 32"
    using fits by (simp_all add: frame_def)
  note buf = decode_received [OF this]
  have "r1 = (server_start cap)\<lparr>packet_buffer := ?buf, goroutines := [(t, length p + 8)]\<rparr>"
    using step(1)
  proof cases
    case (receive buf t' l)
    then show ?thesis using buf by (simp add: server_start_def)
  next
    case (receive_panic buf)
    then show ?thesis using buf by (simp add: server_start_def decode_packet_def)
  qed
  then show ?thesis
    using step(2) buf by (auto simp: server_start_def elim!: server_stepE)
qed

lemma one_message_receiver:
  assumes run: "ogrt_server_run cd u (ogrt_server_start cap outs ws fs)
      (Datagram (frame t p) # Decode 0 order # map Dispatch es) s"
    and fits: "length p + 8 \<le> cap" "cap < 2 ^ 32"
  shows "delivered (receiver s) = [(t, p)]" and "\<not> panicked (receiver s)" and "ended s = None"
proof -
  obtain s1 s2 where s1: "ogrt_server_step cd u (ogrt_server_start cap outs ws fs) (Datagram (frame t p)) s1"
      and s2: "ogrt_server_step cd u s1 (Decode 0 order) s2"
      and rest: "ogrt_server_run cd u s2 (map Dispatch es) s"
    using run by (auto elim!: ogrt_server_run_ConsE)
  have r1: "server_step (server_start cap) (Receive (frame t p)) (receiver s1)" "ended s1 = None"
    using s1 by (auto simp: ogrt_server_start_def elim!: ogrt_server_stepE)
  have r2: "server_step (receiver s1) (Run 0) (receiver s2)" "ended s2 = ended s1"
    using s2 by (auto elim!: ogrt_server_stepE)
  show "delivered (receiver s) = [(t, p)]" "\<not> panicked (receiver s)" "ended s = None"
    using frame_received [OF r1(1) r2(1) fits] r1(2) r2(2) dispatched_run [OF rest refl] by simp_all
qed

section \<open>Single steps\<close>

text \<open>The steps of a worker of JSON files, with the states that they lead to.\<close>

definition at_phase :: "dispatcher \<Rightarrow> nat \<Rightarrow> phase \<Rightarrow> dispatcher" where
  "at_phase s k p = s\<lparr>workers := (workers s)[k := (workers s ! k)\<lparr>w_phase := p\<rparr>]\<rparr>"

lemma at_phase_simps [simp]:
  "messages (at_phase s k p) = messages s" "files (at_phase s k p) = files s"
  "channels (at_phase s k p) = channels s" "sending (at_phase s k p) = sending s"
  "persisted (at_phase s k p) = persisted s" "exited (at_phase s k p) = exited s"
  "documents (at_phase s k p) = documents s"
  "workers (at_phase s k p) = (workers s)[k := (workers s ! k)\<lparr>w_phase := p\<rparr>]"
  by (simp_all add: at_phase_def)

definition file_worker_at :: "dispatcher \<Rightarrow> nat \<Rightarrow> string \<Rightarrow> phase \<Rightarrow> bool" where
  "file_worker_at s k dir p \<longleftrightarrow> k < length (workers s) \<and> w_writer (workers s ! k) = JsonFileOutput dir
     \<and> w_phase (workers s ! k) = p \<and> exited s = None"

lemma step_read:
  assumes "file_worker_at s k dir (Received a)" and "read_job_info cd (files s) dir (messages s ! a) = Inr j"
  shows "dispatch_step cd s (Work k answer) (at_phase s k (Read_job a j))"
proof -
  have "work cd k answer s = at_phase s k (Read_job a j)"
    using assms by (cases s) (simp add: file_worker_at_def work_def worker_step_def at_phase_def Let_def)
  then show ?thesis
    using dispatch_step.work [of s k cd answer] assms(1) by (simp add: file_worker_at_def)
qed

lemma step_read_panics:
  assumes "file_worker_at s k dir (Received a)" and "read_job_info cd (files s) dir (messages s ! a) = Inl x"
  shows "dispatch_step cd s (Work k answer) (s\<lparr>exited := Some x\<rparr>)"
proof -
  have "work cd k answer s = s\<lparr>exited := Some x\<rparr>"
    using assms by (cases s) (simp add: file_worker_at_def work_def worker_step_def Let_def)
  then show ?thesis
    using dispatch_step.work [of s k cd answer] assms(1) by (simp add: file_worker_at_def)
qed

lemma step_marshal:
  assumes "file_worker_at s k dir (Read_job a j)" and "marshal_appended cd j (messages s ! a) = Inr b"
  shows "dispatch_step cd s (Work k answer) (at_phase s k (Marshalled a b))"
proof -
  have "work cd k answer s = at_phase s k (Marshalled a b)"
    using assms by (cases s) (simp add: file_worker_at_def work_def worker_step_def at_phase_def Let_def)
  then show ?thesis
    using dispatch_step.work [of s k cd answer] assms(1) by (simp add: file_worker_at_def)
qed

lemma step_create:
  assumes "file_worker_at s k dir (Marshalled a b)" and "create_job_file (files s) dir (messages s ! a) = Inr fs"
  shows "dispatch_step cd s (Work k answer) (at_phase (s\<lparr>files := fs\<rparr>) k (Created a b))"
proof -
  have "work cd k answer s = at_phase (s\<lparr>files := fs\<rparr>) k (Created a b)"
    using assms by (cases s) (simp add: file_worker_at_def work_def worker_step_def at_phase_def Let_def)
  then show ?thesis
    using dispatch_step.work [of s k cd answer] assms(1) by (simp add: file_worker_at_def)
qed

lemma step_create_panics:
  assumes "file_worker_at s k dir (Marshalled a b)" and "create_job_file (files s) dir (messages s ! a) = Inl x"
  shows "dispatch_step cd s (Work k answer) (s\<lparr>exited := Some x\<rparr>)"
proof -
  have "work cd k answer s = s\<lparr>exited := Some x\<rparr>"
    using assms by (cases s) (simp add: file_worker_at_def work_def worker_step_def Let_def)
  then show ?thesis
    using dispatch_step.work [of s k cd answer] assms(1) by (simp add: file_worker_at_def)
qed

lemma step_write:
  assumes "file_worker_at s k dir (Created a b)" and "write_job_file (files s) dir (messages s ! a) b = (None, fs)"
  shows "dispatch_step cd s (Work k answer)
    (at_phase (s\<lparr>files := fs, persisted := persisted s @ [(w_output (workers s ! k), a)]\<rparr>) k Idle)"
proof -
  have "work cd k answer s
      = at_phase (s\<lparr>files := fs, persisted := persisted s @ [(w_output (workers s ! k), a)]\<rparr>) k Idle"
    using assms by (cases s) (simp add: file_worker_at_def work_def worker_step_def at_phase_def Let_def)
  then show ?thesis
    using dispatch_step.work [of s k cd answer] assms(1) by (simp add: file_worker_at_def)
qed

lemma file_worker_at_phase [simp]:
  "file_worker_at (at_phase s k p) l dir q \<longleftrightarrow>
     (if l = k then file_worker_at s k dir (w_phase (workers s ! k)) \<and> q = p else file_worker_at s l dir q)"
  by (auto simp: file_worker_at_def)

lemma file_worker_at_files [simp]:
  "file_worker_at (s\<lparr>files := fs\<rparr>) l dir q = file_worker_at s l dir q"
  "file_worker_at (s\<lparr>persisted := ps\<rparr>) l dir q = file_worker_at s l dir q"
  by (simp_all add: file_worker_at_def)

lemma file_worker_at_any: "file_worker_at s k dir p \<Longrightarrow> file_worker_at s k dir (w_phase (workers s ! k))"
  by (simp add: file_worker_at_def)

text \<open>Without another step in between, a worker's steps are \<open>PersistProcessInfo\<close>.\<close>

lemma worker_alone:
  assumes w: "file_worker_at s k dir (Received a)"
    and p: "JsonFile_PersistProcessInfo cd dir (messages s ! a) (files s) = (None, fs)"
  shows "\<exists>s'. dispatch_run cd s (replicate 4 (Work k answer)) s' \<and> files s' = fs \<and> messages s' = messages s
    \<and> persisted s' = persisted s @ [(w_output (workers s ! k), a)] \<and> exited s' = None
    \<and> workers s' = (workers s)[k := (workers s ! k)\<lparr>w_phase := Idle\<rparr>]"
proof -
  from p obtain j b fs1 where j: "read_job_info cd (files s) dir (messages s ! a) = Inr j"
      and b: "marshal_appended cd j (messages s ! a) = Inr b"
      and c: "create_job_file (files s) dir (messages s ! a) = Inr fs1"
      and wr: "write_job_file fs1 dir (messages s ! a) b = (None, fs)"
    by (auto simp: JsonFile_PersistProcessInfo_def split: sum.splits)
  let ?s1 = "at_phase s k (Read_job a j)"
  let ?s2 = "at_phase ?s1 k (Marshalled a b)"
  let ?s3 = "at_phase (?s2\<lparr>files := fs1\<rparr>) k (Created a b)"
  let ?s4 = "at_phase (?s3\<lparr>files := fs, persisted := persisted ?s3 @ [(w_output (workers ?s3 ! k), a)]\<rparr>) k Idle"
  note w' = w file_worker_at_any [OF w]
  have k: "k < length (workers s)" using w by (simp add: file_worker_at_def)
  have "dispatch_step cd s (Work k answer) ?s1" by (rule step_read [OF w j])
  moreover have "dispatch_step cd ?s1 (Work k answer) ?s2"
    by (rule step_marshal [of _ _ dir _ j]) (use w' b k in simp_all)
  moreover have "dispatch_step cd ?s2 (Work k answer) ?s3"
    by (rule step_create [of _ _ dir]) (use w' c k in simp_all)
  moreover have "dispatch_step cd ?s3 (Work k answer) ?s4"
    by (rule step_write [of _ _ dir _ b]) (use w' wr k in simp_all)
  ultimately have "dispatch_run cd s (replicate 4 (Work k answer)) ?s4"
    by (simp add: eval_nat_numeral) (blast intro: dispatch_run.intros)
  then show ?thesis
    by (intro exI [of _ ?s4]) (use w k in \<open>simp add: file_worker_at_def\<close>)
qed

end
