(* ===== verification/Interference.thy ===== *)
theory Interference
  imports Server_Runs
begin

text \<open>
  What outputs do to each other: two workers that share a directory, which the example
  configuration warns of, and an Elasticsearch output that changes the message the other
  outputs are given.
\<close>

section \<open>Two workers in one directory\<close>

text \<open>Two workers of one output, each with one of two messages of the same job.\<close>

definition both_received :: "string \<Rightarrow> string \<Rightarrow> go_process_info \<Rightarrow> go_process_info \<Rightarrow> filesystem \<Rightarrow> dispatcher" where
  "both_received c dir m n fs =
     \<lparr>messages = [m, n], files = fs, documents = (\<lambda>_. []), channels = [c], sending = [(0, []), (1, [])],
      workers = [\<lparr>w_output = c, w_id = 0, w_writer = JsonFileOutput dir, w_phase = Received 0\<rparr>,
                 \<lparr>w_output = c, w_id = 1, w_writer = JsonFileOutput dir, w_phase = Received 1\<rparr>],
      persisted = [], exited = None\<rparr>"

definition two_workers :: "string \<Rightarrow> string \<Rightarrow> worker list" where
  "two_workers c dir = [\<lparr>w_output = c, w_id = 0, w_writer = JsonFileOutput dir, w_phase = Idle\<rparr>,
     \<lparr>w_output = c, w_id = 1, w_writer = JsonFileOutput dir, w_phase = Idle\<rparr>]"

lemma both_received_reached:
  "dispatch_run cd (dispatch_start [c] (two_workers c dir) fs)
     [Decoded m [c], Decoded n [c], Handoff 0 0, Handoff 1 1] (both_received c dir m n fs)"
proof -
  let ?s0 = "dispatch_start [c] (two_workers c dir) fs"
  let ?s1 = "?s0\<lparr>messages := [m], sending := [(0, [c])]\<rparr>"
  let ?s2 = "?s1\<lparr>messages := [m, n], sending := [(0, [c]), (1, [c])]\<rparr>"
  let ?s3 = "?s2\<lparr>sending := [(0, []), (1, [c])], workers := (workers ?s2)[0 := (workers ?s2 ! 0)\<lparr>w_phase := Received 0\<rparr>]\<rparr>"
  have "dispatch_step cd ?s0 (Decoded m [c]) ?s1"
    using dispatch_step.decoded [of ?s0 "[c]" cd m] by (simp add: dispatch_start_def)
  moreover have "dispatch_step cd ?s1 (Decoded n [c]) ?s2"
    using dispatch_step.decoded [of ?s1 "[c]" cd n] by (simp add: dispatch_start_def)
  moreover have "dispatch_step cd ?s2 (Handoff 0 0) ?s3"
    using dispatch_step.handoff [of ?s2 0 0 c "[]" 0 cd] by (simp add: dispatch_start_def two_workers_def)
  moreover have "dispatch_step cd ?s3 (Handoff 1 1) (both_received c dir m n fs)"
    using dispatch_step.handoff [of ?s3 1 1 c "[]" 1 cd]
    by (simp add: dispatch_start_def two_workers_def both_received_def)
  ultimately show ?thesis by (blast intro: dispatch_run.intros)
qed

lemma both_workers:
  "file_worker_at (both_received c dir m n fs) 0 dir (Received 0)"
  "file_worker_at (both_received c dir m n fs) (Suc 0) dir (Received (Suc 0))"
  "messages (both_received c dir m n fs) = [m, n]" "files (both_received c dir m n fs) = fs"
  "persisted (both_received c dir m n fs) = []" "length (workers (both_received c dir m n fs)) = 2"
  "w_output (workers (both_received c dir m n fs) ! 0) = c"
  "w_output (workers (both_received c dir m n fs) ! Suc 0) = c"
  by (simp_all add: file_worker_at_def both_received_def)

text \<open>Both read the file before either writes it: the second to write overwrites the first.\<close>

lemma both_read_first:
  assumes dir: "job_dir cd {m, n} dir fs" and job: "GetJobId m = GetJobId n"
  shows "\<exists>s. dispatch_run cd (both_received c dir m n fs)
      [Work 0 x, Work 1 x, Work 0 x, Work 1 x, Work 0 x, Work 0 x, Work 1 x, Work 1 x] s
    \<and> exited s = None \<and> persisted s = [(c, 0), (c, 1)] \<and> messages s = [m, n]
    \<and> job_processes cd dir (files s) (GetJobId n) = job_processes cd dir fs (GetJobId n) @ [n]"
proof -
  let ?s0 = "both_received c dir m n fs" and ?p = "job_path dir n"
  let ?ps = "listed cd (fs_files fs ?p)"
  let ?j = "\<lparr>job_JobId = Some (GetJobId n), Processes = ?ps\<rparr>"
  have p: "job_path dir m = ?p" using job by (simp add: job_path_def)
  have u: "usable_dir {m, n} dir fs" and rt: "round_trips cd {m, n}"
    and files: "job_file_ok cd {m, n} (GetJobId m) (fs_files fs ?p)"
      "job_file_ok cd {m, n} (GetJobId n) (fs_files fs ?p)"
    using dir p by (simp_all add: job_dir_def)
  have read: "read_job_info cd fs dir m = Inr ?j" "read_job_info cd fs dir n = Inr ?j"
    using read_job_info_ok [OF u, of m cd] read_job_info_ok [OF u, of n cd] files p job by simp_all
  have sub: "set ?ps \<subseteq> {m, n}" using listed_subset [OF files(2)] .
  obtain b where b: "marshal_appended cd ?j m = Inr b"
    using marshal_appended_ok [OF rt _ sub, of m] job by auto
  obtain b' where b': "marshal_appended cd ?j n = Inr b'"
      "Unmarshal_job cd b' = Some \<lparr>job_JobId = Some (GetJobId n), Processes = ?ps @ [n]\<rparr>"
    using marshal_appended_ok [OF rt _ sub, of n] by auto
  let ?f = "\<lambda>c. fs\<lparr>fs_files := (fs_files fs)(?p := Some c)\<rparr>"
  let ?s1 = "at_phase ?s0 0 (Read_job 0 ?j)"
  let ?s2 = "at_phase ?s1 1 (Read_job 1 ?j)"
  let ?s3 = "at_phase ?s2 0 (Marshalled 0 b)"
  let ?s4 = "at_phase ?s3 1 (Marshalled 1 b')"
  let ?s5 = "at_phase (?s4\<lparr>files := ?f []\<rparr>) 0 (Created 0 b)"
  let ?s6 = "at_phase (?s5\<lparr>files := ?f b, persisted := persisted ?s5 @ [(w_output (workers ?s5 ! 0), 0)]\<rparr>) 0 Idle"
  let ?s7 = "at_phase (?s6\<lparr>files := ?f []\<rparr>) 1 (Created 1 b')"
  let ?s8 = "at_phase (?s7\<lparr>files := ?f b', persisted := persisted ?s7 @ [(w_output (workers ?s7 ! 1), 1)]\<rparr>) 1 Idle"
  note both = both_workers [of c dir m n fs] both_workers(1,2) [THEN file_worker_at_any, of c dir m n fs]
  have create: "create_job_file (?f c) dir m = Inr (?f [])" "create_job_file (?f c) dir n = Inr (?f [])"
      "create_job_file fs dir m = Inr (?f [])" for c
    using create_job_file_ok [of "{m, n}" dir "?f c"] create_job_file_ok [OF u] u p by simp_all
  have wr: "write_job_file (?f []) dir m b = (None, ?f b)" "write_job_file (?f []) dir n b' = (None, ?f b')"
    using write_job_file_ok [of "{m, n}" dir "?f []"] u p by simp_all
  have "dispatch_step cd ?s0 (Work 0 x) ?s1" "dispatch_step cd ?s1 (Work 1 x) ?s2"
    using step_read [of _ _ dir] by (simp_all add: both read)
  moreover have "dispatch_step cd ?s2 (Work 0 x) ?s3" "dispatch_step cd ?s3 (Work 1 x) ?s4"
    using step_marshal [of _ _ dir _ ?j] by (simp_all add: both b b')
  moreover have "dispatch_step cd ?s4 (Work 0 x) ?s5"
    by (rule step_create [of _ _ dir]) (simp_all add: both create)
  moreover have "dispatch_step cd ?s5 (Work 0 x) ?s6"
    by (rule step_write [of _ _ dir _ b]) (simp_all add: both wr)
  moreover have "dispatch_step cd ?s6 (Work 1 x) ?s7"
    by (rule step_create [of _ _ dir]) (simp_all add: both create)
  moreover have "dispatch_step cd ?s7 (Work 1 x) ?s8"
    by (rule step_write [of _ _ dir _ b']) (simp_all add: both wr)
  ultimately have "dispatch_run cd ?s0
      [Work 0 x, Work 1 x, Work 0 x, Work 1 x, Work 0 x, Work 0 x, Work 1 x, Work 1 x] ?s8"
    by (blast intro: dispatch_run.intros)
  moreover have "exited ?s8 = None" using both(1) by (simp add: file_worker_at_def)
  moreover have "job_processes cd dir (files ?s8) (GetJobId n) = job_processes cd dir fs (GetJobId n) @ [n]"
    using b'(2) by (simp add: job_processes_def job_path_def listed_def)
  ultimately show ?thesis by (intro exI [of _ ?s8]) (simp add: both)
qed

text \<open>One reads the file while the other has emptied it: what it reads is no JSON.\<close>

lemma read_while_empty:
  assumes dir: "job_dir cd {m, n} dir fs" and job: "GetJobId m = GetJobId n" and "Unmarshal_job cd [] = None"
  shows "\<exists>s. dispatch_run cd (both_received c dir m n fs) [Work 0 x, Work 0 x, Work 0 x, Work 1 x] s
    \<and> exited s = Some Panic \<and> fs_files (files s) (job_path dir n) = Some []"
proof -
  let ?s0 = "both_received c dir m n fs" and ?p = "job_path dir n"
  let ?ps = "listed cd (fs_files fs ?p)"
  let ?j = "\<lparr>job_JobId = Some (GetJobId m), Processes = ?ps\<rparr>"
  have p: "job_path dir m = ?p" using job by (simp add: job_path_def)
  have u: "usable_dir {m, n} dir fs" and rt: "round_trips cd {m, n}"
    and files: "job_file_ok cd {m, n} (GetJobId m) (fs_files fs ?p)"
    using dir p by (simp_all add: job_dir_def)
  have read: "read_job_info cd fs dir m = Inr ?j"
    using read_job_info_ok [OF u, of m cd] files p by simp
  obtain b where b: "marshal_appended cd ?j m = Inr b"
    using marshal_appended_ok [OF rt _ listed_subset [OF files], of m] by auto
  let ?f = "fs\<lparr>fs_files := (fs_files fs)(?p := Some [])\<rparr>"
  have create: "create_job_file fs dir m = Inr ?f"
    using create_job_file_ok [OF u, of m] p by simp
  have empty: "read_job_info cd ?f dir n = Inl Panic"
    using u assms(3) by (simp add: read_job_info_def ReadFile_def usable_dir_def)
  let ?s1 = "at_phase ?s0 0 (Read_job 0 ?j)"
  let ?s2 = "at_phase ?s1 0 (Marshalled 0 b)"
  let ?s3 = "at_phase (?s2\<lparr>files := ?f\<rparr>) 0 (Created 0 b)"
  note both = both_workers [of c dir m n fs] both_workers(1,2) [THEN file_worker_at_any, of c dir m n fs]
  have "dispatch_step cd ?s0 (Work 0 x) ?s1"
    using step_read [of _ _ dir] by (simp add: both read)
  moreover have "dispatch_step cd ?s1 (Work 0 x) ?s2"
    using step_marshal [of _ _ dir _ ?j] by (simp add: both b)
  moreover have "dispatch_step cd ?s2 (Work 0 x) ?s3"
    by (rule step_create [of _ _ dir]) (simp_all add: both create)
  moreover have "dispatch_step cd ?s3 (Work 1 x) (?s3\<lparr>exited := Some Panic\<rparr>)"
    by (rule step_read_panics [of _ _ dir "Suc 0"]) (simp_all add: both empty)
  ultimately have "dispatch_run cd ?s0 [Work 0 x, Work 0 x, Work 0 x, Work 1 x] (?s3\<lparr>exited := Some Panic\<rparr>)"
    by (blast intro: dispatch_run.intros)
  then show ?thesis by (intro exI [of _ "?s3\<lparr>exited := Some Panic\<rparr>"]) simp
qed

section \<open>A message that is changed while others use it\<close>

lemma step_scale:
  assumes "k < length (workers s)" and "w_writer (workers s ! k) = JsonElasticSearchOutput url index"
    and "w_phase (workers s ! k) = Received a" and "exited s = None" and "Time (messages s ! a) \<noteq> None"
  shows "dispatch_step cd s (Work k answer)
    (at_phase (s\<lparr>messages := (messages s)[a := scaled (messages s ! a)]\<rparr>) k (Scaled a))"
proof -
  have "work cd k answer s = at_phase (s\<lparr>messages := (messages s)[a := scaled (messages s ! a)]\<rparr>) k (Scaled a)"
    using assms by (cases s) (simp add: work_def worker_step_def at_phase_def Let_def scale_time_Some)
  then show ?thesis using dispatch_step.work [of s k cd answer] assms by simp
qed

lemma step_index:
  assumes "k < length (workers s)" and "w_writer (workers s ! k) = JsonElasticSearchOutput url index"
    and "w_phase (workers s ! k) = Scaled a" and "exited s = None"
  shows "dispatch_step cd s (Work k answer)
    (at_phase (s\<lparr>documents := index_process cd answer url index (messages s ! a) (documents s),
       persisted := persisted s @ [(w_output (workers s ! k), a)]\<rparr>) k Idle)"
proof -
  have "work cd k answer s = at_phase (s\<lparr>documents := index_process cd answer url index (messages s ! a) (documents s),
       persisted := persisted s @ [(w_output (workers s ! k), a)]\<rparr>) k Idle"
    using assms by (cases s) (simp add: work_def worker_step_def at_phase_def Let_def)
  then show ?thesis using dispatch_step.work [of s k cd answer] assms by simp
qed

text \<open>An Elasticsearch output and an output of JSON files, both with the same message.\<close>

definition index_and_file :: "string \<Rightarrow> string \<Rightarrow> string \<Rightarrow> string \<Rightarrow> string \<Rightarrow> worker list" where
  "index_and_file e url index f dir =
     [\<lparr>w_output = e, w_id = 0, w_writer = JsonElasticSearchOutput url index, w_phase = Idle\<rparr>,
      \<lparr>w_output = f, w_id = 0, w_writer = JsonFileOutput dir, w_phase = Idle\<rparr>]"

definition shared_message ::
    "string \<Rightarrow> string \<Rightarrow> string \<Rightarrow> string \<Rightarrow> string \<Rightarrow> go_process_info \<Rightarrow> filesystem \<Rightarrow> dispatcher" where
  "shared_message e url index f dir m fs =
     \<lparr>messages = [m], files = fs, documents = (\<lambda>_. []), channels = [e, f], sending = [(0, [])],
      workers = [\<lparr>w_output = e, w_id = 0, w_writer = JsonElasticSearchOutput url index, w_phase = Received 0\<rparr>,
                 \<lparr>w_output = f, w_id = 0, w_writer = JsonFileOutput dir, w_phase = Received 0\<rparr>],
      persisted = [], exited = None\<rparr>"

lemma shared_message_reached:
  "dispatch_run cd (dispatch_start [e, f] (index_and_file e url index f dir) fs)
     [Decoded m [e, f], Handoff 0 0, Handoff 0 1] (shared_message e url index f dir m fs)"
proof -
  let ?s0 = "dispatch_start [e, f] (index_and_file e url index f dir) fs"
  let ?s1 = "?s0\<lparr>messages := [m], sending := [(0, [e, f])]\<rparr>"
  let ?s2 = "?s1\<lparr>sending := [(0, [f])], workers := (workers ?s1)[0 := (workers ?s1 ! 0)\<lparr>w_phase := Received 0\<rparr>]\<rparr>"
  have "dispatch_step cd ?s0 (Decoded m [e, f]) ?s1"
    using dispatch_step.decoded [of ?s0 "[e, f]" cd m] by (simp add: dispatch_start_def)
  moreover have "dispatch_step cd ?s1 (Handoff 0 0) ?s2"
    using dispatch_step.handoff [of ?s1 0 0 e "[f]" 0 cd] by (simp add: dispatch_start_def index_and_file_def)
  moreover have "dispatch_step cd ?s2 (Handoff 0 1) (shared_message e url index f dir m fs)"
    using dispatch_step.handoff [of ?s2 0 0 f "[]" 1 cd]
    by (simp add: dispatch_start_def index_and_file_def shared_message_def)
  ultimately show ?thesis by (blast intro: dispatch_run.intros)
qed

lemma shared_message_simps [simp]:
  "messages (shared_message e url index f dir m fs) = [m]"
  "files (shared_message e url index f dir m fs) = fs"
  "exited (shared_message e url index f dir m fs) = None"
  "persisted (shared_message e url index f dir m fs) = []"
  "length (workers (shared_message e url index f dir m fs)) = 2"
  "workers (shared_message e url index f dir m fs) ! 0
    = \<lparr>w_output = e, w_id = 0, w_writer = JsonElasticSearchOutput url index, w_phase = Received 0\<rparr>"
  "workers (shared_message e url index f dir m fs) ! Suc 0
    = \<lparr>w_output = f, w_id = 0, w_writer = JsonFileOutput dir, w_phase = Received 0\<rparr>"
  by (simp_all add: shared_message_def)

lemma GetJobId_scaled [simp]: "GetJobId (scaled m) = GetJobId m"
  by (simp add: scaled_def)

lemma persist_job_file:
  assumes "job_dir cd M dir fs" and "m \<in> M"
  shows "\<exists>fs'. JsonFile_PersistProcessInfo cd dir m fs = (None, fs')
    \<and> job_processes cd dir fs' (GetJobId m) = job_processes cd dir fs (GetJobId m) @ [m]"
  using persist_file_ok [OF assms] by (auto simp: job_processes_def job_path_def listed_def)

lemma file_then_index:
  assumes dir: "job_dir cd M dir fs" and m: "m \<in> M" and t: "Time m \<noteq> None"
  shows "\<exists>s. dispatch_run cd (shared_message e url index f dir m fs)
      (replicate 4 (Work 1 x) @ [Work 0 x, Work 0 x]) s
    \<and> exited s = None \<and> persisted s = [(f, 0), (e, 0)]
    \<and> job_processes cd dir (files s) (GetJobId m) = job_processes cd dir fs (GetJobId m) @ [m]"
proof -
  let ?s0 = "shared_message e url index f dir m fs"
  obtain fs' where p: "JsonFile_PersistProcessInfo cd dir m fs = (None, fs')"
      "job_processes cd dir fs' (GetJobId m) = job_processes cd dir fs (GetJobId m) @ [m]"
    using persist_job_file [OF dir m] by blast
  have w: "file_worker_at ?s0 1 dir (Received 0)" by (simp add: file_worker_at_def)
  obtain s1 where s1: "dispatch_run cd ?s0 (replicate 4 (Work 1 x)) s1" "files s1 = fs'" "messages s1 = [m]"
      "persisted s1 = [(f, 0)]" "exited s1 = None"
      "workers s1 = (workers ?s0)[1 := (workers ?s0 ! 1)\<lparr>w_phase := Idle\<rparr>]"
    using worker_alone [OF w, of cd fs' x] p(1) by auto
  let ?s2 = "at_phase (s1\<lparr>messages := [scaled m]\<rparr>) 0 (Scaled 0)"
  let ?s3 = "at_phase (?s2\<lparr>documents := index_process cd x url index (messages ?s2 ! 0) (documents ?s2),
       persisted := persisted ?s2 @ [(w_output (workers ?s2 ! 0), 0)]\<rparr>) 0 Idle"
  have "dispatch_step cd s1 (Work 0 x) ?s2"
    using step_scale [of 0 s1 url index 0 cd x] s1 t by simp
  moreover have "dispatch_step cd ?s2 (Work 0 x) ?s3"
    by (rule step_index) (simp_all add: s1)
  ultimately have "dispatch_run cd s1 [Work 0 x, Work 0 x] ?s3" by (blast intro: dispatch_run.intros)
  then show ?thesis
    using dispatch_run_append [OF s1(1)] s1 p(2) by (intro exI [of _ ?s3]) simp
qed

lemma index_then_file:
  assumes dir: "job_dir cd M dir fs" and m: "scaled m \<in> M" and t: "Time m \<noteq> None"
  shows "\<exists>s. dispatch_run cd (shared_message e url index f dir m fs)
      ([Work 0 x, Work 0 x] @ replicate 4 (Work 1 x)) s
    \<and> exited s = None \<and> persisted s = [(e, 0), (f, 0)]
    \<and> job_processes cd dir (files s) (GetJobId m) = job_processes cd dir fs (GetJobId m) @ [scaled m]"
proof -
  let ?s0 = "shared_message e url index f dir m fs"
  let ?s1 = "at_phase (?s0\<lparr>messages := [scaled m]\<rparr>) 0 (Scaled 0)"
  let ?s2 = "at_phase (?s1\<lparr>documents := index_process cd x url index (messages ?s1 ! 0) (documents ?s1),
       persisted := persisted ?s1 @ [(w_output (workers ?s1 ! 0), 0)]\<rparr>) 0 Idle"
  obtain fs' where p: "JsonFile_PersistProcessInfo cd dir (scaled m) fs = (None, fs')"
      "job_processes cd dir fs' (GetJobId m) = job_processes cd dir fs (GetJobId m) @ [scaled m]"
    using persist_job_file [OF dir m] by auto
  have "dispatch_step cd ?s0 (Work 0 x) ?s1"
    using step_scale [of 0 ?s0 url index 0 cd x] t by simp
  moreover have "dispatch_step cd ?s1 (Work 0 x) ?s2"
    by (rule step_index) simp_all
  ultimately have run: "dispatch_run cd ?s0 [Work 0 x, Work 0 x] ?s2" by (blast intro: dispatch_run.intros)
  have w: "file_worker_at ?s2 1 dir (Received 0)" by (simp add: file_worker_at_def)
  show ?thesis
    using worker_alone [OF w, of cd fs' x] p dispatch_run_append [OF run] by fastforce
qed

end
