(* ===== verification/Server_Properties.thy ===== *)
theory Server_Properties
  imports Interference Wire_Properties
begin

text \<open>
  The properties of the server behind its receive loop: every message is delivered to every
  output exactly once, the work on it ends, the files of the jobs are complete when every
  JSON output has one worker, and what goes wrong otherwise.
\<close>

section \<open>Samples\<close>

text \<open>A codec for the information of one job with two processes.\<close>

definition sample_codec :: "go_process_info \<Rightarrow> go_process_info \<Rightarrow> codec" where
  "sample_codec m n = \<lparr>
     Marshal_job = (\<lambda>j. Some (0 # map (\<lambda>p. if p = m then 1 else 2) (Processes j))),
     Unmarshal_job = (\<lambda>bs. case bs of [] \<Rightarrow> None
       | b # bs \<Rightarrow> Some \<lparr>job_JobId = Some (GetJobId m), Processes = map (\<lambda>b. if b = 1 then m else n) bs\<rparr>),
     Marshal_process = (\<lambda>p. Some [if p = m then 1 else 2])\<rparr>"

definition sample_process :: "string \<Rightarrow> go_process_info" where
  "sample_process j = empty_process_info\<lparr>JobId := Some j, Time := Some 5, Pid := Some 42\<rparr>"

definition other_process :: "string \<Rightarrow> go_process_info" where
  "other_process j = empty_process_info\<lparr>JobId := Some j, Time := Some 6, Pid := Some 43\<rparr>"

definition sample_fs :: filesystem where
  "sample_fs = \<lparr>fs_files = (\<lambda>_. None), fs_dirs = [''/'', ''/jobs''], fs_denied = [], fs_capacity = None\<rparr>"

definition file_worker :: "string \<Rightarrow> string \<Rightarrow> worker" where
  "file_worker c dir = \<lparr>w_output = c, w_id = 0, w_writer = JsonFileOutput dir, w_phase = Idle\<rparr>"

text \<open>The configuration with one output of JSON files and one worker.\<close>

definition json_file_config :: "string \<Rightarrow> string \<Rightarrow> (string \<times> output_config) list" where
  "json_file_config name dir = [(name, \<lparr>Type = ''JsonFile'', Params = dir, Workers = 1, Writer = None\<rparr>)]"

definition closed_network :: network where
  "closed_network = \<lparr>Dial = (\<lambda>_ _. False), NewClient = (\<lambda>_. False)\<rparr>"

lemma json_file_config_simps [simp]:
  "map fst (json_file_config name dir) = [name]" "json_file_config name dir \<noteq> []"
  "close_outputs (map snd (json_file_config name dir)) = Inl Panic"
  by (simp_all add: json_file_config_def)

lemma file_worker_simps [simp]:
  "w_output (file_worker c dir) = c" "w_writer (file_worker c dir) = JsonFileOutput dir"
  "w_phase (file_worker c dir) = Idle"
  by (simp_all add: file_worker_def)

lemma sample_jobs [simp]:
  "GetJobId (sample_process j) = j" "GetJobId (other_process j) = j"
  "sample_process j \<noteq> other_process j" "other_process j \<noteq> sample_process j"
  by (simp_all add: sample_process_def other_process_def empty_process_info_def GetJobId_def)

definition small_codec :: codec where
  "small_codec = sample_codec (sample_process ''7'') (other_process ''7'')"

lemma sample_round_trips:
  assumes "GetJobId m = GetJobId n"
  shows "round_trips (sample_codec m n) {m, n}"
proof -
  have "map (\<lambda>b. if b = 1 then m else n) (map (\<lambda>p. if p = m then 1 else (2 :: byte)) ps) = ps"
    if "set ps \<subseteq> {m, n}" for ps
    using that by (induction ps) auto
  then show ?thesis
    using assms by (auto simp: round_trips_def sample_codec_def)
qed

lemma sample_paths:
  "path_join ''/jobs'' ''7'' = ''/jobs/7''" "path_clean ''/jobs'' = ''/jobs''"
  by code_simp+

lemma sample_dir:
  assumes "GetJobId m = ''7''" and "GetJobId n = ''7''"
  shows "job_dir (sample_codec m n) {m, n} ''/jobs'' sample_fs"
proof -
  have "job_path ''/jobs'' m = ''/jobs/7''" "job_path ''/jobs'' n = ''/jobs/7''"
    by (simp_all only: job_path_def assms sample_paths)
  moreover have "entry_name ''7''" by (simp add: entry_name_def)
  ultimately have "usable_dir {m, n} ''/jobs'' sample_fs"
    using assms sample_paths(2) by (simp add: usable_dir_def sample_fs_def)
  then show ?thesis
    using sample_round_trips [of m n] assms by (simp add: job_dir_def job_file_ok_def sample_fs_def)
qed

lemma sample_files: "job_processes cd ''/jobs'' sample_fs j = []"
  by (simp add: job_processes_def sample_fs_def listed_def)

section \<open>Deliveries\<close>

text \<open>
  C12: Every message that the server has decoded is, for every output, exactly once either
  still to be sent, being worked on, or persisted: none is lost between the channels and
  the workers, and none is persisted twice.
\<close>

theorem deliveries_exactly_once:
  assumes "fresh ws" and "distinct names" and "dispatch_run cd (dispatch_start names ws fs) es s"
    and "c \<in> set names" and "a < length (messages s)"
  shows "count (pending s) (c, a) + count (in_work s) (c, a) + count (mset (persisted s)) (c, a) = 1"
proof -
  have ok: "deliveries_ok s" and ch: "channels s = names"
    using deliveries_run [OF assms(3) deliveries_start] channels_run [OF assms(3) deliveries_start] assms(1)
    by (simp_all add: dispatch_start_def)
  have "count (pending s) (c, a) + count (in_work s) (c, a) + count (mset (persisted s)) (c, a)
      = count (due s) (c, a)"
    using ok by (simp add: deliveries_ok_def flip: count_union)
  then show ?thesis using assms(2,4,5) by (simp add: count_due ch)
qed

theorem deliveries_exactly_once_witness:
  "\<exists>s. dispatch_run small_codec (dispatch_start [''file''] [file_worker ''file'' ''/jobs''] sample_fs)
      [Decoded (sample_process ''7'') [''file'']] s
    \<and> count (pending s) (''file'', 0) + count (in_work s) (''file'', 0) + count (mset (persisted s)) (''file'', 0) = 1"
proof -
  let ?s = "dispatch_start [''file''] [file_worker ''file'' ''/jobs''] sample_fs"
  obtain s where s: "dispatch_run small_codec ?s [Decoded (sample_process ''7'') [''file'']] s" "length (messages s) = 1"
    using dispatch_run_Cons [OF dispatch_step.decoded dispatch_run_Nil, of ?s "[''file'']" small_codec "sample_process ''7''"]
    by (auto simp: dispatch_start_def)
  have "fresh [file_worker ''file'' ''/jobs'']" by (simp add: fresh_def file_worker_def)
  from deliveries_exactly_once [OF this _ s(1), of "''file''" 0] s show ?thesis by auto
qed

text \<open>
  C13: When every output has a worker, the work on the messages that have been decoded ends:
  without new messages only finitely many steps are possible, a state in which nothing is
  left to do is reached, and in every such state of a server that has not exited each
  message has been persisted for each output.
\<close>

theorem deliveries_end:
  assumes "fresh ws" and "served names ws" and "dispatch_run cd (dispatch_start names ws fs) es s"
  shows "(\<forall>es' s'. dispatch_run cd s es' s' \<and> list_all (\<lambda>e. \<not> is_decoded e) es' \<longrightarrow> length es' \<le> work_left s)
    \<and> (\<exists>es' s'. dispatch_run cd s es' s' \<and> list_all (\<lambda>e. \<not> is_decoded e) es' \<and> quiet cd s')
    \<and> (quiet cd s \<and> exited s = None \<longrightarrow> mset (persisted s) = due s)"
proof -
  have ok: "deliveries_ok s" and ch: "channels s = names"
    and outputs: "map w_output (workers s) = map w_output ws"
    using deliveries_run [OF assms(3) deliveries_start] channels_run [OF assms(3) deliveries_start]
      outputs_run [OF assms(3) deliveries_start] assms(1) by (simp_all add: dispatch_start_def)
  then have "served (channels s) (workers s)" using assms(2) by (simp add: served_def)
  then show ?thesis
    using run_bounded [OF _ ok] quiet_reached [OF ok] quiet_done(3) [OF _ ok] by blast
qed

theorem deliveries_end_witness:
  "\<exists>es s. dispatch_run small_codec (dispatch_start [''file''] [file_worker ''file'' ''/jobs''] sample_fs) es s \<and> quiet small_codec s
    \<and> mset (persisted s) = due s"
proof -
  let ?s = "dispatch_start [''file''] [file_worker ''file'' ''/jobs''] sample_fs"
  have ws: "fresh [file_worker ''file'' ''/jobs'']" "served [''file''] [file_worker ''file'' ''/jobs'']"
    by (simp_all add: fresh_def served_def file_worker_def)
  have "quiet small_codec ?s"
    by (auto simp: quiet_def dispatch_start_def file_worker_def elim!: dispatch_stepE)
  moreover have "exited ?s = None" by (simp add: dispatch_start_def)
  ultimately show ?thesis
    using deliveries_end [OF ws dispatch_run_Nil, of small_codec sample_fs] dispatch_run_Nil by blast
qed

text \<open>
  C35: An output without a worker (\<open>Workers = 0\<close> in the configuration) stops every goroutine
  that sends to it: the goroutine stays where it is in every later state, and its message is
  never persisted by that output, nor by those that the goroutine would have sent it to
  afterwards.
\<close>

theorem output_without_worker:
  assumes "fresh ws" and "distinct names" and "dispatch_run cd (dispatch_start names ws fs) es s"
    and "c \<notin> set (map w_output ws)" and "g < length (sending s)" and "sending s ! g = (a, c # cs)"
    and "dispatch_run cd s es' s'" and "d \<in> set (c # cs)"
  shows "sending s' ! g = (a, c # cs) \<and> (d, a) \<notin> set (persisted s')"
proof -
  have ok: "deliveries_ok s" and ch: "channels s = names"
    and outputs: "map w_output (workers s) = map w_output ws"
    using deliveries_run [OF assms(3) deliveries_start] channels_run [OF assms(3) deliveries_start]
      outputs_run [OF assms(3) deliveries_start] assms(1) by (simp_all add: dispatch_start_def)
  have g: "g < length (sending s')" "sending s' ! g = (a, c # cs)"
    using starved_run [OF assms(7) ok _ assms(5,6)] outputs assms(4) by auto
  moreover have "distinct (channels s')" using channels_run [OF assms(7) ok] ch assms(2) by simp
  ultimately show ?thesis
    using pending_not_persisted [OF deliveries_run [OF assms(7) ok] _ g assms(8)] by blast
qed

theorem output_without_worker_witness:
  "\<exists>s. dispatch_run small_codec (dispatch_start [''tcp'', ''file''] [file_worker ''file'' ''/jobs''] sample_fs)
      [Decoded (sample_process ''7'') [''tcp'', ''file'']] s
    \<and> (\<forall>es' s'. dispatch_run small_codec s es' s' \<longrightarrow> (''file'', 0) \<notin> set (persisted s'))"
proof -
  let ?ws = "[file_worker ''file'' ''/jobs'']"
  let ?s = "dispatch_start [''tcp'', ''file''] ?ws sample_fs"
  let ?s1 = "?s\<lparr>messages := [sample_process ''7''], sending := [(0, [''tcp'', ''file''])]\<rparr>"
  have run: "dispatch_run small_codec ?s [Decoded (sample_process ''7'') [''tcp'', ''file'']] ?s1"
    using dispatch_run_Cons [OF dispatch_step.decoded dispatch_run_Nil, of ?s "[''tcp'', ''file'']" small_codec "sample_process ''7''"]
    by (simp add: dispatch_start_def)
  have ws: "fresh ?ws" "''tcp'' \<notin> set (map w_output ?ws)" by (simp_all add: fresh_def file_worker_def)
  have "(''file'', 0) \<notin> set (persisted s')" if "dispatch_run small_codec ?s1 es' s'" for es' s'
    using output_without_worker [OF ws(1) _ run ws(2) _ _ that, of 0 0 "[''file'']" "''file''"] by simp
  then show ?thesis using run by blast
qed

section \<open>The files of the jobs\<close>

text \<open>
  C2: From the datagrams to the files, however the goroutines and workers are scheduled, for a
  server of which no output is Elasticsearch, every output has a worker, and every JSON output
  has exactly one, with a directory of its own. The conditions on the messages that are decoded
  and on the directories, for a set \<open>M\<close> that contains these messages: every job id in \<open>M\<close> is a
  proper file name; the directory exists, never runs out of space, and the file of each such job
  may be created or written; a file that is there already holds a job with its id, whose
  processes are in \<open>M\<close>; what the JSON codec writes for lists of processes of \<open>M\<close>, it reads back.
  Then no worker panics; and when nothing is left to do, the file of every job of \<open>M\<close> lists what
  it listed at the start and then exactly the processes of that job that the receive loop has
  decoded.
\<close>

theorem job_files_complete:
  assumes "ogrt_server_run cd unmarshal (ogrt_server_start cap outs ws fs) es s"
    and "job_workers cd M ws fs" and "distinct (map fst outs)" and "outs \<noteq> []" and "served (map fst outs) ws"
    and "set (decoded_messages unmarshal (delivered (receiver s))) \<subseteq> M"
    and "w \<in> set ws" and "w_writer w = JsonFileOutput dir" and "w_output w \<in> set (map fst outs)" and "m \<in> M"
  shows "exited (dispatch s) = None \<and> (quiet cd (dispatch s) \<longrightarrow>
    (\<exists>log. job_processes cd dir (files (dispatch s)) (GetJobId m) = job_processes cd dir fs (GetJobId m) @ log
      \<and> mset log = filter_mset (\<lambda>m'. GetJobId m' = GetJobId m)
          (mset (decoded_messages unmarshal (delivered (receiver s))))))"
  using server_files_complete [OF assms(1-6)] assms(7-10) by blast

lemma sample_workers:
  assumes "GetJobId m = ''7''" and "GetJobId n = ''7''"
  shows "job_workers (sample_codec m n) {m, n} [file_worker ''file'' ''/jobs''] sample_fs"
  using sample_dir [OF assms] sample_round_trips [of m n] assms
  by (simp add: job_workers_def fresh_def separate_def reads_only_def file_worker_def)

theorem job_files_complete_witness:
  "\<exists>es s. ogrt_server_run (sample_codec (sample_process ''7'') (other_process ''7'')) (\<lambda>_. Some (sample_process ''7''))
      (ogrt_server_start 64 (json_file_config ''file'' ''/jobs'') [file_worker ''file'' ''/jobs''] sample_fs) es s
    \<and> job_processes (sample_codec (sample_process ''7'') (other_process ''7'')) ''/jobs'' (files (dispatch s)) ''7''
      = [sample_process ''7'']"
proof -
  let ?m = "sample_process ''7''" and ?n = "other_process ''7''" and ?ws = "[file_worker ''file'' ''/jobs'']"
  let ?outs = "json_file_config ''file'' ''/jobs''"
  let ?cd = "sample_codec ?m ?n" and ?u = "\<lambda>_ :: byte list. Some (sample_process ''7'')"
  obtain es s where run: "ogrt_server_run ?cd ?u (ogrt_server_start 64 ?outs ?ws sample_fs) es s"
      and q: "quiet ?cd (dispatch s)" and d: "delivered (receiver s) = [(OGRT__MESSAGE_TYPE__ProcessInfoMsg, [1])]"
    using one_message_run [of "[1]" 64 ?u ?m ?ws "[''file'']" ?outs ?cd sample_fs]
    by (auto simp: fresh_def file_worker_def)
  have ms: "decoded_messages ?u (delivered (receiver s)) = [?m]"
    by (simp add: d decoded_messages_def List.map_filter_def)
  have ws: "served (map fst ?outs) ?ws" "file_worker ''file'' ''/jobs'' \<in> set ?ws"
    "w_writer (file_worker ''file'' ''/jobs'') = JsonFileOutput ''/jobs''"
    "w_output (file_worker ''file'' ''/jobs'') \<in> set (map fst ?outs)"
    by (simp_all add: served_def file_worker_def)
  have "job_processes ?cd ''/jobs'' (files (dispatch s)) ''7'' = [?m]"
    using job_files_complete [OF run sample_workers [of ?m ?n] _ _ ws(1) _ ws(2-4), of ?m] q ms
    by (auto simp: sample_files)
  then show ?thesis using run by blast
qed

text \<open>
  C32: One worker of JSON files with its loop over messages refines the map from jobs to lists of
  processes, when nothing else writes to its directory and under these conditions, for a set
  \<open>M\<close> that contains the messages: the directory exists and never runs out of space; every job
  id in \<open>M\<close> is a proper file name, whose file may be created or written; a file that is there
  already holds a job with its id, whose processes are in \<open>M\<close>; what the JSON codec writes for
  lists of processes of \<open>M\<close>, it reads back. Then it does not panic, the conditions still hold,
  and the file of every job of \<open>M\<close> lists, behind what it listed before, the messages of the job
  in the order in which they came.
\<close>

theorem worker_records_jobs:
  assumes "job_dir cd M dir fs" and "set ms \<subseteq> M"
  shows "\<exists>fs'. persist_all (JsonFile_PersistProcessInfo cd dir) ms fs = (None, fs') \<and> job_dir cd M dir fs'
    \<and> (\<forall>m\<in>M. job_processes cd dir fs' (GetJobId m)
        = job_processes cd dir fs (GetJobId m) @ filter (\<lambda>m'. GetJobId m' = GetJobId m) ms)"
proof -
  have "list_all (\<lambda>m. m \<in> M) ms" using assms(2) by (auto simp: list_all_iff)
  moreover have "concat (map (\<lambda>m. [m]) ms) = ms" for ms :: "go_process_info list" by (induction ms) simp_all
  ultimately obtain fs' where fs': "persist_all (JsonFile_PersistProcessInfo cd dir) ms fs = (None, fs')"
      "job_dir cd M dir fs'"
      "\<forall>j. jobs_recorded cd M dir fs' j = jobs_recorded cd M dir fs j @ filter (\<lambda>m. GetJobId m = j) ms"
    using json_file.persist_all_records [OF assms(1), of ms] by auto
  have "job_processes cd dir fs' (GetJobId m)
      = job_processes cd dir fs (GetJobId m) @ filter (\<lambda>m'. GetJobId m' = GetJobId m) ms" if "m \<in> M" for m
    using fs'(3) [THEN spec, of "GetJobId m"] that by (simp add: jobs_recorded_def)
  then show ?thesis using fs'(1,2) by blast
qed

theorem worker_records_jobs_witness:
  "\<exists>fs'. persist_all (JsonFile_PersistProcessInfo (sample_codec (sample_process ''7'') (other_process ''7'')) ''/jobs'')
      [sample_process ''7'', other_process ''7'', sample_process ''7''] sample_fs = (None, fs')
    \<and> job_processes (sample_codec (sample_process ''7'') (other_process ''7'')) ''/jobs'' fs' ''7''
      = [sample_process ''7'', other_process ''7'', sample_process ''7'']"
  using worker_records_jobs [OF sample_dir [of "sample_process ''7''" "other_process ''7''"],
      of "[sample_process ''7'', other_process ''7'', sample_process ''7'']"]
  by (auto simp: sample_files)

section \<open>What goes wrong\<close>

text \<open>
  C33: Two workers of one JSON output, as the example configuration warns: with one schedule
  both finish with a message of the same job and only one of the messages is in its file;
  with another, one reads the file that the other has just emptied, the server panics, and
  the file of the job is left empty.
\<close>

theorem two_workers_collide:
  assumes "job_dir cd {m, n} dir fs" and "GetJobId m = GetJobId n" and "Unmarshal_job cd [] = None"
  shows "(\<exists>es s. dispatch_run cd (dispatch_start [c] (two_workers c dir) fs) es s \<and> exited s = None
      \<and> persisted s = [(c, 0), (c, 1)] \<and> messages s = [m, n]
      \<and> job_processes cd dir (files s) (GetJobId n) = job_processes cd dir fs (GetJobId n) @ [n])
    \<and> (\<exists>es s. dispatch_run cd (dispatch_start [c] (two_workers c dir) fs) es s \<and> exited s = Some Panic
      \<and> fs_files (files s) (job_path dir n) = Some [])"
proof -
  obtain es s where "dispatch_run cd (both_received c dir m n fs) es s" "exited s = None"
      "persisted s = [(c, 0), (c, 1)]" "messages s = [m, n]"
      "job_processes cd dir (files s) (GetJobId n) = job_processes cd dir fs (GetJobId n) @ [n]"
    using both_read_first [OF assms(1,2), of c True] by blast
  moreover obtain es' s' where "dispatch_run cd (both_received c dir m n fs) es' s'" "exited s' = Some Panic"
      "fs_files (files s') (job_path dir n) = Some []"
    using read_while_empty [OF assms, of c True] by blast
  ultimately show ?thesis
    using dispatch_run_append [OF both_received_reached] by blast
qed

theorem two_workers_collide_witness:
  "\<exists>es s. dispatch_run (sample_codec (sample_process ''7'') (other_process ''7''))
      (dispatch_start [''file''] (two_workers ''file'' ''/jobs'') sample_fs) es s
    \<and> persisted s = [(''file'', 0), (''file'', 1)] \<and> messages s = [sample_process ''7'', other_process ''7'']
    \<and> job_processes (sample_codec (sample_process ''7'') (other_process ''7'')) ''/jobs'' (files s) ''7''
      = [other_process ''7'']"
proof -
  have "Unmarshal_job (sample_codec (sample_process ''7'') (other_process ''7'')) [] = None"
    by (simp add: sample_codec_def)
  then show ?thesis
    using two_workers_collide [OF sample_dir [of "sample_process ''7''" "other_process ''7''"], of "''file''"]
    by (auto simp: sample_files)
qed

text \<open>
  C34: The outputs are given one message between them, and the Elasticsearch output multiplies
  its time by 1000 in place. What an output of JSON files records therefore depends on the
  schedule: the seconds when its worker is first, and milliseconds when the other is.
\<close>

theorem shared_time:
  assumes "job_dir cd {m, scaled m} dir fs" and "Time m \<noteq> None"
  shows "(\<exists>es s. dispatch_run cd (dispatch_start [e, f] (index_and_file e url index f dir) fs)
        ([Decoded m [e, f], Handoff 0 0, Handoff 0 1] @ es) s
      \<and> exited s = None \<and> mset (persisted s) = {#(e, 0), (f, 0)#}
      \<and> job_processes cd dir (files s) (GetJobId m) = job_processes cd dir fs (GetJobId m) @ [m])
    \<and> (\<exists>es s. dispatch_run cd (dispatch_start [e, f] (index_and_file e url index f dir) fs)
        ([Decoded m [e, f], Handoff 0 0, Handoff 0 1] @ es) s
      \<and> exited s = None \<and> mset (persisted s) = {#(e, 0), (f, 0)#}
      \<and> job_processes cd dir (files s) (GetJobId m) = job_processes cd dir fs (GetJobId m) @ [scaled m])"
proof -
  obtain es s where 1: "dispatch_run cd (shared_message e url index f dir m fs) es s"
      "exited s = None \<and> persisted s = [(f, 0), (e, 0)]"
      "job_processes cd dir (files s) (GetJobId m) = job_processes cd dir fs (GetJobId m) @ [m]"
    using file_then_index [OF assms(1) _ assms(2), of e url index f True] by auto
  obtain es' s' where 2: "dispatch_run cd (shared_message e url index f dir m fs) es' s'"
      "exited s' = None \<and> persisted s' = [(e, 0), (f, 0)]"
      "job_processes cd dir (files s') (GetJobId m) = job_processes cd dir fs (GetJobId m) @ [scaled m]"
    using index_then_file [OF assms(1) _ assms(2), of e url index f True] by blast
  have m: "mset (persisted s) = {#(e, 0), (f, 0)#}" "mset (persisted s') = {#(e, 0), (f, 0)#}"
    using 1(2) 2(2) by simp_all
  show ?thesis
    using dispatch_run_append [OF shared_message_reached 1(1)] dispatch_run_append [OF shared_message_reached 2(1)]
      1(2,3) 2(2,3) m by blast
qed

theorem shared_time_witness:
  "\<exists>es s. dispatch_run (sample_codec (sample_process ''7'') (scaled (sample_process ''7'')))
      (dispatch_start [''es'', ''file''] (index_and_file ''es'' ''http://es:9200'' ''ogrt'' ''file'' ''/jobs'') sample_fs) es s
    \<and> map Time (job_processes (sample_codec (sample_process ''7'') (scaled (sample_process ''7''))) ''/jobs''
        (files s) ''7'') = [Some 5000]"
proof -
  have "Time (sample_process ''7'') = Some 5" by (simp add: sample_process_def)
  then have time: "Time (scaled (sample_process ''7'')) = Some 5000" "Time (sample_process ''7'') \<noteq> None"
    by (simp_all add: scaled_def)
  obtain es s where run: "dispatch_run (sample_codec (sample_process ''7'') (scaled (sample_process ''7'')))
      (dispatch_start [''es'', ''file''] (index_and_file ''es'' ''http://es:9200'' ''ogrt'' ''file'' ''/jobs'') sample_fs)
      ([Decoded (sample_process ''7'') [''es'', ''file''], Handoff 0 0, Handoff 0 1] @ es) s"
      and files: "job_processes (sample_codec (sample_process ''7'') (scaled (sample_process ''7''))) ''/jobs'' (files s) ''7''
        = [scaled (sample_process ''7'')]"
    using shared_time [OF sample_dir [of "sample_process ''7''" "scaled (sample_process ''7'')"] time(2),
      of "''es''" "''file''" "''http://es:9200''" "''ogrt''"]
    by (simp add: sample_files) blast
  have "map Time (job_processes (sample_codec (sample_process ''7'') (scaled (sample_process ''7''))) ''/jobs''
      (files s) ''7'') = [Some 5000]"
    by (simp add: files time(1))
  with run show ?thesis by (intro exI conjI)
qed

text \<open>
  C36: A job id is used as a file name as it comes, for any directory that is not the empty string.
  The file of an id that is a proper file name (not empty, without a slash, neither \<open>.\<close> nor
  \<open>..\<close>) is in the directory. The file of the id \<open>../e\<close>, for a proper file name \<open>e\<close>, is in the
  parent of the directory (for the root, the root itself): the sender of a datagram can have a
  file beside the directory written. Without an id, or with an empty one, the path is that of the directory
  itself: when the directory exists the worker panics, and no file has been changed.
\<close>

theorem job_ids_as_paths:
  assumes "dir \<noteq> []"
  shows "(entry_name (GetJobId m) \<longrightarrow> parent_dir (job_path dir m) = path_clean dir)
    \<and> (GetJobId m = ''../'' @ e \<and> entry_name e \<longrightarrow> parent_dir (job_path dir m) = parent_dir dir)
    \<and> (GetJobId m = [] \<and> path_clean dir \<in> set (fs_dirs fs)
        \<longrightarrow> JsonFile_PersistProcessInfo cd dir m fs = (Some Panic, fs))"
proof (intro conjI impI)
  assume "entry_name (GetJobId m)"
  then show "parent_dir (job_path dir m) = path_clean dir" using job_path_parent [OF assms] by simp
next
  assume "GetJobId m = ''../'' @ e \<and> entry_name e"
  then have "job_path dir m = path_join (parent_dir dir) e" and "entry_name e"
    using path_join_escape [OF assms, of e] by (simp_all add: job_path_def)
  then show "parent_dir (job_path dir m) = parent_dir dir"
    using parent_path_join [of "parent_dir dir" e] parent_dir_not_Nil [OF assms] assms
    by (simp add: parent_dir_def)
next
  assume m: "GetJobId m = [] \<and> path_clean dir \<in> set (fs_dirs fs)"
  then have "create_job_file fs dir m = Inl Panic"
    using path_join_empty [OF assms] by (simp add: create_job_file_def Create_def job_path_def)
  then show "JsonFile_PersistProcessInfo cd dir m fs = (Some Panic, fs)"
    by (auto simp: JsonFile_PersistProcessInfo_def read_job_info_def marshal_appended_def
        split: option.splits sum.splits)
qed

theorem job_ids_as_paths_witness:
  "JsonFile_PersistProcessInfo small_codec ''/jobs'' empty_process_info sample_fs = (Some Panic, sample_fs)
   \<and> parent_dir (job_path ''/tmp/jobs'' (sample_process ''../x'')) = ''/tmp''"
proof -
  have "GetJobId empty_process_info = []" by (simp add: empty_process_info_def)
  moreover have "path_clean ''/jobs'' \<in> set (fs_dirs sample_fs)" by (simp add: sample_paths sample_fs_def)
  moreover have "parent_dir ''/tmp/jobs'' = ''/tmp''" by code_simp
  moreover have "entry_name ''x''" by (simp add: entry_name_def)
  ultimately show ?thesis
    using job_ids_as_paths [of "''/jobs''" empty_process_info _ sample_fs small_codec]
      job_ids_as_paths [of "''/tmp/jobs''" "sample_process ''../x''" "''x''" sample_fs small_codec] by simp
qed

section \<open>A stream that breaks\<close>

text \<open>What a worker of JSON over a stream does with messages and the answers of the network.\<close>

fun stream_all :: "codec \<Rightarrow> (go_process_info \<times> bool) list \<Rightarrow> writer \<Rightarrow> writer" where
  "stream_all cd [] w = w"
| "stream_all cd ((m, connected) # ms) w
     = stream_all cd ms (JsonOverTcp_PersistProcessInfo cd connected m w)"

text \<open>
  The stream carries the messages up to the first failed write; after that nothing is sent,
  even when the network would accept it again, and no message is kept.
\<close>

theorem stream_until_failure:
  assumes "list_all (\<lambda>(m, connected). Marshal_process cd m \<noteq> None) ms"
  shows "stream_bytes (stream_all cd ms (JsonOverTcpOutput False sent)) ()
    = sent @ concat (map (\<lambda>(m, connected). the (Marshal_process cd m) @ [10]) (takeWhile snd ms))"
proof -
  have failed: "stream_all cd ms (JsonOverTcpOutput True sent) = JsonOverTcpOutput True sent" for ms sent
    by (induction ms) (auto simp: JsonOverTcp_PersistProcessInfo_def)
  show ?thesis
    using assms
  proof (induction ms arbitrary: sent)
    case (Cons x ms)
    then show ?case
      by (cases x) (auto simp: JsonOverTcp_PersistProcessInfo_def failed stream_bytes_def)
  qed (simp add: stream_bytes_def)
qed

lemma sample_marshal: "Marshal_process (sample_codec m n) p = Some [if p = m then 1 else 2]"
  by (simp add: sample_codec_def)

theorem stream_until_failure_witness:
  "stream_bytes (stream_all (sample_codec (sample_process ''7'') (other_process ''7''))
      [(sample_process ''7'', True), (other_process ''7'', False), (sample_process ''7'', True)]
      (JsonOverTcpOutput False [])) () = [1, 10]"
  using stream_until_failure [of "sample_codec (sample_process ''7'') (other_process ''7'')"
      "[(sample_process ''7'', True), (other_process ''7'', False), (sample_process ''7'', True)]" "[]"]
  by (simp add: sample_marshal del: stream_all.simps)

section \<open>The example configuration\<close>

lemma path_join_neq_dir:
  assumes "d \<noteq> []" and "entry_name e"
  shows "path_join d e \<noteq> path_clean d"
  using assms by (simp add: path_join_entry path_clean_def print_path_inject)

text \<open>
  A server with one output of JSON files and one worker, as in server/ogrt.conf: when its
  directory is there or can be made, the workers that it starts are workers for all messages
  whose job ids are file names, as the properties above need them.
\<close>

lemma json_file_server_starts:
  assumes dir: "dir \<noteq> []" "parent_dir dir \<in> set (fs_dirs fs)" "path_clean dir \<notin> set (fs_denied fs)"
      "fs_files fs (path_clean dir) = None" "fs_capacity fs = None"
    and M: "round_trips cd M" "\<forall>m\<in>M. entry_name (GetJobId m) \<and> job_path dir m \<notin> set (fs_dirs fs)
      \<and> job_path dir m \<notin> set (fs_denied fs) \<and> job_file_ok cd M (GetJobId m) (fs_files fs (job_path dir m))"
  shows "\<exists>fs'. instantiate_outputs net (json_file_config name dir) fs = (Inr [file_worker name dir], fs')
    \<and> job_workers cd M [file_worker name dir] fs' \<and> fs_files fs' = fs_files fs"
proof -
  define fs' where "fs' = (if path_clean dir \<in> set (fs_dirs fs) then fs
    else fs\<lparr>fs_dirs := path_clean dir # fs_dirs fs\<rparr>)"
  have "JsonFile_Open dir fs = (Inr (JsonFileOutput dir), fs')"
    using dir by (simp add: JsonFile_Open_def Stat_def Mkdir_def fs'_def)
  then have "instantiate_outputs net (json_file_config name dir) fs = (Inr [file_worker name dir], fs')"
    by (simp add: json_file_config_def open_writer_def file_worker_def)
  moreover have kept: "fs_files fs' = fs_files fs" "fs_denied fs' = fs_denied fs" "fs_capacity fs' = None"
      "path_clean dir \<in> set (fs_dirs fs')" "set (fs_dirs fs') \<subseteq> insert (path_clean dir) (set (fs_dirs fs))"
    using dir(5) by (auto simp: fs'_def)
  have "job_path dir m \<notin> set (fs_dirs fs')" if "m \<in> M" for m
    using kept(5) M(2) that path_join_neq_dir [OF dir(1), of "GetJobId m"] by (auto simp: job_path_def)
  then have "job_dir cd M dir fs'"
    using M dir(1) kept by (simp add: job_dir_def usable_dir_def)
  then have "job_workers cd M [file_worker name dir] fs'"
    using M(1) by (simp add: job_workers_def fresh_def separate_def reads_only_def)
  ultimately show ?thesis using kept(1) by blast
qed

section \<open>The receive buffer of the configuration\<close>

text \<open>
  The size of the receive buffer is not checked: when the key is missing, or less than the
  eight bytes of a header, the server starts, and any datagram ends it with a panic.
\<close>

theorem small_buffer_panics:
  assumes "server_process net resolves listens (Some config) fs = Inr s" and "MaxReceiveBuffer config < 8"
  shows "\<exists>s'. ogrt_server_step cd unmarshal s (Datagram d) s' \<and> \<not> running s'"
    and "ogrt_server_step cd unmarshal s (Datagram d) s' \<Longrightarrow> \<not> running s'"
proof -
  obtain ws fs' where s: "s = ogrt_server_start (unat (MaxReceiveBuffer config)) (Outputs config) ws fs'"
    using assms(1)
    by (auto simp: server_process_def ogrt_server_main_def split: if_splits sum.splits prod.splits)
  have "unat (MaxReceiveBuffer config) < 8"
    using assms(2) by (simp add: word_less_nat_alt)
  then have small: "length (receive_into (packet_buffer (receiver s)) d) < 8"
    by (simp add: s ogrt_server_start_def server_start_def)
  then have none: "decode_header (receive_into (packet_buffer (receiver s)) d) = None"
    "decode_packet (receive_into (packet_buffer (receiver s)) d) = None"
    by (auto simp: decode_header_def decode_packet_def go_slice_def split: option.split)
  have up: "running s" "listening s" "\<not> panicked (receiver s)"
    by (simp_all add: s running_def ogrt_server_start_def server_start_def dispatch_start_def)
  show "\<exists>s'. ogrt_server_step cd unmarshal s (Datagram d) s' \<and> \<not> running s'"
    using ogrt_server_step.datagram [OF up(1,2) server_step.receive_panic [OF up(3) refl none(2)]]
    by (fastforce simp: running_def)
  show "ogrt_server_step cd unmarshal s (Datagram d) s' \<Longrightarrow> \<not> running s'"
    using none by (auto simp: running_def elim!: ogrt_server_stepE server_stepE)
qed

text \<open>A configuration like server/ogrt.conf: one output of JSON files with one worker.\<close>

definition example_config :: "32 word \<Rightarrow> configuration" where
  "example_config n = \<lparr>Address = [], Port = 7971, MaxReceiveBuffer = n, Outputs = json_file_config ''file'' ''/jobs''\<rparr>"

theorem small_buffer_panics_witness:
  "\<exists>s s'. server_process closed_network (\<lambda>_. True) (\<lambda>_. True)
      (Some (example_config 0)) sample_fs = Inr s
    \<and> ogrt_server_step small_codec (\<lambda>_. None) s (Datagram [0]) s' \<and> \<not> running s'"
proof -
  have start: "server_process closed_network (\<lambda>_. True) (\<lambda>_. True)
      (Some (example_config 0)) sample_fs
    = Inr (ogrt_server_start 0 (json_file_config ''file'' ''/jobs'') [file_worker ''file'' ''/jobs''] sample_fs)"
    by (simp add: server_process_def example_config_def ogrt_server_main_def json_file_config_def open_writer_def
        JsonFile_Open_def Stat_def sample_paths sample_fs_def file_worker_def)
  have "MaxReceiveBuffer (example_config 0) < 8" by (simp add: example_config_def)
  from small_buffer_panics(1) [OF start this] show ?thesis using start by blast
qed

end
