(* ===== verification/Shutdown.thy ===== *)
theory Shutdown
  imports Server_Properties
begin

text \<open>
  The end of the server: what the files of the jobs hold at every moment at which it may be
  stopped, what the signal handler does, and what a server finds that is started again.
\<close>

section \<open>The files at any moment\<close>

lemma separate_output:
  assumes "separate ws" and "v \<in> set ws" and "u \<in> set ws"
    and "w_writer v = JsonFileOutput dir" and "w_output u = w_output v"
  shows "u = v"
proof -
  obtain k l where "k < length ws" "l < length ws" "v = ws ! k" "u = ws ! l"
    using assms(2,3) by (auto simp: in_set_conv_nth)
  moreover have "k = l"
    using assms(1,4,5) calculation unfolding separate_def apart_def by metis
  ultimately show ?thesis by simp
qed

text \<open>
  C3: The files when the server is stopped, at whatever state of a run: by a panic elsewhere, a
  signal or the return of \<open>main\<close>. The conditions are that no output is Elasticsearch and every JSON
  output has one worker with a directory of its own; and, for a set \<open>M\<close> that contains the decoded
  messages: every job id in \<open>M\<close> is a proper file name; the directory exists, never runs out of
  space, and the file of each such job may be created or written; a file that is there at the
  start holds a job with its id, whose processes are in \<open>M\<close>; what the JSON codec writes for lists
  of processes of \<open>M\<close>, it reads back. Then the file of a job of \<open>M\<close> lists what it listed at the
  start and then exactly the processes that its worker has finished with, which are among those
  that were decoded, unless the worker is between creating the file and writing it: then the
  file is empty.
\<close>

theorem files_when_stopped:
  assumes "ogrt_server_run cd unmarshal (ogrt_server_start cap outs ws fs) es s"
    and "job_workers cd M ws fs" and "distinct (map fst outs)" and "outs \<noteq> []"
    and "set (decoded_messages unmarshal (delivered (receiver s))) \<subseteq> M"
    and "w \<in> set ws" and "w_writer w = JsonFileOutput dir" and "m \<in> M"
  shows "mset (job_log (dispatch s) (w_output w) (GetJobId m))
      \<subseteq># filter_mset (\<lambda>m'. GetJobId m' = GetJobId m)
        (mset (decoded_messages unmarshal (delivered (receiver s))))
    \<and> (if \<exists>v\<in>set (workers (dispatch s)). w_output v = w_output w \<and> being_written (dispatch s) v m
       then fs_files (files (dispatch s)) (job_path dir m) = Some []
       else job_processes cd dir (files (dispatch s)) (GetJobId m)
         = job_processes cd dir fs (GetJobId m) @ job_log (dispatch s) (w_output w) (GetJobId m))"
proof -
  note reached = server_files_reached [OF assms(1,2,4,5)]
  obtain v where v: "v \<in> set (workers (dispatch s))" "w_writer v = JsonFileOutput dir" "w_output v = w_output w"
    using reached(5) [OF assms(6,7)] by blast
  have sep: "separate (workers (dispatch s))" and del: "deliveries_ok (dispatch s)"
    and ok: "contents_ok cd M (fs_files fs) (dispatch s) v dir m"
    using reached(1) v(1,2) assms(8) by (auto simp: job_files_ok_def list_all_iff worker_files_ok_def)
  have "u = v" if "u \<in> set (workers (dispatch s))" "w_output u = w_output w" for u
    using separate_output [OF sep v(1) that(1) v(2)] that(2) v(3) by simp
  then have written: "(\<exists>u\<in>set (workers (dispatch s)). w_output u = w_output w \<and> being_written (dispatch s) u m)
      \<longleftrightarrow> being_written (dispatch s) v m"
    using v(1,3) by blast
  show ?thesis
    unfolding written using ok job_log_part [OF del, of "w_output w" "GetJobId m"] assms(3) reached(2,3) v(3)
    by (cases "being_written (dispatch s) v m")
      (simp_all add: contents_ok_def expected_def job_processes_def job_path_def)
qed

section \<open>The signal handler\<close>





section \<open>Stopped in the middle of a write\<close>

text \<open>The server of the example configuration, when the directory is there.\<close>

lemma json_file_main:
  assumes "usable_dir M dir fs" and "path_clean dir \<notin> set (fs_denied fs)"
  shows "ogrt_server_main net cap (json_file_config c dir) fs
    = Inr (ogrt_server_start cap (json_file_config c dir) [file_worker c dir] fs)"
  using assms
  by (simp add: ogrt_server_main_def json_file_config_def open_writer_def JsonFile_Open_def Stat_def
      usable_dir_def file_worker_def)

definition single_worker :: "string \<Rightarrow> string \<Rightarrow> filesystem \<Rightarrow> go_process_info \<Rightarrow> dispatcher" where
  "single_worker c dir fs m = (dispatch_start [c] [(file_worker c dir)\<lparr>w_phase := Received 0\<rparr>] fs)
     \<lparr>messages := [m], sending := [(0, [])]\<rparr>"

lemma single_worker_reached:
  "dispatch_step cd (one_message [c] [file_worker c dir] fs [c] m) (Handoff 0 0) (single_worker c dir fs m)"
  using dispatch_step.handoff [of "one_message [c] [file_worker c dir] fs [c] m" 0 0 c "[]" 0 cd]
  by (simp add: one_message_def dispatch_start_def single_worker_def)

lemma single_worker_simps [simp]:
  "file_worker_at (single_worker c dir fs m) 0 dir (Received 0)" "files (single_worker c dir fs m) = fs"
  "messages (single_worker c dir fs m) = [m]" "exited (single_worker c dir fs m) = None"
  "workers (single_worker c dir fs m) = [(file_worker c dir)\<lparr>w_phase := Received 0\<rparr>]"
  by (simp_all add: single_worker_def file_worker_at_def) (simp_all add: dispatch_start_def)

text \<open>The worker has emptied the file; and a worker that finds an empty file.\<close>

lemma single_worker_creates:
  assumes "job_dir cd M dir fs" and "m \<in> M"
  shows "\<exists>d. dispatch_run cd (one_message [c] [file_worker c dir] fs [c] m)
      [Handoff 0 0, Work 0 x, Work 0 x, Work 0 x] d
    \<and> files d = fs\<lparr>fs_files := (fs_files fs)(job_path dir m := Some [])\<rparr> \<and> exited d = None
    \<and> messages d = [m] \<and> (\<exists>b. workers d = [(file_worker c dir)\<lparr>w_phase := Created 0 b\<rparr>])"
proof -
  let ?s0 = "single_worker c dir fs m" and ?fs = "fs\<lparr>fs_files := (fs_files fs)(job_path dir m := Some [])\<rparr>"
  let ?j = "\<lparr>job_JobId = Some (GetJobId m), Processes = listed cd (fs_files fs (job_path dir m))\<rparr>"
  have u: "usable_dir M dir fs" and rt: "round_trips cd M"
    and ok: "job_file_ok cd M (GetJobId m) (fs_files fs (job_path dir m))"
    using assms by (simp_all add: job_dir_def)
  obtain b where b: "marshal_appended cd ?j m = Inr b"
    using marshal_appended_ok [OF rt assms(2) listed_subset [OF ok]] by blast
  let ?s1 = "at_phase ?s0 0 (Read_job 0 ?j)"
  let ?s2 = "at_phase ?s1 0 (Marshalled 0 b)"
  let ?s3 = "at_phase (?s2\<lparr>files := ?fs\<rparr>) 0 (Created 0 b)"
  have w: "file_worker_at ?s0 0 dir (w_phase (workers ?s0 ! 0))"
    by (rule file_worker_at_any) (rule single_worker_simps)
  have "dispatch_step cd ?s0 (Work 0 x) ?s1"
    using step_read [of _ _ dir] read_job_info_ok [OF u assms(2) ok] by simp
  moreover have "dispatch_step cd ?s1 (Work 0 x) ?s2"
    by (rule step_marshal [of _ _ dir _ ?j]) (simp_all add: w b)
  moreover have "dispatch_step cd ?s2 (Work 0 x) ?s3"
    by (rule step_create [of _ _ dir]) (simp_all add: w create_job_file_ok [OF u assms(2)])
  ultimately have "dispatch_run cd (one_message [c] [file_worker c dir] fs [c] m)
      [Handoff 0 0, Work 0 x, Work 0 x, Work 0 x] ?s3"
    using single_worker_reached by (blast intro: dispatch_run.intros)
  then show ?thesis by (intro exI [of _ ?s3]) (simp, intro exI, rule refl)
qed

lemma single_worker_reads_empty:
  assumes "usable_dir M dir fs" and "m \<in> M" and "fs_files fs (job_path dir m) = Some []"
    and "Unmarshal_job cd [] = None"
  shows "\<exists>d. dispatch_run cd (one_message [c] [file_worker c dir] fs [c] m) [Handoff 0 0, Work 0 x] d
    \<and> exited d = Some Panic"
proof -
  let ?s0 = "single_worker c dir fs m"
  have "read_job_info cd fs dir m = Inl Panic"
    using assms by (simp add: read_job_info_def ReadFile_def usable_dir_def)
  then have "dispatch_step cd ?s0 (Work 0 x) (?s0\<lparr>exited := Some Panic\<rparr>)"
    by (intro step_read_panics [of _ _ dir 0]) simp_all
  then have "dispatch_run cd (one_message [c] [file_worker c dir] fs [c] m) [Handoff 0 0, Work 0 x]
      (?s0\<lparr>exited := Some Panic\<rparr>)"
    using single_worker_reached by (blast intro: dispatch_run.intros)
  then show ?thesis by (intro exI [of _ "?s0\<lparr>exited := Some Panic\<rparr>"]) simp
qed

lemma single_worker_cannot_create:
  assumes "fs_files fs (job_path dir m) = None" and "create_job_file fs dir m = Inl x"
    and "Marshal_job cd \<lparr>job_JobId = Some (GetJobId m), Processes = [m]\<rparr> = Some b" and "dir \<noteq> []"
  shows "\<exists>d. dispatch_run cd (one_message [c] [file_worker c dir] fs [c] m)
      [Handoff 0 0, Work 0 y, Work 0 y, Work 0 y] d \<and> exited d = Some x"
proof -
  let ?s0 = "single_worker c dir fs m" and ?j = "\<lparr>job_JobId = Some (GetJobId m), Processes = []\<rparr>"
  let ?s1 = "at_phase ?s0 0 (Read_job 0 ?j)"
  let ?s2 = "at_phase ?s1 0 (Marshalled 0 b)"
  have w: "file_worker_at ?s0 0 dir (w_phase (workers ?s0 ! 0))"
    by (rule file_worker_at_any) (rule single_worker_simps)
  have "dispatch_step cd ?s0 (Work 0 y) ?s1"
    using step_read [of _ _ dir] assms(1,4) by (simp add: read_job_info_def ReadFile_def)
  moreover have "dispatch_step cd ?s1 (Work 0 y) ?s2"
    by (rule step_marshal [of _ _ dir _ ?j]) (simp_all add: w marshal_appended_def assms(3))
  moreover have "dispatch_step cd ?s2 (Work 0 y) (?s2\<lparr>exited := Some x\<rparr>)"
    by (rule step_create_panics [of _ _ dir 0 b]) (simp_all add: w assms(2))
  ultimately have "dispatch_run cd (one_message [c] [file_worker c dir] fs [c] m)
      [Handoff 0 0, Work 0 y, Work 0 y, Work 0 y] (?s2\<lparr>exited := Some x\<rparr>)"
    using single_worker_reached by (blast intro: dispatch_run.intros)
  then show ?thesis by (intro exI [of _ "?s2\<lparr>exited := Some x\<rparr>"]) simp
qed

lemma stopped_in_write:
  assumes "job_dir cd M dir fs" and "m \<in> M" and "unmarshal p = Some m" and "length p + 8 \<le> cap" and "cap < 2 ^ 32"
  shows "\<exists>s. ogrt_server_run cd unmarshal (ogrt_server_start cap (json_file_config c dir) [file_worker c dir] fs)
        (Datagram (frame OGRT__MESSAGE_TYPE__ProcessInfoMsg p) # Decode 0 [c]
          # map Dispatch [Handoff 0 0, Work 0 x, Work 0 x, Work 0 x] @ [Signal, Shutdown]) s
    \<and> ended s = Some (Inl Panic) \<and> delivered (receiver s) = [(OGRT__MESSAGE_TYPE__ProcessInfoMsg, p)]
    \<and> files (dispatch s) = fs\<lparr>fs_files := (fs_files fs)(job_path dir m := Some [])\<rparr>
    \<and> messages (dispatch s) = [m]
    \<and> (\<exists>b. workers (dispatch s) = [(file_worker c dir)\<lparr>w_phase := Created 0 b\<rparr>])"
proof -
  let ?outs = "json_file_config c dir" and ?t = OGRT__MESSAGE_TYPE__ProcessInfoMsg
  let ?start = "ogrt_server_start cap ?outs [file_worker c dir] fs"
  obtain d where "dispatch_run cd (one_message (map fst ?outs) [file_worker c dir] fs [c] m)
      [Handoff 0 0, Work 0 x, Work 0 x, Work 0 x] d"
      and d: "files d = fs\<lparr>fs_files := (fs_files fs)(job_path dir m := Some [])\<rparr>" "exited d = None"
        "messages d = [m]" "\<exists>b. workers d = [(file_worker c dir)\<lparr>w_phase := Created 0 b\<rparr>]"
    using single_worker_creates [OF assms(1,2), of c x] by auto
  from one_message_then [of p cap unmarshal m "[c]" ?outs, OF assms(4,5,3) _ _ this(1)]
  obtain r where run: "ogrt_server_run cd unmarshal ?start
      (Datagram (frame ?t p) # Decode 0 [c] # map Dispatch [Handoff 0 0, Work 0 x, Work 0 x, Work 0 x])
      (?start\<lparr>receiver := r, dispatch := d\<rparr>)" and r: "\<not> panicked r" "delivered r = [(?t, p)]"
    by auto
  let ?s = "?start\<lparr>receiver := r, dispatch := d\<rparr>"
  let ?s1 = "?s\<lparr>listening := False, ended := Some (Inl Panic)\<rparr>"
  have up: "running ?s" "listening ?s" "configured ?s = map snd ?outs" "running (?s\<lparr>listening := False\<rparr>)"
    using r d(2) by (simp_all add: running_def ogrt_server_start_def)
  have "ogrt_server_run cd unmarshal ?s [Signal, Shutdown] ?s1"
    using ogrt_server_step.signal [OF up(1,2), of cd unmarshal]
      ogrt_server_step.shutdown [OF up(4), of cd unmarshal] up(3)
    by (auto intro!: ogrt_server_run.intros)
  from ogrt_server_run_append [OF run this] show ?thesis
    using r(2) d by (intro exI [of _ ?s1]) simp
qed

text \<open>
  C14: A signal while a worker is between \<open>os.Create\<close> and \<open>file.Write\<close> costs the whole file of
  the job: what it listed before is gone with the message, and a server that is started
  again panics on the next message of that job, since an empty file is no JSON.
\<close>

theorem stop_loses_job:
  assumes "job_dir cd {m, n} dir fs" and "path_clean dir \<notin> set (fs_denied fs)"
    and "GetJobId m = GetJobId n" and "Unmarshal_job cd [] = None"
    and "unmarshal p = Some m" and "unmarshal q = Some n"
    and "length p + 8 \<le> cap" and "length q + 8 \<le> cap" and "cap < 2 ^ 32"
  shows "\<exists>s s1 s2 s3. ogrt_server_main net cap (json_file_config c dir) fs = Inr s
    \<and> ogrt_server_run cd unmarshal s
        (Datagram (frame OGRT__MESSAGE_TYPE__ProcessInfoMsg p) # Decode 0 [c]
          # map Dispatch [Handoff 0 0, Work 0 x, Work 0 x, Work 0 x] @ [Signal, Shutdown]) s1
    \<and> ended s1 = Some (Inl Panic)
    \<and> job_processes cd dir (files (dispatch s1)) (GetJobId m) = []
    \<and> ogrt_server_main net cap (json_file_config c dir) (files (dispatch s1)) = Inr s2
    \<and> ogrt_server_run cd unmarshal s2
        (Datagram (frame OGRT__MESSAGE_TYPE__ProcessInfoMsg q) # Decode 0 [c]
          # map Dispatch [Handoff 0 0, Work 0 x]) s3
    \<and> exited (dispatch s3) = Some Panic"
proof -
  let ?outs = "json_file_config c dir" and ?t = OGRT__MESSAGE_TYPE__ProcessInfoMsg
  let ?start = "ogrt_server_start cap ?outs [file_worker c dir]"
  have u: "usable_dir {m, n} dir fs" using assms(1) by (simp add: job_dir_def)
  obtain s1 where stopped: "ogrt_server_run cd unmarshal (?start fs)
      (Datagram (frame ?t p) # Decode 0 [c]
        # map Dispatch [Handoff 0 0, Work 0 x, Work 0 x, Work 0 x] @ [Signal, Shutdown]) s1"
      "ended s1 = Some (Inl Panic)" and fs: "files (dispatch s1) = fs\<lparr>fs_files := (fs_files fs)(job_path dir m := Some [])\<rparr>"
    using stopped_in_write [where m = m and p = p and cap = cap and unmarshal = unmarshal and c = c and x = x,
        OF assms(1) _ assms(5,7,9)] by auto
  let ?fs = "files (dispatch s1)"
  have u': "usable_dir {m, n} dir ?fs" and empty: "fs_files ?fs (job_path dir n) = Some []"
    and denied: "path_clean dir \<notin> set (fs_denied ?fs)"
    using u assms(2,3) by (simp_all add: fs job_path_def)
  obtain d' where "dispatch_run cd (one_message (map fst ?outs) [file_worker c dir] ?fs [c] n)
      [Handoff 0 0, Work 0 x] d'" and d': "exited d' = Some Panic"
    using single_worker_reads_empty [OF u' _ empty assms(4), of c x] by auto
  from one_message_then [of q cap unmarshal n "[c]" ?outs, OF assms(8,9,6) _ _ this(1)]
  obtain r' where "ogrt_server_run cd unmarshal (?start ?fs)
      (Datagram (frame ?t q) # Decode 0 [c] # map Dispatch [Handoff 0 0, Work 0 x])
      (?start ?fs\<lparr>receiver := r', dispatch := d'\<rparr>)"
    by auto
  moreover have "job_processes cd dir ?fs (GetJobId m) = []"
    using empty assms(3,4) by (simp add: job_processes_def job_path_def listed_def)
  ultimately show ?thesis
    using stopped json_file_main [OF u assms(2), of net cap c] json_file_main [OF u' denied, of net cap c] d'
    by (intro exI [of _ "?start fs"] exI [of _ s1] exI [of _ "?start ?fs"]
        exI [of _ "?start ?fs\<lparr>receiver := r', dispatch := d'\<rparr>"]) simp
qed

section \<open>Samples\<close>

text \<open>A job of which the file lists one process already.\<close>

definition begun_fs :: filesystem where
  "begun_fs = sample_fs\<lparr>fs_files := (fs_files sample_fs)(''/jobs/7'' := Some [0, 1])\<rparr>"

lemma small_dir: "job_dir small_codec {sample_process ''7'', other_process ''7''} ''/jobs'' sample_fs"
  using sample_dir [of "sample_process ''7''" "other_process ''7''"] by (simp add: small_codec_def)

lemma begun_path: "job_path ''/jobs'' (sample_process ''7'') = ''/jobs/7''" "job_path ''/jobs'' (other_process ''7'') = ''/jobs/7''"
  by (simp_all only: job_path_def sample_jobs sample_paths)

lemma begun_dir: "job_dir small_codec {sample_process ''7'', other_process ''7''} ''/jobs'' begun_fs"
  using small_dir
  by (auto simp: job_dir_def begun_fs_def begun_path job_file_ok_def small_codec_def sample_codec_def)

lemma begun_job: "job_processes small_codec ''/jobs'' begun_fs ''7'' = [sample_process ''7'']"
  by (simp add: job_processes_def begun_fs_def sample_paths listed_def small_codec_def sample_codec_def)

definition two_payloads :: "byte list \<Rightarrow> go_process_info option" where
  "two_payloads p = Some (if p = [1] then sample_process ''7'' else other_process ''7'')"

theorem stop_loses_job_witness:
  "job_processes small_codec ''/jobs'' begun_fs ''7'' = [sample_process ''7'']
   \<and> (\<exists>s s1 s2 s3. ogrt_server_main closed_network 64 (json_file_config ''file'' ''/jobs'') begun_fs = Inr s
    \<and> ogrt_server_run small_codec two_payloads s
        (Datagram (frame OGRT__MESSAGE_TYPE__ProcessInfoMsg [1]) # Decode 0 [''file'']
          # map Dispatch [Handoff 0 0, Work 0 True, Work 0 True, Work 0 True] @ [Signal, Shutdown]) s1
    \<and> ended s1 = Some (Inl Panic)
    \<and> job_processes small_codec ''/jobs'' (files (dispatch s1)) ''7'' = []
    \<and> ogrt_server_main closed_network 64 (json_file_config ''file'' ''/jobs'') (files (dispatch s1)) = Inr s2
    \<and> ogrt_server_run small_codec two_payloads s2
        (Datagram (frame OGRT__MESSAGE_TYPE__ProcessInfoMsg [2]) # Decode 0 [''file'']
          # map Dispatch [Handoff 0 0, Work 0 True]) s3
    \<and> exited (dispatch s3) = Some Panic)"
proof -
  have "path_clean ''/jobs'' \<notin> set (fs_denied begun_fs)" by (simp add: begun_fs_def sample_fs_def)
  moreover have "Unmarshal_job small_codec [] = None" by (simp add: small_codec_def sample_codec_def)
  ultimately show ?thesis
    using stop_loses_job [OF begun_dir, of two_payloads "[1]" "[2]" 64 closed_network "''file''" True] begun_job
    by (simp add: two_payloads_def)
qed

theorem files_when_stopped_witness:
  "\<exists>es s. ogrt_server_run small_codec two_payloads
      (ogrt_server_start 64 (json_file_config ''file'' ''/jobs'') [file_worker ''file'' ''/jobs''] begun_fs) es s
    \<and> ended s = Some (Inl Panic) \<and> mset (job_log (dispatch s) ''file'' ''7'') \<subseteq># {#sample_process ''7''#}
    \<and> fs_files (files (dispatch s)) ''/jobs/7'' = Some []"
proof -
  let ?m = "sample_process ''7''" and ?w = "file_worker ''file'' ''/jobs''" and ?outs = "json_file_config ''file'' ''/jobs''"
  obtain es s b where run: "ogrt_server_run small_codec two_payloads (ogrt_server_start 64 ?outs [?w] begun_fs) es s"
      and s: "ended s = Some (Inl Panic)" "delivered (receiver s) = [(OGRT__MESSAGE_TYPE__ProcessInfoMsg, [1])]"
        "messages (dispatch s) = [?m]" "workers (dispatch s) = [?w\<lparr>w_phase := Created 0 b\<rparr>]"
    using stopped_in_write [OF begun_dir, of ?m two_payloads "[1]" 64 "''file''" True]
    by (auto simp: two_payloads_def)
  have workers: "job_workers small_codec {?m, other_process ''7''} [?w] begun_fs"
    using begun_dir by (simp add: job_workers_def fresh_def separate_def reads_only_def job_dir_def)
  have "mset (job_log (dispatch s) ''file'' ''7'') \<subseteq># {#?m#} \<and> fs_files (files (dispatch s)) ''/jobs/7'' = Some []"
    using files_when_stopped [OF run workers, of ?w "''/jobs''" "other_process ''7''"]
    by (simp add: s decoded_messages_def List.map_filter_def two_payloads_def being_written_def begun_path)
  then show ?thesis using run s(1) by blast
qed


end
