(* ===== verification/End_To_End.thy ===== *)
theory End_To_End
  imports Preload_Properties Shutdown
begin

text \<open>
  From the traced process to the file of its job: the constructor of the preloaded library,
  the datagram, the receive loop, the channels and the worker of a JSON output together.
\<close>

text \<open>What the client describes, as the server reads it.\<close>

abbreviation reported :: "config \<Rightarrow> system \<Rightarrow> dl_phdr_info list \<Rightarrow> string list \<Rightarrow> go_process_info" where
  "reported cfg sys objs args \<equiv> go_process_info_of (described cfg sys objs args (getpid sys) (getppid sys))"

definition job_of :: "config \<Rightarrow> system \<Rightarrow> string" where
  "job_of cfg sys = (case getenv sys (env_jobid cfg) of None \<Rightarrow> ''UNKNOWN'' | Some j \<Rightarrow> j)"

lemma GetJobId_reported: "GetJobId (reported cfg sys objs args) = job_of cfg sys"
  by (simp add: go_process_info_of_def described_def or_unknown_def job_of_def split: option.split)

text \<open>
  What every JSON output has in the job's file when the work on a report is done, on any
  schedule of the dispatcher; and a schedule on which it is done.
\<close>

lemma report_recorded:
  assumes run: "ogrt_server_run cd unmarshal (ogrt_server_start cap outs ws fs)
      (Datagram (frame OGRT__MESSAGE_TYPE__ProcessInfoMsg p) # Decode 0 order # map Dispatch es) srv"
      "quiet cd (dispatch srv)"
    and "unmarshal p = Some g" and "length p + 8 \<le> cap" and "cap < 2 ^ 32"
    and "job_workers cd M ws fs" and "g \<in> M"
    and "distinct (map fst outs)" and "outs \<noteq> []" and "served (map fst outs) ws"
    and "list_all (\<lambda>w. w_output w \<in> set (map fst outs)) ws"
  shows "running srv \<and> (\<forall>w\<in>set ws. \<forall>dir. w_writer w = JsonFileOutput dir \<longrightarrow>
    job_processes cd dir (files (dispatch srv)) (GetJobId g) = job_processes cd dir fs (GetJobId g) @ [g])"
proof -
  note received = one_message_receiver [OF run(1) assms(4,5)]
  have ms: "decoded_messages unmarshal (delivered (receiver srv)) = [g]"
    using assms(3) by (simp add: received(1) decoded_messages_def List.map_filter_def)
  have sub: "set (decoded_messages unmarshal (delivered (receiver srv))) \<subseteq> M"
    using assms(7) ms by simp
  note complete = server_files_complete [OF run(1) assms(6,8-10) sub, unfolded ms]
  have "running srv" using complete(1) received(2,3) by (simp add: running_def)
  moreover have "job_processes cd dir (files (dispatch srv)) (GetJobId g)
      = job_processes cd dir fs (GetJobId g) @ [g]"
    if w: "w \<in> set ws" "w_writer w = JsonFileOutput dir" for w dir
  proof -
    have "w_output w \<in> set (map fst outs)" using assms(11) w(1) by (simp add: list_all_iff)
    then obtain log where "job_processes cd dir (files (dispatch srv)) (GetJobId g)
        = job_processes cd dir fs (GetJobId g) @ log" "mset log = {#g#}"
      using complete(2) [OF run(2) w _ assms(7)] by auto
    then show ?thesis by simp
  qed
  ultimately show ?thesis by blast
qed

lemma output_configured:
  assumes "instantiate_outputs net outs fs = (Inr ws, fs')" and "w \<in> set ws"
  shows "w_output w \<in> set (map fst outs)"
proof -
  have "(w_output w, w_id w) \<in> set (map (\<lambda>w. (w_output w, w_id w)) ws)" using assms(2) by simp
  then show ?thesis unfolding workers_started(1) [OF assms(1)] by force
qed

text \<open>
  C1: A process that reports itself is listed in the file of its job, from the configuration of
  the server and the environment of the process on. The constructor sends one datagram; a server
  that has been started with some outputs and at least one worker for each of them, and gets this
  datagram only, can finish the work on it; and on every schedule of its goroutine and workers on
  which the work is finished, it is still running and every output of JSON files has appended exactly
  the description of the process to the file of the job that the environment names. The
  conditions on the server: no output is Elasticsearch; every output of JSON files has one
  worker and a directory of its own. For a set \<open>M\<close> that contains the report and the processes
  that the job's file already lists: every job id in \<open>M\<close> is a proper file name; the directory
  exists, never runs out of space, and the file of each such job may be created or written; a
  file that is there already holds a job with its id, whose processes are in \<open>M\<close>; what the JSON
  codec writes for lists of processes of \<open>M\<close>, it reads back. The datagram fits the receive
  buffer, and \<open>proto.Unmarshal\<close> gives back what the client has packed.
\<close>

theorem report_in_job_file:
  assumes "reporting cfg sys lib objs args bad fd"
    and "p = packed_info lib (described cfg sys objs args (getpid sys) (getppid sys))"
    and "unmarshal p = Some (reported cfg sys objs args)"
    and "server_process net resolves listens (Some config) fs0 = Inr srv0"
    and "instantiate_outputs net (Outputs config) fs0 = (Inr ws, fs)"
    and "distinct (map fst (Outputs config))" and "list_all (\<lambda>(name, out). 0 < Workers out) (Outputs config)"
    and "length p + 8 \<le> unat (MaxReceiveBuffer config)"
    and "job_workers cd M ws fs" and "reported cfg sys objs args \<in> M"
    and "mset order = mset (map fst (Outputs config))" and "order \<noteq> []"
  shows "\<exists>s' datagram. ogrt_preload_init_hook cfg sys lib client_start = Some (0, s')
    \<and> datagrams (net_actions s') = [datagram]
    \<and> (\<exists>es srv. ogrt_server_run cd unmarshal srv0 (Datagram datagram # Decode 0 order # map Dispatch es) srv
        \<and> quiet cd (dispatch srv))
    \<and> (\<forall>es srv. ogrt_server_run cd unmarshal srv0 (Datagram datagram # Decode 0 order # map Dispatch es) srv
        \<and> quiet cd (dispatch srv) \<longrightarrow> running srv \<and>
        (\<forall>w\<in>set ws. \<forall>dir. w_writer w = JsonFileOutput dir \<longrightarrow>
          job_processes cd dir (files (dispatch srv)) (job_of cfg sys)
            = job_processes cd dir fs (job_of cfg sys) @ [reported cfg sys objs args]))"
proof -
  let ?g = "reported cfg sys objs args" and ?d = "frame OGRT__MESSAGE_TYPE__ProcessInfoMsg p"
  let ?outs = "Outputs config"
  have srv0: "srv0 = ogrt_server_start (unat (MaxReceiveBuffer config)) ?outs ws fs"
    using assms(4,5) by (simp add: server_process_def ogrt_server_main_def split: if_splits)
  have cap: "unat (MaxReceiveBuffer config) < 2 ^ 32"
    using unsigned_less [of "MaxReceiveBuffer config"] by simp
  have outs: "?outs \<noteq> []" using assms(11,12) by auto
  have served: "served (map fst ?outs) ws"
    using served_when_started [OF assms(5,6)] assms(7) by simp
  have known: "list_all (\<lambda>w. w_output w \<in> set (map fst ?outs)) ws"
    using output_configured [OF assms(5)] by (simp add: list_all_iff)
  have fresh: "fresh ws" using assms(9) by (simp add: job_workers_def)
  obtain s' where sent: "ogrt_preload_init_hook cfg sys lib client_start = Some (0, s')"
      "datagrams (net_actions s') = [?d]"
    using reported_datagram [OF assms(1)] assms(2) by (auto simp: OGRT__MESSAGE_TYPE__ProcessInfoMsg_def)
  moreover have "\<exists>es srv. ogrt_server_run cd unmarshal srv0 (Datagram ?d # Decode 0 order # map Dispatch es) srv
      \<and> quiet cd (dispatch srv)"
    using one_message_run [of p _ unmarshal ?g ws order ?outs, OF assms(8) cap assms(3) fresh assms(11) outs]
    unfolding srv0 by blast
  moreover have "running srv \<and> (\<forall>w\<in>set ws. \<forall>dir. w_writer w = JsonFileOutput dir \<longrightarrow>
      job_processes cd dir (files (dispatch srv)) (GetJobId ?g) = job_processes cd dir fs (GetJobId ?g) @ [?g])"
    if "ogrt_server_run cd unmarshal srv0 (Datagram ?d # Decode 0 order # map Dispatch es) srv"
      and "quiet cd (dispatch srv)" for es srv
    by (rule report_recorded [OF that [unfolded srv0] assms(3,8) cap assms(9,10,6) outs served known])
  ultimately show ?thesis
    unfolding GetJobId_reported by blast
qed

text \<open>A codec for one process, and the server of the sample process.\<close>

lemma sample_job: "job_of sample_config sample_system = ''UNKNOWN''"
  by (simp add: job_of_def sample_config_def sample_system_def sample_env_def)

text \<open>The file of the job is there and lists another process.\<close>

abbreviation earlier_process :: go_process_info where
  "earlier_process \<equiv> other_process ''UNKNOWN''"

definition earlier_fs :: filesystem where
  "earlier_fs = sample_fs\<lparr>fs_files := (\<lambda>_. None)(''/jobs/UNKNOWN'' := Some [0, 2])\<rparr>"

lemma unknown_path: "path_join ''/jobs'' ''UNKNOWN'' = ''/jobs/UNKNOWN''"
  by code_simp

lemma earlier_workers:
  assumes "GetJobId m = ''UNKNOWN''"
  shows "job_workers (sample_codec m earlier_process) {m, earlier_process} [file_worker ''file'' ''/jobs''] earlier_fs"
proof -
  let ?M = "{m, earlier_process}" and ?cd = "sample_codec m earlier_process"
  have path: "job_path ''/jobs'' n = ''/jobs/UNKNOWN''" if "n \<in> ?M" for n
    using that assms unknown_path by (auto simp: job_path_def)
  have "entry_name ''UNKNOWN''" by (simp add: entry_name_def)
  then have "usable_dir ?M ''/jobs'' earlier_fs"
    using assms path sample_paths(2) by (auto simp: usable_dir_def earlier_fs_def sample_fs_def)
  moreover have "\<forall>n\<in>?M. job_file_ok ?cd ?M (GetJobId n) (fs_files earlier_fs (job_path ''/jobs'' n))"
    using path assms by (auto simp: job_file_ok_def earlier_fs_def sample_codec_def)
  ultimately show ?thesis
    using sample_round_trips [of m earlier_process] assms
    unfolding job_workers_def fresh_def separate_def reads_only_def file_worker_def job_dir_def by simp
qed

lemma earlier_processes:
  "job_processes (sample_codec m earlier_process) ''/jobs'' earlier_fs ''UNKNOWN'' = [earlier_process]"
  by (simp add: job_processes_def unknown_path earlier_fs_def listed_def sample_codec_def)

lemma example_started:
  "instantiate_outputs net (json_file_config ''file'' ''/jobs'') earlier_fs = (Inr [file_worker ''file'' ''/jobs''], earlier_fs)"
  by (simp add: json_file_config_def open_writer_def JsonFile_Open_def Stat_def sample_paths earlier_fs_def
      sample_fs_def file_worker_def)

theorem report_in_job_file_witness:
  "\<exists>srv0 s' datagram es srv.
      server_process closed_network (\<lambda>_. True) (\<lambda>_. True) (Some (example_config 262144)) earlier_fs = Inr srv0
    \<and> ogrt_preload_init_hook sample_config sample_system sample_lib client_start = Some (0, s')
    \<and> datagrams (net_actions s') = [datagram]
    \<and> ogrt_server_run (sample_codec (go_process_info_of sample_info) earlier_process)
        (\<lambda>_. Some (go_process_info_of sample_info)) srv0
        (Datagram datagram # Decode 0 [''file''] # map Dispatch es) srv
    \<and> job_processes (sample_codec (go_process_info_of sample_info) earlier_process) ''/jobs''
        (files (dispatch srv)) ''UNKNOWN'' = [earlier_process, go_process_info_of sample_info]"
proof -
  let ?ws = "[file_worker ''file'' ''/jobs'']" and ?g = "go_process_info_of sample_info"
  let ?config = "example_config 262144" and ?cd = "sample_codec (go_process_info_of sample_info) earlier_process"
  have g: "reported sample_config sample_system sample_objects [''ls'', ''-l''] = ?g"
    by (simp add: sample_info_def sample_parts)
  have job: "GetJobId ?g = ''UNKNOWN''"
    using GetJobId_reported [of sample_config sample_system sample_objects "[''ls'', ''-l'']"]
    by (simp add: g sample_job)
  have config: "Outputs ?config = json_file_config ''file'' ''/jobs''" "MaxReceiveBuffer ?config = 262144"
    by (simp_all add: example_config_def)
  let ?srv0 = "ogrt_server_start 262144 (json_file_config ''file'' ''/jobs'') ?ws earlier_fs"
  have start: "server_process closed_network (\<lambda>_. True) (\<lambda>_. True) (Some ?config) earlier_fs = Inr ?srv0"
    by (simp add: server_process_def ogrt_server_main_def config example_started)
  have started: "instantiate_outputs closed_network (Outputs ?config) earlier_fs = (Inr ?ws, earlier_fs)"
    by (simp add: config example_started)
  have outs: "distinct (map fst (Outputs ?config))" "list_all (\<lambda>(name, out). 0 < Workers out) (Outputs ?config)"
    unfolding config by (simp_all add: json_file_config_def)
  have len: "length (packed_info sample_lib (described sample_config sample_system sample_objects [''ls'', ''-l'']
      (getpid sample_system) (getppid sample_system))) + 8 \<le> unat (MaxReceiveBuffer ?config)"
    by (simp add: sample_parts config)
  note result = report_in_job_file [OF sample_reporting(1) refl _ start started outs len earlier_workers [OF job],
      of "\<lambda>_. Some ?g" "[''file'']", unfolded g sample_job]
  obtain s' datagram es srv where
      sent: "ogrt_preload_init_hook sample_config sample_system sample_lib client_start = Some (0, s')"
      "datagrams (net_actions s') = [datagram]"
      and run: "ogrt_server_run ?cd (\<lambda>_. Some ?g) ?srv0 (Datagram datagram # Decode 0 [''file''] # map Dispatch es) srv"
      and files: "\<forall>w\<in>set ?ws. \<forall>dir. w_writer w = JsonFileOutput dir \<longrightarrow>
        job_processes ?cd dir (files (dispatch srv)) ''UNKNOWN'' = job_processes ?cd dir earlier_fs ''UNKNOWN'' @ [?g]"
    using result by (auto simp: config)
  have "job_processes ?cd ''/jobs'' (files (dispatch srv)) ''UNKNOWN'' = [earlier_process, ?g]"
    using files earlier_processes [of ?g] by (auto simp: file_worker_def)
  then show ?thesis using start sent run by blast
qed

text \<open>
  C37: One process whose environment sets the job variable to the empty string ends the server:
  the client sends the empty job id as it is, the path of the job's file is the directory
  itself, and the worker panics on the file that could not be created.
\<close>

theorem empty_job_id_stops_server:
  assumes "reporting cfg sys lib objs args bad fd" and "getenv sys (env_jobid cfg) = Some []"
    and "p = packed_info lib (described cfg sys objs args (getpid sys) (getppid sys))"
    and "unmarshal p = Some (reported cfg sys objs args)"
    and "length p + 8 \<le> cap" and "cap < 2 ^ 32"
    and "dir \<noteq> []" and "path_clean dir \<in> set (fs_dirs fs)" and "fs_files fs (path_clean dir) = None"
    and "Marshal_job cd \<lparr>job_JobId = Some [], Processes = [reported cfg sys objs args]\<rparr> = Some b"
  shows "\<exists>s' datagram srv. ogrt_preload_init_hook cfg sys lib client_start = Some (0, s')
    \<and> datagrams (net_actions s') = [datagram]
    \<and> ogrt_server_run cd unmarshal (ogrt_server_start cap (json_file_config c dir) [file_worker c dir] fs)
        (Datagram datagram # Decode 0 [c] # map Dispatch [Handoff 0 0, Work 0 x, Work 0 x, Work 0 x]) srv
    \<and> exited (dispatch srv) = Some Panic"
proof -
  let ?g = "reported cfg sys objs args" and ?t = OGRT__MESSAGE_TYPE__ProcessInfoMsg
  let ?outs = "json_file_config c dir"
  obtain s' where sent: "ogrt_preload_init_hook cfg sys lib client_start = Some (0, s')"
      "datagrams (net_actions s') = [frame ?t p]"
    using reported_datagram [OF assms(1)] assms(3) by (auto simp: OGRT__MESSAGE_TYPE__ProcessInfoMsg_def)
  have job: "GetJobId ?g = []" using assms(2) by (simp add: GetJobId_reported job_of_def)
  then have path: "job_path dir ?g = path_clean dir" by (simp add: job_path_def path_join_empty [OF assms(7)])
  have none: "create_job_file fs dir ?g = Inl Panic" "fs_files fs (job_path dir ?g) = None"
    unfolding create_job_file_def Create_def path using assms(7-9) by simp_all
  have marshal: "Marshal_job cd \<lparr>job_JobId = Some (GetJobId ?g), Processes = [?g]\<rparr> = Some b"
    unfolding job by (rule assms(10))
  obtain d where d: "dispatch_run cd (one_message (map fst ?outs) [file_worker c dir] fs [c] ?g)
      [Handoff 0 0, Work 0 x, Work 0 x, Work 0 x] d" "exited d = Some Panic"
    using single_worker_cannot_create [OF none(2,1) marshal assms(7), of c x] by auto
  obtain r where "ogrt_server_run cd unmarshal (ogrt_server_start cap ?outs [file_worker c dir] fs)
      (Datagram (frame ?t p) # Decode 0 [c] # map Dispatch [Handoff 0 0, Work 0 x, Work 0 x, Work 0 x])
      (ogrt_server_start cap ?outs [file_worker c dir] fs\<lparr>receiver := r, dispatch := d\<rparr>)"
    using one_message_then [of p cap unmarshal ?g "[c]", OF assms(5,6,4) _ _ d(1)] by auto
  then show ?thesis using sent d(2) by fastforce
qed

definition empty_job_system :: system where
  "empty_job_system = sample_system\<lparr>getenv := sample_env(''JOBID'' := Some [])\<rparr>"

lemma empty_job_reporting:
  "reporting sample_config empty_job_system sample_lib sample_objects [''ls'', ''-l''] [refused] 3"
  by (simp add: empty_job_system_def reporting_def memory_available_def describable_def objects_walkable_def
      sample_system_def sample_objects_def sample_config_def sample_env_def sample_lib_def packable_def
      walkable_def object_of_def signature_text_def proc_cmdline_def PATH_MAX_def HOST_NAME_MAX_def
      ogrt_env_enabled_def attempt_fails_def refused_def reachable_def silent_def)

theorem empty_job_id_stops_server_witness:
  "\<exists>s' datagram srv. ogrt_preload_init_hook sample_config empty_job_system sample_lib client_start = Some (0, s')
    \<and> datagrams (net_actions s') = [datagram]
    \<and> ogrt_server_run (sample_codec empty_process_info empty_process_info)
        (\<lambda>_. Some (reported sample_config empty_job_system sample_objects [''ls'', ''-l'']))
        (ogrt_server_start 64 (json_file_config ''file'' ''/jobs'') [file_worker ''file'' ''/jobs''] sample_fs)
        (Datagram datagram # Decode 0 [''file''] # map Dispatch [Handoff 0 0, Work 0 True, Work 0 True, Work 0 True]) srv
    \<and> exited (dispatch srv) = Some Panic"
proof -
  have job: "getenv empty_job_system (env_jobid sample_config) = Some []"
    by (simp add: empty_job_system_def sample_config_def)
  have len: "length (packed_info sample_lib m) + 8 \<le> 64" for m
    by (simp add: sample_parts)
  have fs: "path_clean ''/jobs'' \<in> set (fs_dirs sample_fs)" "fs_files sample_fs (path_clean ''/jobs'') = None"
    by (simp_all add: sample_paths sample_fs_def)
  have marshal: "Marshal_job (sample_codec empty_process_info empty_process_info) j
      = Some (0 # map (\<lambda>p. if p = empty_process_info then 1 else 2) (Processes j))" for j
    by (simp add: sample_codec_def)
  show ?thesis
    by (rule empty_job_id_stops_server [OF empty_job_reporting job refl _ len _ _ fs marshal]) simp_all
qed

end
