(* ===== verification/Spec2Isabelle.thy ===== *)
theory Spec2Isabelle
  imports Cmdline_Properties Readso_Spec Util_Spec Wire_Properties Stamp Go_Generated End_To_End
begin

text \<open>
  OGRT records which programs and shared objects are run on a cluster. A library that is
  preloaded into every process (client/src) describes the process in one protobuf message
  and sends it to a server as a UDP datagram; a command line tool stamps binaries with a
  signature, as an ELF note, and shows it. The server hands every message to its outputs,
  which keep the processes of a job in a JSON file, or pass them on to a stream or an
  Elasticsearch index. This development models the C code of the client and the Go code of
  the server, and proves what they do.

  \<^bold>\<open>The program and its theories.\<close> Each component has a theory with its data, its state and
  its operations, named as in the source, and a theory \<open>_Spec\<close> or \<open>_Properties\<close> with its
  specification and properties.

  \<^item> Prelude: C strings, bytes and 32-bit integers, and the convention for undefined
    behaviour: a definition whose source can run into it returns an option, and \<open>None\<close> is
    undefined behaviour (or, for a loop, that it does not end).
  \<^item> Argv_Shuffle, Getopt (Getopt_Spec): the copy of glibc's \<open>getopt_long\<close> in
    ogrt-cmdline.c. \<open>shuffle_argv\<close> and \<open>exchange\<close> permute \<open>argv\<close>; \<open>check_long_opt\<close> and
    \<open>check_short_opt\<close> recognise one option. The scanner's static data is the record
    \<open>scanner\<close>, extended by the parser's state.
  \<^item> Token_Loop: the locales \<open>token_source\<close> and \<open>token_client\<close>, the interface between a
    scanner that yields tokens and a loop that handles them; the scanner and the parser are
    their interpretation.
  \<^item> Cmdline (Cmdline_Spec, Cmdline_Properties): the rest of ogrt-cmdline.c: the options
    structure, \<open>update_arg\<close>, the loop of \<open>cmdline_parser_internal\<close> and its ways out (a
    return, an exit, an abort), with allocations that may fail.
  \<^item> Util (Util_Spec): ogrt-util.c. Readso (Readso_Spec): ogrt-readso.c, the walk over the
    loaded objects and over the notes of their segments, on a partial map of memory.
  \<^item> Proto (Proto_Spec): ogrt.pb-c.h and ogrt.pb-c.c, the messages, their functions and the
    descriptor tables, and protocol/ogrt.proto, the schema.
  \<^item> Frame, Server (Wire_Properties): \<open>ogrt_prepare_sendbuffer\<close> of ogrt-main.c and the
    receive loop of server/src/ogrt-server.go, which is a step relation because its
    goroutines share one buffer.
  \<^item> Go_Path, Go_Messages, Go_Generated: what the server uses of \<open>strings\<close> and \<open>path\<close>, and
    the generated server/src/protocol/ogrt.pb.go: structs, struct tags, getters and message
    types; \<open>go_process_info_of\<close> is what a client's message becomes.
  \<^item> Output (Output_Spec): the three implementations of \<open>OGWriter\<close> in server/src/output, on a
    file system of cleaned paths, a stream and the documents of an index. The points of
    \<open>PersistProcessInfo\<close> between which another worker can run are definitions of their own.
  \<^item> Dispatch (Dispatch_Spec): the rest of \<open>main\<close> from the configuration on and \<open>writeToOutput\<close> in ogrt-server.go: the
    start of the workers, the unbuffered channels, the workers, and the receive loop and the
    signal handler with them in one process (\<open>ogrt_server_step\<close>). The state \<open>dispatcher\<close> has the messages by
    address, since the outputs share them by pointer, and what each worker is doing.
  \<^item> Job_Files, Server_Runs, Interference (Server_Properties): the invariant of the job files
    under any schedule, runs of the whole server, and workers that disturb each other.
  \<^item> Shutdown: the end of the server, and the files that it leaves behind.
  \<^item> End_To_End: the client and the server together.
  \<^item> Preload (Preload_Spec, Preload_Properties): the rest of ogrt-main.c: the constructor
    \<open>ogrt_preload_init_hook\<close> and \<open>ogrt_send_processinfo\<close>, which call Util, Readso, Proto and
    Frame. The state \<open>client\<close> holds the globals, the log, the network actions, and the
    allocated blocks by their number.
  \<^item> Signature, Cli (Cli_Spec): ogrt-signature.c, the bytes of the object file with the
    stamp, and ogrt-cli.c, the tool on top of Cmdline.
  \<^item> Stamp: the assembler sources of the stamps, and wrappers/ld, which calls the tool and
    then the linker.

  \<^bold>\<open>Interfaces.\<close> \<open>token_source\<close>/\<open>token_client\<close> (a scanner and its client), \<open>frame_codec\<close> (a
  writer and a reader of frames), \<open>object_visitor\<close> (a callback of \<open>dl_iterate_phdr\<close>),
  \<open>typed_message\<close> (the functions of one message type, interpreted for all eight),
  \<open>allocating\<close> (an operation whose result owns the blocks by which the heap has grown) and
  \<open>og_writer\<close> (an output that records what it accepts, interpreted for all three).

  \<^bold>\<open>What is shown.\<close>

  \<^item> The option scanner refines a reference scan that takes one token after the other from
    the arguments, and the shuffle is a stable rotation; the parser is a fold over the
    tokens, frees what it allocates, and never runs out of fuel.
  \<^item> The tool does what its options say, lists the OGRT notes of the sections of a file with
    their number as its status, and the signature that it generates is the one that
    it shows, and the one that the library finds in a program linked through the wrapper. The
    wrapper leaves its temporary file behind.
  \<^item> The walk over notes finds the last OGRT note of well-formed notes; it ends whenever
    every size moves the offset forward, and there are notes on which it does not end or
    reads behind the segment. The array of objects is right when the objects do not change
    in between and are fewer than 2^31, and overflows when two more appear.
  \<^item> The descriptor tables agree with the structs and with the schema, and so do the struct
    tags of the server.
  \<^item> A frame is decoded to the type and payload that it was made from, whatever the receive
    buffer held; handled one by one, all messages are delivered; handled late, they
    overwrite each other. In every case the goroutines are, by type and length, those that
    the received datagrams have announced.
  \<^item> Every decoded message is for every output exactly once to be sent, in work or persisted;
    with a worker for every output the work ends, and without one the messages wait for ever.
    When every JSON output has one worker and a usable directory of its own, no output is
    Elasticsearch and the job ids are proper file names, no worker panics and each job's file
    lists exactly its decoded processes, whatever the schedule. Two workers in one directory
    lose a message or panic; an Elasticsearch output changes the time that the other outputs
    record; a job id \<open>../e\<close> names a file of the parent of the directory, and an empty one ends
    the server.
  \<^item> At every moment at which the server may be stopped, a job's file lists what its worker
    has finished with, or is empty because it is being written: then all that it listed is
    lost, and a server that is started again panics on the job. The signal handler itself
    panics instead of exiting.
  \<^item> The constructor, when tracing is on, no filter matches and an address can be reached,
    sends exactly one datagram, which the server decodes to the description of the process
    and appends to the file of its job; in every case it closes its sockets, and it stays
    silent when asked to.
    \<open>ogrt_send_processinfo\<close> frees exactly what it allocates, whatever fails.

  \<^bold>\<open>Bounds and fuel.\<close> The loop of the parser runs with \<open>parse_fuel\<close>, one more than the
  number of characters of the command line, which is shown to be enough in Cmdline_Spec.
  \<open>note_loop\<close> and \<open>mem_string\<close> have no fuel: they are partial functions, and \<open>None\<close> is a
  loop that does not end. All other loops are total. The steps that the server can take
  without a new message are bounded by \<open>work_left\<close>: a handoff and at most four steps of a
  worker for each delivery. Integers that the code keeps in 32 bits are words; a signed
  overflow is undefined (\<open>add_int32\<close>), an unsigned one wraps.
  \<open>PATH_MAX\<close> and \<open>HOST_NAME_MAX\<close> are those of Linux.

  \<^bold>\<open>Parameters.\<close> The answers of system and C library calls (the record \<open>system\<close> of Preload
  and arguments elsewhere), libelf (\<open>elf_library\<close>), libuuid (the text of a fresh uuid),
  protobuf-c (\<open>protobuf_c\<close>), the configured macros (\<open>config\<close>), what the wrapper of the linker finds (\<open>script\<close>), and for the server
  encoding/json (\<open>codec\<close>), the Go library's \<open>proto.Unmarshal\<close> and the network. Where a property rests on
  protobuf-c, its hypotheses are that the packed size is the length of the packed message
  and that unpacking gives the message back. Where one rests on encoding/json, its hypothesis
  \<open>round_trips\<close> is that the messages in question, which are valid UTF-8, survive marshalling.

  \<^bold>\<open>Not modelled.\<close> A payload that a goroutine reads while the next datagram overwrites it; a
  directory that can be searched but not written; a name from \<open>mktemp\<close> that the shell splits. Debug output of the library, whose level is never enabled; the messages
  of \<open>perror\<close>; the failure of an allocation inside \<open>so_name\<close> other than as a failed
  \<open>realpath\<close>; the parsing of the server's configuration file, its metrics, its log and its
  debug endpoint; symbolic links, and the bytes of a failed write to a stream; the text form of
  the generated Go messages, which is the library's; the build description and the tests.
\<close>

end
